theory Spec2Isabelle
  imports Main "HOL-Library.AList"
begin

section \<open>Python values handled by copylan.py\<close>

text \<open>
  The script works on the JSON documents returned by the controller. A record (an element,
  a VRF, an interface, a static route) is a JSON object, kept as an association list from
  field names to values. Numbers are integers here; JSON floats are outside the model.
\<close>

datatype json =
    JNull
  | JBool bool
  | JNum int
  | JStr string
  | JArr "json list"
  | JObj "(string \<times> json) list"

type_synonym pyrec = "(string \<times> json) list"

text \<open>Exceptions and \<open>sys.exit\<close> are values: the result of a phase is an error or a value.\<close>

datatype pyerr =
    KeyError json
  | TypeError
  | AttributeError
  | SystemExit int

definition bnd :: "'e + 'a \<Rightarrow> ('a \<Rightarrow> 'e + 'b) \<Rightarrow> 'e + 'b" where
  "bnd m f = (case m of Inl e \<Rightarrow> Inl e | Inr x \<Rightarrow> f x)"

text \<open>Truth value of a Python object in \<open>if x:\<close>.\<close>

fun truthy :: "json \<Rightarrow> bool" where
  "truthy JNull = False"
| "truthy (JBool b) = b"
| "truthy (JNum n) = (n \<noteq> 0)"
| "truthy (JStr s) = (s \<noteq> [])"
| "truthy (JArr xs) = (xs \<noteq> [])"
| "truthy (JObj kvs) = (kvs \<noteq> [])"

text \<open>
  Dictionary keys are compared by Python equality of hashable values: \<open>None\<close>, numbers
  (with \<open>True == 1\<close> and \<open>False == 0\<close>) and strings. Lists and dicts are unhashable:
  using one as a key raises \<open>TypeError\<close>.
\<close>

datatype hashkey = HNone | HNum int | HStr string

fun hash_of :: "json \<Rightarrow> hashkey option" where
  "hash_of JNull = Some HNone"
| "hash_of (JBool b) = Some (HNum (if b then 1 else 0))"
| "hash_of (JNum n) = Some (HNum n)"
| "hash_of (JStr s) = Some (HStr s)"
| "hash_of (JArr xs) = None"
| "hash_of (JObj kvs) = None"

text \<open>
  A Python dict built by the script: entries in insertion order, each with the key object
  first stored. Assigning to a key that is already there replaces the value in place.
\<close>

type_synonym 'v pydict = "(json \<times> 'v) list"

fun pyget :: "json \<Rightarrow> 'v pydict \<Rightarrow> 'v option" where
  "pyget k [] = None"
| "pyget k ((k', v) # d) = (if hash_of k' = hash_of k then Some v else pyget k d)"

fun pyset :: "json \<Rightarrow> 'v \<Rightarrow> 'v pydict \<Rightarrow> 'v pydict" where
  "pyset k v [] = [(k, v)]"
| "pyset k v ((k', v') # d) =
     (if hash_of k' = hash_of k then (k', v) # d else (k', v') # pyset k v d)"

definition dict_find :: "'v pydict \<Rightarrow> json \<Rightarrow> pyerr + 'v option" where
  \<comment> \<open>\<open>d.get(k)\<close> before the default is applied\<close>
  "dict_find d k = (case hash_of k of None \<Rightarrow> Inl TypeError | Some h \<Rightarrow> Inr (pyget k d))"

definition dict_get :: "json pydict \<Rightarrow> json \<Rightarrow> pyerr + json" where
  \<comment> \<open>\<open>d.get(k)\<close>: \<open>None\<close> when the key is absent\<close>
  "dict_get d k =
     bnd (dict_find d k) (\<lambda>r. Inr (case r of None \<Rightarrow> JNull | Some v \<Rightarrow> v))"

definition dict_sub :: "'v pydict \<Rightarrow> json \<Rightarrow> pyerr + 'v" where
  \<comment> \<open>\<open>d[k]\<close>\<close>
  "dict_sub d k =
     bnd (dict_find d k) (\<lambda>r. case r of None \<Rightarrow> Inl (KeyError k) | Some v \<Rightarrow> Inr v)"

definition dict_store :: "'v pydict \<Rightarrow> json \<Rightarrow> 'v \<Rightarrow> pyerr + 'v pydict" where
  \<comment> \<open>\<open>d[k] = v\<close>\<close>
  "dict_store d k v = (case hash_of k of None \<Rightarrow> Inl TypeError | Some h \<Rightarrow> Inr (pyset k v d))"

definition dict_contains :: "'v pydict \<Rightarrow> json \<Rightarrow> bool" where
  \<comment> \<open>\<open>k in d\<close> for a hashable \<open>k\<close>\<close>
  "dict_contains d k = (pyget k d \<noteq> None)"

text \<open>Field access on a record.\<close>

definition rec_get :: "pyrec \<Rightarrow> string \<Rightarrow> json" where
  \<comment> \<open>\<open>r.get(k)\<close>\<close>
  "rec_get r k = (case map_of r k of None \<Rightarrow> JNull | Some v \<Rightarrow> v)"

definition rec_sub :: "pyrec \<Rightarrow> string \<Rightarrow> pyerr + json" where
  \<comment> \<open>\<open>r[k]\<close>\<close>
  "rec_sub r k = (case map_of r k of None \<Rightarrow> Inl (KeyError (JStr k)) | Some v \<Rightarrow> Inr v)"

definition rec_pop :: "string \<Rightarrow> pyrec \<Rightarrow> pyrec" where
  \<comment> \<open>\<open>r.pop(k, None)\<close>\<close>
  "rec_pop k r = AList.delete k r"

definition rec_store :: "string \<Rightarrow> json \<Rightarrow> pyrec \<Rightarrow> pyrec" where
  \<comment> \<open>\<open>r[k] = v\<close>\<close>
  "rec_store k v r = AList.update k v r"

section \<open>Sanitizing a fetched record\<close>

definition BASE_DELETE_ATTRS :: "string list" where
  "BASE_DELETE_ATTRS =
     [''_created_on_utc'', ''_updated_on_utc'', ''_content_length'', ''_status_code'',
      ''_request_id'', ''_debug'', ''_info'', ''_warning'', ''_error'']"

definition sanitize :: "pyrec \<Rightarrow> pyrec" where
  \<comment> \<open>\<open>for attr in BASE_DELETE_ATTRS: payload.pop(attr, None)\<close> on the deep copy\<close>
  "sanitize r = fold rec_pop BASE_DELETE_ATTRS r"

section \<open>Controller calls and what the script prints\<close>

text \<open>
  A listing call answers with \<open>cgx_status\<close> false, or true with the \<open>items\<close> of its
  content. A write call is identified by its scope and payload; its outcome is the
  \<open>cgx_status\<close> of the answer.
\<close>

datatype resp = Failed | Listing "pyrec list"

datatype call =
    Put_staticroutes json json json pyrec
  | Post_staticroutes json json pyrec
  | Put_interfaces json json json pyrec
  | Post_interfaces json json pyrec

text \<open>
  The diagnostics (\<open>ERR\<close> and \<open>WARN\<close> lines) and the write calls, in program order.
  Progress lines (\<open>Retrieved ...\<close>, \<open>Attempting ...\<close>, \<open>SUCCESS\<close>) carry no more than
  the write call and its outcome and are left out.
\<close>

datatype event =
    ERR_elements
  | ERR_vrfs
  | ERR_interfaces_of json json
  | WARN_no_site_id json json
  | ERR_same_elements
  | ERR_src_not_found
  | ERR_dst_not_found
  | ERR_src_routes
  | ERR_dst_routes
  | ERR_src_interfaces
  | ERR_dst_interfaces
  | WARN_vrf_not_global json json json
  | WARN_vrf_no_name json json
  | WARN_if_no_dst json json json
  | WARN_if_no_name json json
  | WARN_route_no_etag json json
  | WARN_intf_no_etag json
  | Write call bool

section \<open>Translation dictionaries: \<open>create_dicts\<close>\<close>

record tables =
  elem_id_name :: "json pydict"
  elem_name_id :: "json pydict"
  elemid_siteid :: "json pydict"
  elem_id_model :: "json pydict"
  element_vrfs_by_id :: "(json pydict) pydict"
  element_vrfs_by_name :: "(json pydict) pydict"
  element_interfaces_by_id :: "(json pydict) pydict"
  element_interfaces_by_name :: "(json pydict) pydict"
  global_id_vfr :: "json pydict"
  global_name_vfr :: "json pydict"

definition empty_tables :: tables where
  "empty_tables = \<lparr> elem_id_name = [], elem_name_id = [], elemid_siteid = [],
     elem_id_model = [], element_vrfs_by_id = [], element_vrfs_by_name = [],
     element_interfaces_by_id = [], element_interfaces_by_name = [],
     global_id_vfr = [], global_name_vfr = [] \<rparr>"

text \<open>
  One element of the device listing. In an assignment Python evaluates the right-hand
  side before the subscript of the target, which fixes the exception a malformed element
  raises first.
\<close>

definition elem_step :: "tables \<Rightarrow> pyrec \<Rightarrow> pyerr + tables" where
  "elem_step T elem =
     bnd (rec_sub elem ''name'') (\<lambda>name.
     bnd (rec_sub elem ''id'') (\<lambda>eid.
     bnd (dict_store (elem_id_name T) eid name) (\<lambda>d1.
     bnd (dict_store (elem_name_id T) name eid) (\<lambda>d2.
     bnd (rec_sub elem ''site_id'') (\<lambda>site.
     bnd (dict_store (elemid_siteid T) eid site) (\<lambda>d3.
     bnd (rec_sub elem ''model_name'') (\<lambda>model.
     bnd (dict_store (elem_id_model T) eid model) (\<lambda>d4.
     bnd (dict_store (element_vrfs_by_id T) eid []) (\<lambda>d5.
     bnd (dict_store (element_vrfs_by_name T) eid []) (\<lambda>d6.
     bnd (dict_store (element_interfaces_by_id T) eid []) (\<lambda>d7.
     bnd (dict_store (element_interfaces_by_name T) eid []) (\<lambda>d8.
       Inr (T\<lparr> elem_id_name := d1, elem_name_id := d2, elemid_siteid := d3,
                elem_id_model := d4, element_vrfs_by_id := d5, element_vrfs_by_name := d6,
                element_interfaces_by_id := d7,
                element_interfaces_by_name := d8 \<rparr>)))))))))))))"

fun elem_loop :: "tables \<Rightarrow> pyrec list \<Rightarrow> pyerr + tables" where
  "elem_loop T [] = Inr T"
| "elem_loop T (elem # elemlist) = bnd (elem_step T elem) (\<lambda>T'. elem_loop T' elemlist)"

definition vrf_step :: "tables \<Rightarrow> pyrec \<Rightarrow> pyerr + tables" where
  "vrf_step T vrf =
     bnd (rec_sub vrf ''name'') (\<lambda>name.
     bnd (rec_sub vrf ''id'') (\<lambda>vid.
     bnd (dict_store (global_id_vfr T) vid name) (\<lambda>d1.
     bnd (dict_store (global_name_vfr T) name vid) (\<lambda>d2.
       Inr (T\<lparr> global_id_vfr := d1, global_name_vfr := d2 \<rparr>)))))"

fun vrf_loop :: "tables \<Rightarrow> pyrec list \<Rightarrow> pyerr + tables" where
  "vrf_loop T [] = Inr T"
| "vrf_loop T (vrf # vrflist) = bnd (vrf_step T vrf) (\<lambda>T'. vrf_loop T' vrflist)"

text \<open>One interface of one element's listing: both per-element dictionaries get an entry.\<close>

definition intf_step :: "json \<Rightarrow> tables \<Rightarrow> pyrec \<Rightarrow> pyerr + tables" where
  "intf_step elem_id T intf =
     bnd (rec_sub intf ''name'') (\<lambda>name.
     bnd (dict_sub (element_interfaces_by_id T) elem_id) (\<lambda>by_id.
     bnd (rec_sub intf ''id'') (\<lambda>iid.
     bnd (dict_store by_id iid name) (\<lambda>by_id'.
     bnd (dict_sub (element_interfaces_by_name T) elem_id) (\<lambda>by_name.
     bnd (dict_store by_name name iid) (\<lambda>by_name'.
       Inr (T\<lparr> element_interfaces_by_id := pyset elem_id by_id' (element_interfaces_by_id T),
                element_interfaces_by_name :=
                  pyset elem_id by_name' (element_interfaces_by_name T) \<rparr>)))))))"

fun intf_loop :: "json \<Rightarrow> tables \<Rightarrow> pyrec list \<Rightarrow> pyerr + tables" where
  "intf_loop elem_id T [] = Inr T"
| "intf_loop elem_id T (intf # intlist) =
     bnd (intf_step elem_id T intf) (\<lambda>T'. intf_loop elem_id T' intlist)"

definition emit :: "event \<Rightarrow> event list \<times> 'a \<Rightarrow> event list \<times> 'a" where
  "emit e r = (e # fst r, snd r)"

text \<open>
  The loop over \<open>elem_id_name.items()\<close>; \<open>interfaces\<close> is the controller's answer to the
  interface listing of an element at a site.
\<close>

fun dev_loop ::
  "(json \<Rightarrow> json \<Rightarrow> resp) \<Rightarrow> tables \<Rightarrow> (json \<times> json) list \<Rightarrow> event list \<times> (pyerr + tables)"
where
  "dev_loop interfaces T [] = ([], Inr T)"
| "dev_loop interfaces T ((elem_id, elem_name) # rest) =
     (let site_id = (case pyget elem_id (elemid_siteid T) of None \<Rightarrow> JNull | Some s \<Rightarrow> s) in
      if truthy site_id then
        (case interfaces elem_id site_id of
           Listing intlist \<Rightarrow>
             (case intf_loop elem_id T intlist of
                Inl e \<Rightarrow> ([], Inl e)
              | Inr T' \<Rightarrow> dev_loop interfaces T' rest)
         | Failed \<Rightarrow> emit (ERR_interfaces_of elem_name elem_id) (dev_loop interfaces T rest))
      else emit (WARN_no_site_id elem_name elem_id) (dev_loop interfaces T rest))"

record session =
  get_elements :: resp
  get_vrfcontexts :: resp
  get_interfaces :: "json \<Rightarrow> json \<Rightarrow> resp"

definition create_dicts :: "session \<Rightarrow> event list \<times> (pyerr + tables)" where
  "create_dicts sase_session =
     (case get_elements sase_session of
        Failed \<Rightarrow> ([ERR_elements], Inl (SystemExit 1))
      | Listing elemlist \<Rightarrow>
          (case elem_loop empty_tables elemlist of
             Inl e \<Rightarrow> ([], Inl e)
           | Inr T1 \<Rightarrow>
               (case get_vrfcontexts sase_session of
                  Failed \<Rightarrow> ([ERR_vrfs], Inl (SystemExit 1))
                | Listing vrflist \<Rightarrow>
                    (case vrf_loop T1 vrflist of
                       Inl e \<Rightarrow> ([], Inl e)
                     | Inr T2 \<Rightarrow>
                         dev_loop (get_interfaces sase_session) T2 (elem_id_name T2)))))"

section \<open>Validation of the element names in \<open>go\<close>\<close>

record ends =
  src_eid :: json
  src_sid :: json
  dst_eid :: json
  dst_sid :: json

definition arg_value :: "string option \<Rightarrow> json" where
  "arg_value a = (case a of None \<Rightarrow> JNull | Some s \<Rightarrow> JStr s)"

definition resolve_elements :: "tables \<Rightarrow> string \<Rightarrow> string option \<Rightarrow> event list \<times> (pyerr + ends)" where
  "resolve_elements T src_element dst_element =
     (if \<not> dict_contains (elem_name_id T) (JStr src_element)
        then ([ERR_src_not_found], Inl (SystemExit 1))
      else if \<not> dict_contains (elem_name_id T) (arg_value dst_element)
        then ([ERR_dst_not_found], Inl (SystemExit 1))
      else ([],
        bnd (dict_sub (elem_name_id T) (JStr src_element)) (\<lambda>se.
        bnd (dict_sub (elemid_siteid T) se) (\<lambda>ss.
        bnd (dict_sub (elem_name_id T) (arg_value dst_element)) (\<lambda>de.
        bnd (dict_sub (elemid_siteid T) de) (\<lambda>ds.
          Inr \<lparr> src_eid = se, src_sid = ss, dst_eid = de, dst_sid = ds \<rparr>))))))"

section \<open>Copying static routes\<close>

text \<open>
  The VRF reference of the payload: \<open>Inr None\<close> is the \<open>continue\<close> of the route loop
  (the route is dropped), \<open>Inr (Some p)\<close> the payload to go on with.
\<close>

definition vrf_part :: "tables \<Rightarrow> pyrec \<Rightarrow> event list \<times> (pyerr + pyrec option)" where
  "vrf_part T route_payload =
     (let source_vrf_context_id = rec_get route_payload ''vrf_context_id'' in
      if truthy source_vrf_context_id then
        (case dict_get (global_id_vfr T) source_vrf_context_id of
           Inl e \<Rightarrow> ([], Inl e)
         | Inr vrf_name \<Rightarrow>
             if truthy vrf_name then
               (case dict_get (global_name_vfr T) vrf_name of
                  Inl e \<Rightarrow> ([], Inl e)
                | Inr new_vrf_context_id \<Rightarrow>
                    if truthy new_vrf_context_id then
                      ([], Inr (Some (rec_store ''vrf_context_id'' new_vrf_context_id
                                        route_payload)))
                    else
                      (case rec_sub route_payload ''destination_prefix'' of
                         Inl e \<Rightarrow> ([], Inl e)
                       | Inr pfx \<Rightarrow>
                           ([WARN_vrf_not_global vrf_name source_vrf_context_id pfx],
                            Inr None)))
             else
               (case rec_sub route_payload ''destination_prefix'' of
                  Inl e \<Rightarrow> ([], Inl e)
                | Inr pfx \<Rightarrow> ([WARN_vrf_no_name source_vrf_context_id pfx], Inr None)))
      else ([], Inr (Some route_payload)))"

text \<open>
  One pass of the inner loop \<open>for nexthop in route_payload["nexthops"]\<close>. Both
  \<open>continue\<close> statements of this loop stand inside it: they end the pass for this
  nexthop, which stays as it was, and the loop goes on with the next nexthop.
\<close>

definition nexthop_step :: "tables \<Rightarrow> ends \<Rightarrow> pyrec \<Rightarrow> json \<Rightarrow> event list \<times> (pyerr + json)" where
  "nexthop_step T E route_payload nexthop =
     (case nexthop of
        JObj nh \<Rightarrow>
          (let source_nexthop_interface_id = rec_get nh ''nexthop_interface_id'' in
           if truthy source_nexthop_interface_id then
             (case dict_sub (element_interfaces_by_id T) (src_eid E) of
                Inl e \<Rightarrow> ([], Inl e)
              | Inr src_by_id \<Rightarrow>
             (case dict_get src_by_id source_nexthop_interface_id of
                Inl e \<Rightarrow> ([], Inl e)
              | Inr interface_name \<Rightarrow>
                  if truthy interface_name then
                    (case dict_sub (element_interfaces_by_name T) (dst_eid E) of
                       Inl e \<Rightarrow> ([], Inl e)
                     | Inr dst_by_name \<Rightarrow>
                    (case dict_get dst_by_name interface_name of
                       Inl e \<Rightarrow> ([], Inl e)
                     | Inr new_nexthop_interface_id \<Rightarrow>
                         if truthy new_nexthop_interface_id then
                           ([], Inr (JObj (rec_store ''nexthop_interface_id''
                                             new_nexthop_interface_id nh)))
                         else
                           (case rec_sub route_payload ''destination_prefix'' of
                              Inl e \<Rightarrow> ([], Inl e)
                            | Inr pfx \<Rightarrow>
                                ([WARN_if_no_dst interface_name source_nexthop_interface_id pfx],
                                 Inr nexthop))))
                  else
                    (case rec_sub route_payload ''destination_prefix'' of
                       Inl e \<Rightarrow> ([], Inl e)
                     | Inr pfx \<Rightarrow>
                         ([WARN_if_no_name source_nexthop_interface_id pfx], Inr nexthop))))
           else ([], Inr nexthop))
      | _ \<Rightarrow> ([], Inl AttributeError))"

fun nexthop_loop :: "tables \<Rightarrow> ends \<Rightarrow> pyrec \<Rightarrow> json list \<Rightarrow> event list \<times> (pyerr + json list)" where
  "nexthop_loop T E route_payload [] = ([], Inr [])"
| "nexthop_loop T E route_payload (nexthop # rest) =
     (case nexthop_step T E route_payload nexthop of
        (ev, Inl e) \<Rightarrow> (ev, Inl e)
      | (ev, Inr nexthop') \<Rightarrow>
          (case nexthop_loop T E route_payload rest of
             (ev', Inl e) \<Rightarrow> (ev @ ev', Inl e)
           | (ev', Inr rest') \<Rightarrow> (ev @ ev', Inr (nexthop' # rest'))))"

text \<open>
  \<open>if route_payload.get("nexthops"):\<close> and the loop over it. A truthy value that is
  not a list is a number or \<open>True\<close> (not iterable), or a non-empty string or dict,
  whose first item is a string and has no \<open>get\<close>.
\<close>

definition nexthops_part :: "tables \<Rightarrow> ends \<Rightarrow> pyrec \<Rightarrow> event list \<times> (pyerr + pyrec)" where
  "nexthops_part T E route_payload =
     (let nexthops = rec_get route_payload ''nexthops'' in
      if truthy nexthops then
        (case nexthops of
           JArr nhs \<Rightarrow>
             (case nexthop_loop T E route_payload nhs of
                (ev, Inl e) \<Rightarrow> (ev, Inl e)
              | (ev, Inr nhs') \<Rightarrow> (ev, Inr (rec_store ''nexthops'' (JArr nhs') route_payload)))
         | JStr s \<Rightarrow> ([], Inl AttributeError)
         | JObj kvs \<Rightarrow> ([], Inl AttributeError)
         | _ \<Rightarrow> ([], Inl TypeError))
      else ([], Inr route_payload))"

text \<open>The two write paths. \<open>ok\<close> is the controller's verdict on the call.\<close>

definition update_route :: "ends \<Rightarrow> (call \<Rightarrow> bool) \<Rightarrow> pyrec \<Rightarrow> pyrec \<Rightarrow> event list \<times> pyerr option" where
  "update_route E ok route_payload existing_dst_route =
     (case rec_sub existing_dst_route ''id'' of
        Inl e \<Rightarrow> ([], Some e)
      | Inr route_id_to_update \<Rightarrow>
          (let current_etag = rec_get existing_dst_route ''_etag'' in
           case (if current_etag \<noteq> JNull
                 then Inr ([], rec_store ''_etag'' current_etag route_payload)
                 else bnd (rec_sub route_payload ''name'') (\<lambda>name.
                        Inr ([WARN_route_no_etag name route_id_to_update], route_payload))) of
             Inl e \<Rightarrow> ([], Some e)
           | Inr (warn, p1) \<Rightarrow>
               (let p2 = rec_store ''id'' route_id_to_update p1;
                    c = Put_staticroutes (dst_sid E) (dst_eid E) route_id_to_update p2
                in (warn @ [Write c (ok c)], None))))"

definition create_route :: "ends \<Rightarrow> (call \<Rightarrow> bool) \<Rightarrow> pyrec \<Rightarrow> event list \<times> pyerr option" where
  "create_route E ok route_payload =
     (let p = rec_pop ''_etag'' (rec_pop ''id'' route_payload);
          c = Post_staticroutes (dst_sid E) (dst_eid E) p
      in ([Write c (ok c)], None))"

definition upsert_route ::
  "ends \<Rightarrow> pyrec pydict \<Rightarrow> (call \<Rightarrow> bool) \<Rightarrow> pyrec \<Rightarrow> event list \<times> pyerr option" where
  "upsert_route E dst_routes_by_prefix ok route_payload =
     (case rec_sub route_payload ''destination_prefix'' of
        Inl e \<Rightarrow> ([], Some e)
      | Inr destination_prefix_to_check \<Rightarrow>
          (case dict_find dst_routes_by_prefix destination_prefix_to_check of
             Inl e \<Rightarrow> ([], Some e)
           | Inr None \<Rightarrow> create_route E ok route_payload
           | Inr (Some existing_dst_route) \<Rightarrow>
               if existing_dst_route \<noteq> []
               then update_route E ok route_payload existing_dst_route
               else create_route E ok route_payload))"

text \<open>The body of \<open>for source_route in source_static_routes_list\<close>.\<close>

definition route_body ::
  "tables \<Rightarrow> ends \<Rightarrow> pyrec pydict \<Rightarrow> (call \<Rightarrow> bool) \<Rightarrow> pyrec \<Rightarrow> event list \<times> pyerr option" where
  "route_body T E dst_routes_by_prefix ok source_route =
     (case vrf_part T (sanitize source_route) of
        (ev, Inl e) \<Rightarrow> (ev, Some e)
      | (ev, Inr None) \<Rightarrow> (ev, None)
      | (ev, Inr (Some p1)) \<Rightarrow>
          (case nexthops_part T E p1 of
             (ev2, Inl e) \<Rightarrow> (ev @ ev2, Some e)
           | (ev2, Inr p2) \<Rightarrow>
               (case upsert_route E dst_routes_by_prefix ok p2 of
                  (ev3, r) \<Rightarrow> (ev @ ev2 @ ev3, r))))"

text \<open>
  The loop stops at the first exception; what was printed and written before stays.
  \<open>ctl n\<close> is the controller's verdict on the write issued for the \<open>n\<close>-th source record.
\<close>

fun route_loop ::
  "tables \<Rightarrow> ends \<Rightarrow> pyrec pydict \<Rightarrow> (nat \<Rightarrow> call \<Rightarrow> bool) \<Rightarrow> nat \<Rightarrow> pyrec list
     \<Rightarrow> event list \<times> pyerr option" where
  "route_loop T E idx ctl n [] = ([], None)"
| "route_loop T E idx ctl n (source_route # rest) =
     (case route_body T E idx (ctl n) source_route of
        (ev, Some e) \<Rightarrow> (ev, Some e)
      | (ev, None) \<Rightarrow>
          (case route_loop T E idx ctl (Suc n) rest of (ev', r) \<Rightarrow> (ev @ ev', r)))"

fun index_routes :: "pyrec pydict \<Rightarrow> pyrec list \<Rightarrow> pyerr + pyrec pydict" where
  \<comment> \<open>\<open>{route["destination_prefix"]: route for route in destination_static_routes_list}\<close>\<close>
  "index_routes d [] = Inr d"
| "index_routes d (route # rest) =
     bnd (rec_sub route ''destination_prefix'') (\<lambda>k.
     bnd (dict_store d k route) (\<lambda>d'. index_routes d' rest))"

definition copy_static_routes ::
  "tables \<Rightarrow> ends \<Rightarrow> resp \<Rightarrow> resp \<Rightarrow> (nat \<Rightarrow> call \<Rightarrow> bool) \<Rightarrow> event list \<times> pyerr option" where
  "copy_static_routes T E src_static_routes_resp dst_static_routes_resp ctl =
     (case src_static_routes_resp of
        Failed \<Rightarrow> ([ERR_src_routes], Some (SystemExit 1))
      | Listing source_static_routes_list \<Rightarrow>
          (case dst_static_routes_resp of
             Failed \<Rightarrow> ([ERR_dst_routes], Some (SystemExit 1))
           | Listing destination_static_routes_list \<Rightarrow>
               (case index_routes [] destination_static_routes_list of
                  Inl e \<Rightarrow> ([], Some e)
                | Inr dst_routes_by_prefix \<Rightarrow>
                    route_loop T E dst_routes_by_prefix ctl 0 source_static_routes_list)))"

section \<open>Copying VLAN interfaces and subinterfaces\<close>

definition copied_type :: "json \<Rightarrow> bool" where
  "copied_type t = (t = JStr ''vlan'' \<or> t = JStr ''subinterface'')"

fun index_interfaces :: "pyrec pydict \<Rightarrow> pyrec list \<Rightarrow> pyerr + pyrec pydict" where
  \<comment> \<open>the comprehension with \<open>if intf["type"] in ["vlan", "subinterface"]\<close>\<close>
  "index_interfaces d [] = Inr d"
| "index_interfaces d (intf # rest) =
     bnd (rec_sub intf ''type'') (\<lambda>t.
       if copied_type t then
         bnd (rec_sub intf ''name'') (\<lambda>k.
         bnd (dict_store d k intf) (\<lambda>d'. index_interfaces d' rest))
       else index_interfaces d rest)"

definition update_interface :: "ends \<Rightarrow> (call \<Rightarrow> bool) \<Rightarrow> pyrec \<Rightarrow> pyrec \<Rightarrow> event list \<times> pyerr option" where
  "update_interface E ok intf_payload existing_dst_intf =
     (case rec_sub existing_dst_intf ''id'' of
        Inl e \<Rightarrow> ([], Some e)
      | Inr intf_id_to_update \<Rightarrow>
          (let current_etag = rec_get existing_dst_intf ''_etag'' in
           case (if current_etag \<noteq> JNull
                 then Inr ([], rec_store ''_etag'' current_etag intf_payload)
                 else bnd (rec_sub intf_payload ''name'') (\<lambda>name.
                        Inr ([WARN_intf_no_etag name], intf_payload))) of
             Inl e \<Rightarrow> ([], Some e)
           | Inr (warn, p1) \<Rightarrow>
               (let p2 = rec_store ''id'' intf_id_to_update p1;
                    c = Put_interfaces (dst_sid E) (dst_eid E) intf_id_to_update p2
                in (warn @ [Write c (ok c)], None))))"

definition create_interface :: "ends \<Rightarrow> (call \<Rightarrow> bool) \<Rightarrow> pyrec \<Rightarrow> event list \<times> pyerr option" where
  "create_interface E ok intf_payload =
     (let p = rec_pop ''_etag'' (rec_pop ''id'' intf_payload);
          c = Post_interfaces (dst_sid E) (dst_eid E) p
      in ([Write c (ok c)], None))"

text \<open>The body of \<open>for intf in interface_list\<close>.\<close>

definition intf_body ::
  "ends \<Rightarrow> pyrec pydict \<Rightarrow> (call \<Rightarrow> bool) \<Rightarrow> pyrec \<Rightarrow> event list \<times> pyerr option" where
  "intf_body E dst_interfaces_by_name ok intf =
     (case rec_sub intf ''type'' of
        Inl e \<Rightarrow> ([], Some e)
      | Inr t \<Rightarrow>
          if copied_type t then
            (let intf_payload = sanitize intf in
             case rec_sub intf_payload ''name'' of
               Inl e \<Rightarrow> ([], Some e)
             | Inr name \<Rightarrow>
                 (case dict_find dst_interfaces_by_name name of
                    Inl e \<Rightarrow> ([], Some e)
                  | Inr None \<Rightarrow> create_interface E ok intf_payload
                  | Inr (Some existing_dst_intf) \<Rightarrow>
                      if existing_dst_intf \<noteq> []
                      then update_interface E ok intf_payload existing_dst_intf
                      else create_interface E ok intf_payload))
          else ([], None))"

fun interface_loop ::
  "ends \<Rightarrow> pyrec pydict \<Rightarrow> (nat \<Rightarrow> call \<Rightarrow> bool) \<Rightarrow> nat \<Rightarrow> pyrec list
     \<Rightarrow> event list \<times> pyerr option" where
  "interface_loop E idx ctl n [] = ([], None)"
| "interface_loop E idx ctl n (intf # rest) =
     (case intf_body E idx (ctl n) intf of
        (ev, Some e) \<Rightarrow> (ev, Some e)
      | (ev, None) \<Rightarrow>
          (case interface_loop E idx ctl (Suc n) rest of (ev', r) \<Rightarrow> (ev @ ev', r)))"

definition copy_interfaces ::
  "ends \<Rightarrow> resp \<Rightarrow> resp \<Rightarrow> (nat \<Rightarrow> call \<Rightarrow> bool) \<Rightarrow> event list \<times> pyerr option" where
  "copy_interfaces E interfaces dst_interfaces_resp ctl =
     (case interfaces of
        Failed \<Rightarrow> ([ERR_src_interfaces], Some (SystemExit 1))
      | Listing interface_list \<Rightarrow>
          (case dst_interfaces_resp of
             Failed \<Rightarrow> ([ERR_dst_interfaces], Some (SystemExit 1))
           | Listing destination_interface_list \<Rightarrow>
               (case index_interfaces [] destination_interface_list of
                  Inl e \<Rightarrow> ([], Some e)
                | Inr dst_interfaces_by_name \<Rightarrow>
                    interface_loop E dst_interfaces_by_name ctl 0 interface_list)))"

section \<open>The whole of \<open>go\<close>\<close>

text \<open>
  After the arguments are parsed and the login has succeeded: the check of the two names,
  the dictionaries, the validation, then the two passes. \<open>staticroutes\<close> and
  \<open>interfaces\<close> are the controller's answers to the listings of a site and element at
  the time of the passes; \<open>route_ctl\<close> and \<open>intf_ctl\<close> its verdicts on the writes.
\<close>

definition go ::
  "string \<Rightarrow> string option \<Rightarrow> session \<Rightarrow> (json \<Rightarrow> json \<Rightarrow> resp) \<Rightarrow> (json \<Rightarrow> json \<Rightarrow> resp)
     \<Rightarrow> (nat \<Rightarrow> call \<Rightarrow> bool) \<Rightarrow> (nat \<Rightarrow> call \<Rightarrow> bool) \<Rightarrow> event list \<times> pyerr option" where
  "go src_element dst_element sase_session staticroutes interfaces route_ctl intf_ctl =
     (if dst_element = Some src_element then ([ERR_same_elements], Some (SystemExit 1))
      else
        (case create_dicts sase_session of
           (ev1, Inl e) \<Rightarrow> (ev1, Some e)
         | (ev1, Inr T) \<Rightarrow>
             (case resolve_elements T src_element dst_element of
                (ev2, Inl e) \<Rightarrow> (ev1 @ ev2, Some e)
              | (ev2, Inr E) \<Rightarrow>
                  (case copy_static_routes T E
                          (staticroutes (src_sid E) (src_eid E))
                          (staticroutes (dst_sid E) (dst_eid E)) route_ctl of
                     (ev3, Some e) \<Rightarrow> (ev1 @ ev2 @ ev3, Some e)
                   | (ev3, None) \<Rightarrow>
                       (case copy_interfaces E
                               (interfaces (src_sid E) (src_eid E))
                               (interfaces (dst_sid E) (dst_eid E)) intf_ctl of
                          (ev4, r) \<Rightarrow> (ev1 @ ev2 @ ev3 @ ev4, r))))))"

section \<open>What a trace contains\<close>

fun writes :: "event list \<Rightarrow> call list" where
  "writes [] = []"
| "writes (Write c b # ev) = c # writes ev"
| "writes (e # ev) = writes ev"

fun call_data :: "call \<Rightarrow> pyrec" where
  "call_data (Put_staticroutes s e i p) = p"
| "call_data (Post_staticroutes s e p) = p"
| "call_data (Put_interfaces s e i p) = p"
| "call_data (Post_interfaces s e p) = p"

section \<open>A small controller state used in the examples\<close>

text \<open>
  Two elements at two sites, one VRF, and the interface listings of both elements:
  \<open>vlan10\<close> exists on both, \<open>vlan30\<close> only on the source.
\<close>

definition ex_session :: session where
  "ex_session = \<lparr>
     get_elements = Listing
       [[(''id'', JStr ''eA''), (''name'', JStr ''ION-A''), (''site_id'', JStr ''sA''),
         (''model_name'', JStr ''ion 3000'')],
        [(''id'', JStr ''eB''), (''name'', JStr ''ION-B''), (''site_id'', JStr ''sB''),
         (''model_name'', JStr ''ion 3000'')]],
     get_vrfcontexts = Listing [[(''id'', JStr ''v1''), (''name'', JStr ''CORP'')]],
     get_interfaces = (\<lambda>e s.
        if e = JStr ''eA''
        then Listing [[(''id'', JStr ''i1''), (''name'', JStr ''vlan10''), (''type'', JStr ''vlan'')],
                      [(''id'', JStr ''i3''), (''name'', JStr ''vlan30''), (''type'', JStr ''vlan'')]]
        else Listing [[(''id'', JStr ''i2''), (''name'', JStr ''vlan10''),
                       (''type'', JStr ''vlan'')]]) \<rparr>"

definition ex_tables :: tables where
  "ex_tables = \<lparr>
     elem_id_name = [(JStr ''eA'', JStr ''ION-A''), (JStr ''eB'', JStr ''ION-B'')],
     elem_name_id = [(JStr ''ION-A'', JStr ''eA''), (JStr ''ION-B'', JStr ''eB'')],
     elemid_siteid = [(JStr ''eA'', JStr ''sA''), (JStr ''eB'', JStr ''sB'')],
     elem_id_model = [(JStr ''eA'', JStr ''ion 3000''), (JStr ''eB'', JStr ''ion 3000'')],
     element_vrfs_by_id = [(JStr ''eA'', []), (JStr ''eB'', [])],
     element_vrfs_by_name = [(JStr ''eA'', []), (JStr ''eB'', [])],
     element_interfaces_by_id =
       [(JStr ''eA'', [(JStr ''i1'', JStr ''vlan10''), (JStr ''i3'', JStr ''vlan30'')]),
        (JStr ''eB'', [(JStr ''i2'', JStr ''vlan10'')])],
     element_interfaces_by_name =
       [(JStr ''eA'', [(JStr ''vlan10'', JStr ''i1''), (JStr ''vlan30'', JStr ''i3'')]),
        (JStr ''eB'', [(JStr ''vlan10'', JStr ''i2'')])],
     global_id_vfr = [(JStr ''v1'', JStr ''CORP'')],
     global_name_vfr = [(JStr ''CORP'', JStr ''v1'')] \<rparr>"

definition ex_ends :: ends where
  "ex_ends = \<lparr> src_eid = JStr ''eA'', src_sid = JStr ''sA'',
               dst_eid = JStr ''eB'', dst_sid = JStr ''sB'' \<rparr>"

definition accept :: "nat \<Rightarrow> call \<Rightarrow> bool" where
  \<comment> \<open>a controller that accepts every write\<close>
  "accept n c = True"

definition nh_if :: "string \<Rightarrow> json" where
  \<comment> \<open>a nexthop that refers to an interface\<close>
  "nh_if i = JObj [(''nexthop_interface_id'', JStr i)]"

section \<open>Predicates used in the statements and proofs\<close>

text \<open>A listed record that has an \<open>id\<close> and a \<open>name\<close>, both usable as dictionary keys.\<close>

definition listed_ok :: "pyrec \<Rightarrow> bool" where
  "listed_ok r =
     (case (map_of r ''id'', map_of r ''name'') of
        (Some i, Some n) \<Rightarrow> hash_of i \<noteq> None \<and> hash_of n \<noteq> None
      | _ \<Rightarrow> False)"

text \<open>The controller that answers every failed interface listing with an empty one.\<close>

definition quiet :: "(json \<Rightarrow> json \<Rightarrow> resp) \<Rightarrow> json \<Rightarrow> json \<Rightarrow> resp" where
  "quiet f e s = (case f e s of Failed \<Rightarrow> Listing [] | Listing items \<Rightarrow> Listing items)"

text \<open>What holds of the element dictionaries after any number of listed elements.\<close>

definition elems_inv :: "tables \<Rightarrow> bool" where
  "elems_inv T \<longleftrightarrow>
     distinct (map (\<lambda>kv. hash_of (fst kv)) (elem_id_name T))
     \<and> (\<forall>kv \<in> set (elem_id_name T).
           hash_of (fst kv) \<noteq> None
           \<and> dict_contains (element_interfaces_by_id T) (fst kv)
           \<and> dict_contains (element_interfaces_by_name T) (fst kv))
     \<and> (\<forall>kv \<in> set (elem_name_id T).
           hash_of (snd kv) \<noteq> None
           \<and> dict_contains (elemid_siteid T) (snd kv)
           \<and> dict_contains (element_interfaces_by_id T) (snd kv)
           \<and> dict_contains (element_interfaces_by_name T) (snd kv))"

section \<open>Well-formed input of the reconciliation loops\<close>

text \<open>
  The events that end the handling of a source record: a write call, or one of the two
  VRF warnings, after which the loop goes to the next route.
\<close>

fun closing :: "event \<Rightarrow> bool" where
  "closing (Write c b) = True"
| "closing (WARN_vrf_not_global n i p) = True"
| "closing (WARN_vrf_no_name i p) = True"
| "closing e = False"

text \<open>
  Records that carry the fields the loops subscript, with keys usable in a dictionary; a
  truthy \<open>nexthops\<close> is a list of objects.
\<close>

definition has_key :: "pyrec \<Rightarrow> string \<Rightarrow> bool" where
  "has_key r f = (case map_of r f of None \<Rightarrow> False | Some k \<Rightarrow> hash_of k \<noteq> None)"

definition nexthop_ok :: "json \<Rightarrow> bool" where
  "nexthop_ok x =
     (case x of JObj nh \<Rightarrow> hash_of (rec_get nh ''nexthop_interface_id'') \<noteq> None | _ \<Rightarrow> False)"

definition nexthops_ok :: "json \<Rightarrow> bool" where
  "nexthops_ok v = (case v of JArr nhs \<Rightarrow> list_all nexthop_ok nhs | _ \<Rightarrow> \<not> truthy v)"

definition src_route_ok :: "pyrec \<Rightarrow> bool" where
  "src_route_ok r \<longleftrightarrow>
     has_key r ''destination_prefix'' \<and> hash_of (rec_get r ''vrf_context_id'') \<noteq> None
     \<and> nexthops_ok (rec_get r ''nexthops'')"

definition dst_route_ok :: "pyrec \<Rightarrow> bool" where
  "dst_route_ok d \<longleftrightarrow> has_key d ''destination_prefix'' \<and> map_of d ''id'' \<noteq> None"

definition src_intf_ok :: "pyrec \<Rightarrow> bool" where
  "src_intf_ok i =
     (case map_of i ''type'' of
        None \<Rightarrow> False
      | Some t \<Rightarrow> if copied_type t then has_key i ''name'' else True)"

definition dst_intf_ok :: "pyrec \<Rightarrow> bool" where
  "dst_intf_ok d =
     (case map_of d ''type'' of
        None \<Rightarrow> False
      | Some t \<Rightarrow> if copied_type t then has_key d ''name'' \<and> map_of d ''id'' \<noteq> None else True)"

definition values_hashable :: "json pydict \<Rightarrow> bool" where
  "values_hashable d = list_all (\<lambda>kv. hash_of (snd kv) \<noteq> None) d"

text \<open>
  The dictionaries as the route loop needs them: both ends have their interface
  dictionary, and the names stored as values can be looked up in turn.
\<close>

definition tables_ok :: "tables \<Rightarrow> ends \<Rightarrow> bool" where
  "tables_ok T E \<longleftrightarrow>
     values_hashable (global_id_vfr T)
     \<and> (case dict_sub (element_interfaces_by_id T) (src_eid E) of
           Inl e \<Rightarrow> False | Inr m \<Rightarrow> values_hashable m)
     \<and> (case dict_sub (element_interfaces_by_name T) (dst_eid E) of
           Inl e \<Rightarrow> False | Inr m \<Rightarrow> True)"

text \<open>Every id of the id-to-name table leads back to itself through the name.\<close>

definition vrf_roundtrip :: "json pydict \<Rightarrow> json pydict \<Rightarrow> bool" where
  "vrf_roundtrip gid gname \<longleftrightarrow>
     (\<forall>s n. pyget s gid = Some n \<longrightarrow>
        hash_of s \<noteq> None \<and> hash_of n \<noteq> None
        \<and> (\<exists>v. pyget n gname = Some v \<and> hash_of v = hash_of s))"

text \<open>
  A second controller state: the interface listing of \<open>ION-A\<close> fails and \<open>ION-C\<close> has no
  site.
\<close>

definition ex_session_partial :: session where
  "ex_session_partial = \<lparr>
     get_elements = Listing
       [[(''id'', JStr ''eA''), (''name'', JStr ''ION-A''), (''site_id'', JStr ''sA''),
         (''model_name'', JStr ''ion 3000'')],
        [(''id'', JStr ''eB''), (''name'', JStr ''ION-B''), (''site_id'', JStr ''sB''),
         (''model_name'', JStr ''ion 3000'')],
        [(''id'', JStr ''eC''), (''name'', JStr ''ION-C''), (''site_id'', JNull),
         (''model_name'', JStr ''ion 1000'')]],
     get_vrfcontexts = Listing [[(''id'', JStr ''v1''), (''name'', JStr ''CORP'')]],
     get_interfaces = (\<lambda>e s.
        if e = JStr ''eA'' then Failed
        else Listing [[(''id'', JStr ''i2''), (''name'', JStr ''vlan10''),
                       (''type'', JStr ''vlan'')]]) \<rparr>"

definition ex_tables_partial :: tables where
  "ex_tables_partial = \<lparr>
     elem_id_name = [(JStr ''eA'', JStr ''ION-A''), (JStr ''eB'', JStr ''ION-B''),
                     (JStr ''eC'', JStr ''ION-C'')],
     elem_name_id = [(JStr ''ION-A'', JStr ''eA''), (JStr ''ION-B'', JStr ''eB''),
                     (JStr ''ION-C'', JStr ''eC'')],
     elemid_siteid = [(JStr ''eA'', JStr ''sA''), (JStr ''eB'', JStr ''sB''),
                      (JStr ''eC'', JNull)],
     elem_id_model = [(JStr ''eA'', JStr ''ion 3000''), (JStr ''eB'', JStr ''ion 3000''),
                      (JStr ''eC'', JStr ''ion 1000'')],
     element_vrfs_by_id = [(JStr ''eA'', []), (JStr ''eB'', []), (JStr ''eC'', [])],
     element_vrfs_by_name = [(JStr ''eA'', []), (JStr ''eB'', []), (JStr ''eC'', [])],
     element_interfaces_by_id =
       [(JStr ''eA'', []), (JStr ''eB'', [(JStr ''i2'', JStr ''vlan10'')]), (JStr ''eC'', [])],
     element_interfaces_by_name =
       [(JStr ''eA'', []), (JStr ''eB'', [(JStr ''vlan10'', JStr ''i2'')]), (JStr ''eC'', [])],
     global_id_vfr = [(JStr ''v1'', JStr ''CORP'')],
     global_name_vfr = [(JStr ''CORP'', JStr ''v1'')] \<rparr>"

section \<open>Unfolding rules and the example state\<close>

lemmas py_defs = bnd_def dict_find_def dict_get_def dict_sub_def dict_store_def
  dict_contains_def rec_get_def rec_sub_def rec_pop_def rec_store_def AList.delete_eq
  emit_def Let_def

lemmas route_defs = copy_static_routes_def route_body_def vrf_part_def nexthops_part_def
  nexthop_step_def upsert_route_def create_route_def update_route_def sanitize_def
  BASE_DELETE_ATTRS_def

lemmas intf_defs = copy_interfaces_def intf_body_def create_interface_def
  update_interface_def copied_type_def sanitize_def BASE_DELETE_ATTRS_def

lemmas ex_defs = ex_session_def ex_tables_def ex_ends_def accept_def nh_if_def

lemma ex_tables_built: "create_dicts ex_session = ([], Inr ex_tables)"
  by (simp add: create_dicts_def ex_defs empty_tables_def elem_step_def vrf_step_def
      intf_step_def py_defs)

lemma ex_ends_resolved:
  "resolve_elements ex_tables ''ION-A'' (Some ''ION-B'') = ([], Inr ex_ends)"
  by (simp add: resolve_elements_def ex_defs arg_value_def py_defs)

text \<open>The order of the phases of \<open>go\<close> on the example state.\<close>

lemma go_same_element:
  "go ''ION-A'' (Some ''ION-A'') sess staticroutes interfaces route_ctl intf_ctl
     = ([ERR_same_elements], Some (SystemExit 1))"
  by (simp add: go_def)

lemma go_unknown_destination:
  "go ''ION-A'' None ex_session staticroutes interfaces route_ctl intf_ctl
     = ([ERR_dst_not_found], Some (SystemExit 1))"
  by (simp add: go_def ex_tables_built resolve_elements_def arg_value_def dict_contains_def
      ex_tables_def)

lemma go_source_routes_unreadable:
  "go ''ION-A'' (Some ''ION-B'') ex_session (\<lambda>s e. Failed) interfaces route_ctl intf_ctl
     = ([ERR_src_routes], Some (SystemExit 1))"
  by (simp add: go_def ex_tables_built ex_ends_resolved copy_static_routes_def)

lemma go_nothing_to_copy:
  "go ''ION-A'' (Some ''ION-B'') ex_session (\<lambda>s e. Listing []) (\<lambda>s e. Listing [])
      route_ctl intf_ctl
     = ([], None)"
  by (simp add: go_def ex_tables_built ex_ends_resolved copy_static_routes_def
      copy_interfaces_def)

section \<open>Records and dictionaries\<close>

lemma map_of_rec_pop: "map_of (rec_pop k r) k' = (if k' = k then None else map_of r k')"
  by (simp add: rec_pop_def AList.delete_conv)

lemma map_of_rec_store:
  "map_of (rec_store k v r) k' = (if k' = k then Some v else map_of r k')"
  by (simp add: rec_store_def AList.update_conv)

lemma rec_pop_filter: "rec_pop k r = filter (\<lambda>kv. fst kv \<noteq> k) r"
  by (induction r) (auto simp: rec_pop_def)

lemma sanitize_filter: "sanitize r = filter (\<lambda>kv. fst kv \<notin> set BASE_DELETE_ATTRS) r"
  unfolding sanitize_def BASE_DELETE_ATTRS_def
  by (simp add: rec_pop_filter)

lemma map_of_sanitize:
  "map_of (sanitize r) k = (if k \<in> set BASE_DELETE_ATTRS then None else map_of r k)"
  unfolding sanitize_filter by (induction r) auto

section \<open>Nexthops whose interface cannot be resolved\<close>

text \<open>
  C1. A source route with one resolvable nexthop (\<open>i1\<close>, \<open>vlan10\<close> on both elements)
  and one nexthop whose interface id is unknown on the source (\<open>i9\<close>) is not dropped:
  after the warning the route is created on the destination, with the first nexthop
  rewritten and the second still carrying \<open>i9\<close>, where the specification asks for no
  write call. With two unresolvable nexthops the route is written after two warnings.
\<close>

theorem unresolved_nexthop_route_is_written:
  "copy_static_routes ex_tables ex_ends
     (Listing [[(''id'', JStr ''r1''), (''_etag'', JNum 4),
                (''destination_prefix'', JStr ''10.0.0.0/8''),
                (''nexthops'', JArr [nh_if ''i1'', nh_if ''i9''])]])
     (Listing []) accept
   = ([WARN_if_no_name (JStr ''i9'') (JStr ''10.0.0.0/8''),
       Write (Post_staticroutes (JStr ''sB'') (JStr ''eB'')
                [(''destination_prefix'', JStr ''10.0.0.0/8''),
                 (''nexthops'', JArr [nh_if ''i2'', nh_if ''i9''])]) True],
      None)
   \<and> copy_static_routes ex_tables ex_ends
     (Listing [[(''id'', JStr ''r1''), (''_etag'', JNum 4),
                (''destination_prefix'', JStr ''10.0.0.0/8''),
                (''nexthops'', JArr [nh_if ''i3'', nh_if ''i9''])]])
     (Listing []) accept
   = ([WARN_if_no_dst (JStr ''vlan30'') (JStr ''i3'') (JStr ''10.0.0.0/8''),
       WARN_if_no_name (JStr ''i9'') (JStr ''10.0.0.0/8''),
       Write (Post_staticroutes (JStr ''sB'') (JStr ''eB'')
                [(''destination_prefix'', JStr ''10.0.0.0/8''),
                 (''nexthops'', JArr [nh_if ''i3'', nh_if ''i9''])]) True],
      None)"
  by (simp add: route_defs ex_defs py_defs)

text \<open>
  C2. A source route whose nexthop refers to \<open>i3\<close>, the source element's id of
  \<open>vlan30\<close>, an interface the destination element does not have: the payload created on
  the destination still holds \<open>i3\<close>, an identifier of the source element's interface
  dictionary that is no identifier of the destination's.
\<close>

theorem source_interface_id_sent_to_destination:
  "copy_static_routes ex_tables ex_ends
     (Listing [[(''id'', JStr ''r2''), (''_etag'', JNum 2),
                (''destination_prefix'', JStr ''192.168.1.0/24''),
                (''vrf_context_id'', JStr ''v1''),
                (''nexthops'', JArr [nh_if ''i3''])]])
     (Listing []) accept
   = ([WARN_if_no_dst (JStr ''vlan30'') (JStr ''i3'') (JStr ''192.168.1.0/24''),
       Write (Post_staticroutes (JStr ''sB'') (JStr ''eB'')
                [(''destination_prefix'', JStr ''192.168.1.0/24''),
                 (''vrf_context_id'', JStr ''v1''),
                 (''nexthops'', JArr [nh_if ''i3''])]) True],
      None)
   \<and> dict_sub (element_interfaces_by_id ex_tables) (src_eid ex_ends)
       = Inr [(JStr ''i1'', JStr ''vlan10''), (JStr ''i3'', JStr ''vlan30'')]
   \<and> dict_sub (element_interfaces_by_name ex_tables) (dst_eid ex_ends)
       = Inr [(JStr ''vlan10'', JStr ''i2'')]"
  by (simp add: route_defs ex_defs py_defs)

section \<open>The concurrency token on the update path\<close>

text \<open>
  C4. The destination route matched by prefix has no \<open>_etag\<close>. The update is sent with
  the \<open>_etag\<close> of the source route (4), which sanitization kept, and not without a
  token. When the source route has no \<open>name\<close> field, building the warning raises
  \<open>KeyError\<close> and no update is sent. The interface update keeps the source's token in
  the same way.
\<close>

theorem update_without_destination_etag:
  "copy_static_routes ex_tables ex_ends
     (Listing [[(''id'', JStr ''r1''), (''_etag'', JNum 4), (''name'', JStr ''corp-default''),
                (''destination_prefix'', JStr ''10.0.0.0/8''),
                (''nexthops'', JArr [JObj [(''nexthop_ip'', JStr ''10.1.1.1'')]])]])
     (Listing [[(''id'', JStr ''d7''), (''destination_prefix'', JStr ''10.0.0.0/8'')]]) accept
   = ([WARN_route_no_etag (JStr ''corp-default'') (JStr ''d7''),
       Write (Put_staticroutes (JStr ''sB'') (JStr ''eB'') (JStr ''d7'')
                [(''id'', JStr ''d7''), (''_etag'', JNum 4), (''name'', JStr ''corp-default''),
                 (''destination_prefix'', JStr ''10.0.0.0/8''),
                 (''nexthops'', JArr [JObj [(''nexthop_ip'', JStr ''10.1.1.1'')]])]) True],
      None)
   \<and> copy_static_routes ex_tables ex_ends
     (Listing [[(''id'', JStr ''r1''), (''_etag'', JNum 4),
                (''destination_prefix'', JStr ''10.0.0.0/8'')]])
     (Listing [[(''id'', JStr ''d7''), (''destination_prefix'', JStr ''10.0.0.0/8'')]]) accept
   = ([], Some (KeyError (JStr ''name'')))
   \<and> copy_interfaces ex_ends
     (Listing [[(''id'', JStr ''i1''), (''_etag'', JNum 9), (''name'', JStr ''vlan10''),
                (''type'', JStr ''vlan'')]])
     (Listing [[(''id'', JStr ''i2''), (''name'', JStr ''vlan10''), (''type'', JStr ''vlan'')]])
     accept
   = ([WARN_intf_no_etag (JStr ''vlan10''),
       Write (Put_interfaces (JStr ''sB'') (JStr ''eB'') (JStr ''i2'')
                [(''id'', JStr ''i2''), (''_etag'', JNum 9), (''name'', JStr ''vlan10''),
                 (''type'', JStr ''vlan'')]) True],
      None)"
  by (simp add: route_defs intf_defs ex_defs py_defs)

section \<open>Dictionary and index lemmas\<close>

lemma pyget_pyset:
  "pyget k (pyset k' v d) = (if hash_of k' = hash_of k then Some v else pyget k d)"
  by (induction d) auto

lemma find_snoc:
  "List.find P (xs @ [x]) =
     (case List.find P xs of None \<Rightarrow> (if P x then Some x else None) | Some y \<Rightarrow> Some y)"
  by (induction xs) auto

lemma writes_append: "writes (a @ b) = writes a @ writes b"
  by (induction a rule: writes.induct) auto

lemma rec_sub_Inr: "rec_sub r k = Inr v \<longleftrightarrow> map_of r k = Some v"
  by (simp add: rec_sub_def split: option.splits)

lemma rec_sub_get: "rec_sub r k = Inr v \<Longrightarrow> rec_get r k = v"
  by (simp add: rec_sub_def rec_get_def split: option.splits)

lemma index_routes_find:
  "index_routes d0 dst = Inr idx \<Longrightarrow>
   pyget k idx =
     (case List.find (\<lambda>r. hash_of (rec_get r ''destination_prefix'') = hash_of k) (rev dst) of
        None \<Rightarrow> pyget k d0 | Some r \<Rightarrow> Some r)"
proof (induction dst arbitrary: d0)
  case Nil
  then show ?case by simp
next
  case (Cons r rs)
  from Cons.prems obtain kr where kr: "rec_sub r ''destination_prefix'' = Inr kr"
    and rest: "index_routes (pyset kr r d0) rs = Inr idx"
    by (auto simp: bnd_def dict_store_def split: sum.splits option.splits)
  have "rec_get r ''destination_prefix'' = kr" using kr by (rule rec_sub_get)
  with Cons.IH [OF rest] show ?case
    by (simp add: find_snoc pyget_pyset split: option.splits)
qed

lemma index_interfaces_find:
  "index_interfaces d0 dst = Inr idx \<Longrightarrow>
   pyget k idx =
     (case List.find (\<lambda>r. copied_type (rec_get r ''type'')
                          \<and> hash_of (rec_get r ''name'') = hash_of k) (rev dst) of
        None \<Rightarrow> pyget k d0 | Some r \<Rightarrow> Some r)"
proof (induction dst arbitrary: d0)
  case Nil
  then show ?case by simp
next
  case (Cons r rs)
  from Cons.prems obtain t where t: "rec_sub r ''type'' = Inr t"
    by (auto simp: bnd_def split: sum.splits)
  then have gt: "rec_get r ''type'' = t" by (rule rec_sub_get)
  show ?case
  proof (cases "copied_type t")
    case True
    with Cons.prems t obtain kr where kr: "rec_sub r ''name'' = Inr kr"
      and rest: "index_interfaces (pyset kr r d0) rs = Inr idx"
      by (auto simp: bnd_def dict_store_def split: sum.splits option.splits)
    have "rec_get r ''name'' = kr" using kr by (rule rec_sub_get)
    with Cons.IH [OF rest] gt True show ?thesis
      by (simp add: find_snoc pyget_pyset split: option.splits)
  next
    case False
    with Cons.prems t have rest: "index_interfaces d0 rs = Inr idx"
      by (auto simp: bnd_def)
    with Cons.IH [OF rest] gt False show ?thesis
      by (simp add: find_snoc split: option.splits)
  qed
qed

lemma pyset_entries: "(k', r) \<in> set (pyset k v d) \<Longrightarrow> r = v \<or> (k', r) \<in> set d"
  by (induction d) (auto split: if_splits)

lemma pyset_values: "snd ` set (pyset k v d) \<subseteq> insert v (snd ` set d)"
  using pyset_entries by fastforce

lemma index_interfaces_values:
  "index_interfaces d0 dst = Inr idx \<Longrightarrow> r \<in> snd ` set idx \<Longrightarrow>
   r \<in> snd ` set d0 \<or> (r \<in> set dst \<and> copied_type (rec_get r ''type''))"
proof (induction dst arbitrary: d0)
  case Nil
  then show ?case by simp
next
  case (Cons x xs)
  from Cons.prems(1) obtain t where t: "rec_sub x ''type'' = Inr t"
    by (auto simp: bnd_def split: sum.splits)
  then have gt: "rec_get x ''type'' = t" by (rule rec_sub_get)
  show ?case
  proof (cases "copied_type t")
    case True
    with Cons.prems(1) t obtain kx where rest: "index_interfaces (pyset kx x d0) xs = Inr idx"
      by (auto simp: bnd_def dict_store_def split: sum.splits option.splits)
    from Cons.IH [OF rest Cons.prems(2)] pyset_values [of kx x d0] gt True
    show ?thesis by auto
  next
    case False
    with Cons.prems(1) t have rest: "index_interfaces d0 xs = Inr idx"
      by (auto simp: bnd_def)
    from Cons.IH [OF rest Cons.prems(2)] show ?thesis by auto
  qed
qed

lemma rec_get_rec_store:
  "rec_get (rec_store k v r) k' = (if k' = k then v else rec_get r k')"
  by (simp add: rec_get_def map_of_rec_store)

lemma rec_get_rec_pop:
  "rec_get (rec_pop k r) k' = (if k' = k then JNull else rec_get r k')"
  by (simp add: rec_get_def map_of_rec_pop)

lemma rec_get_sanitize:
  "rec_get (sanitize r) k = (if k \<in> set BASE_DELETE_ATTRS then JNull else rec_get r k)"
  by (simp add: rec_get_def map_of_sanitize)

lemma update_interface_writes:
  "c \<in> set (writes (fst (update_interface E ok p d))) \<Longrightarrow>
   k \<noteq> ''id'' \<Longrightarrow> k \<noteq> ''_etag'' \<Longrightarrow> rec_get (call_data c) k = rec_get p k"
  by (auto simp: update_interface_def Let_def bnd_def writes_append rec_get_rec_store
      split: sum.splits if_splits prod.splits)

lemma create_interface_writes:
  "c \<in> set (writes (fst (create_interface E ok p))) \<Longrightarrow>
   k \<noteq> ''id'' \<Longrightarrow> k \<noteq> ''_etag'' \<Longrightarrow> rec_get (call_data c) k = rec_get p k"
  by (auto simp: create_interface_def Let_def rec_get_rec_pop)

lemma intf_body_writes:
  assumes "c \<in> set (writes (fst (intf_body E idx ok intf)))"
  shows "copied_type (rec_get intf ''type'')
         \<and> rec_get (call_data c) ''type'' = rec_get intf ''type''
         \<and> rec_get (call_data c) ''name'' = rec_get intf ''name''"
proof -
  from assms obtain t where t: "rec_sub intf ''type'' = Inr t"
    by (auto simp: intf_body_def split: sum.splits)
  then have gt: "rec_get intf ''type'' = t" by (rule rec_sub_get)
  from assms t have ct: "copied_type t"
    by (auto simp: intf_body_def split: if_splits)
  have keep: "rec_get (sanitize intf) ''type'' = rec_get intf ''type''"
    "rec_get (sanitize intf) ''name'' = rec_get intf ''name''"
    by (simp_all add: rec_get_sanitize BASE_DELETE_ATTRS_def)
  from assms t ct
  have "c \<in> set (writes (fst (create_interface E ok (sanitize intf))))
        \<or> (\<exists>d. c \<in> set (writes (fst (update_interface E ok (sanitize intf) d))))"
    by (auto simp: intf_body_def Let_def split: sum.splits option.splits if_splits)
  then have "rec_get (call_data c) ''type'' = rec_get (sanitize intf) ''type''
             \<and> rec_get (call_data c) ''name'' = rec_get (sanitize intf) ''name''"
    using update_interface_writes create_interface_writes by fastforce
  with keep gt ct show ?thesis by simp
qed

lemma interface_loop_writes:
  "c \<in> set (writes (fst (interface_loop E idx ctl n xs))) \<Longrightarrow>
   \<exists>intf \<in> set xs. \<exists>m. c \<in> set (writes (fst (intf_body E idx (ctl m) intf)))"
proof (induction xs arbitrary: n)
  case Nil
  then show ?case by simp
next
  case (Cons x xs)
  show ?case
  proof (cases "c \<in> set (writes (fst (intf_body E idx (ctl n) x)))")
    case True
    then show ?thesis by auto
  next
    case False
    with Cons.prems have "c \<in> set (writes (fst (interface_loop E idx ctl (Suc n) xs)))"
      by (auto simp: writes_append split: prod.splits option.splits)
    from Cons.IH [OF this] show ?thesis by auto
  qed
qed

section \<open>Type filtering of interfaces\<close>

text \<open>
  C9. Every write call issued by the interface loop carries the type and the name of a
  source interface whose type is \<open>vlan\<close> or \<open>subinterface\<close>; the body of the loop
  does nothing at all (no write, no diagnostic) for a source interface of any other type;
  and every record in the destination index is a record of the destination listing whose
  type is one of those two.
\<close>

theorem only_vlan_and_subinterface_copied:
  "(\<forall>c \<in> set (writes (fst (interface_loop E idx ctl n interface_list))).
      \<exists>intf \<in> set interface_list.
        copied_type (rec_get intf ''type'')
        \<and> rec_get (call_data c) ''type'' = rec_get intf ''type''
        \<and> rec_get (call_data c) ''name'' = rec_get intf ''name'')
   \<and> (rec_sub intf ''type'' = Inr t \<and> \<not> copied_type t
        \<longrightarrow> intf_body E idx ok intf = ([], None))
   \<and> (index_interfaces [] destination_interface_list = Inr idx' \<longrightarrow>
        (\<forall>r \<in> snd ` set idx'.
           r \<in> set destination_interface_list \<and> copied_type (rec_get r ''type'')))"
proof (intro conjI ballI impI)
  fix c assume "c \<in> set (writes (fst (interface_loop E idx ctl n interface_list)))"
  from interface_loop_writes [OF this] intf_body_writes
  show "\<exists>intf \<in> set interface_list.
        copied_type (rec_get intf ''type'')
        \<and> rec_get (call_data c) ''type'' = rec_get intf ''type''
        \<and> rec_get (call_data c) ''name'' = rec_get intf ''name''"
    by blast
next
  assume "rec_sub intf ''type'' = Inr t \<and> \<not> copied_type t"
  then show "intf_body E idx ok intf = ([], None)"
    by (simp add: intf_body_def)
next
  fix r assume "index_interfaces [] destination_interface_list = Inr idx'" "r \<in> snd ` set idx'"
  from index_interfaces_values [OF this]
  show "r \<in> set destination_interface_list" by simp
next
  fix r assume "index_interfaces [] destination_interface_list = Inr idx'" "r \<in> snd ` set idx'"
  from index_interfaces_values [OF this]
  show "copied_type (rec_get r ''type'')" by simp
qed

theorem only_vlan_and_subinterface_copied_witness:
  "writes (fst (interface_loop ex_ends [] accept 0
      [[(''id'', JStr ''p1''), (''name'', JStr ''1''), (''type'', JStr ''port'')],
       [(''id'', JStr ''i1''), (''name'', JStr ''vlan10''), (''type'', JStr ''vlan'')]]))
     = [Post_interfaces (JStr ''sB'') (JStr ''eB'')
          [(''name'', JStr ''vlan10''), (''type'', JStr ''vlan'')]]
   \<and> rec_sub [(''id'', JStr ''p1''), (''name'', JStr ''1''), (''type'', JStr ''port'')] ''type''
       = Inr (JStr ''port'')
   \<and> \<not> copied_type (JStr ''port'')
   \<and> intf_body ex_ends [] (accept 0)
        [(''id'', JStr ''p1''), (''name'', JStr ''1''), (''type'', JStr ''port'')] = ([], None)
   \<and> index_interfaces []
        [[(''id'', JStr ''p2''), (''name'', JStr ''1''), (''type'', JStr ''port'')],
         [(''id'', JStr ''i2''), (''name'', JStr ''vlan10''), (''type'', JStr ''vlan'')]]
       = Inr [(JStr ''vlan10'',
               [(''id'', JStr ''i2''), (''name'', JStr ''vlan10''), (''type'', JStr ''vlan'')])]
   \<and> copied_type
        (rec_get [(''id'', JStr ''i2''), (''name'', JStr ''vlan10''), (''type'', JStr ''vlan'')]
           ''type'')"
  using only_vlan_and_subinterface_copied
    [where E = ex_ends and idx = "[]" and ctl = accept and n = 0
       and interface_list =
         "[[(''id'', JStr ''p1''), (''name'', JStr ''1''), (''type'', JStr ''port'')],
           [(''id'', JStr ''i1''), (''name'', JStr ''vlan10''), (''type'', JStr ''vlan'')]]"
       and intf = "[(''id'', JStr ''p1''), (''name'', JStr ''1''), (''type'', JStr ''port'')]"
       and t = "JStr ''port''" and ok = "accept 0"
       and destination_interface_list =
         "[[(''id'', JStr ''p2''), (''name'', JStr ''1''), (''type'', JStr ''port'')],
           [(''id'', JStr ''i2''), (''name'', JStr ''vlan10''), (''type'', JStr ''vlan'')]]"
       and idx' = "[(JStr ''vlan10'',
               [(''id'', JStr ''i2''), (''name'', JStr ''vlan10''), (''type'', JStr ''vlan'')])]"]
  by (simp add: intf_defs ex_defs py_defs)

section \<open>The translation dictionaries\<close>

lemma dict_contains_pyset:
  "dict_contains (pyset k v d) k' \<longleftrightarrow> hash_of k = hash_of k' \<or> dict_contains d k'"
  by (simp add: dict_contains_def pyget_pyset)

lemma pyget_in_set: "pyget k d = Some v \<Longrightarrow> \<exists>k'. (k', v) \<in> set d \<and> hash_of k' = hash_of k"
  by (induction d) (auto split: if_splits)

lemma pyget_cong: "hash_of a = hash_of b \<Longrightarrow> pyget a d = pyget b d"
  by (induction d) auto

lemma pyset_keys:
  "(k', r) \<in> set (pyset k v d) \<Longrightarrow> k' = k \<or> (\<exists>r'. (k', r') \<in> set d)"
  by (induction d) (auto split: if_splits)

lemma pyset_key_hashes:
  "map (\<lambda>kv. hash_of (fst kv)) (pyset k v d)
     = (if \<exists>x \<in> set d. hash_of (fst x) = hash_of k
        then map (\<lambda>kv. hash_of (fst kv)) d
        else map (\<lambda>kv. hash_of (fst kv)) d @ [hash_of k])"
  by (induction d) (simp, fastforce)

lemma pyset_distinct:
  "distinct (map (\<lambda>kv. hash_of (fst kv)) d) \<Longrightarrow>
   distinct (map (\<lambda>kv. hash_of (fst kv)) (pyset k v d))"
  unfolding pyset_key_hashes by (auto simp: image_iff)

lemma pyget_distinct_entry:
  "distinct (map (\<lambda>kv. hash_of (fst kv)) d) \<Longrightarrow> (k, v) \<in> set d \<Longrightarrow> pyget k d = Some v"
  by (induction d) (auto simp: image_iff)

subsection \<open>The element loop\<close>

lemma elem_stepD:
  "elem_step T e = Inr T' \<Longrightarrow>
   \<exists>name eid site model.
     rec_sub e ''name'' = Inr name \<and> rec_sub e ''id'' = Inr eid
     \<and> rec_sub e ''site_id'' = Inr site \<and> rec_sub e ''model_name'' = Inr model
     \<and> hash_of eid \<noteq> None \<and> hash_of name \<noteq> None
     \<and> T' = T\<lparr> elem_id_name := pyset eid name (elem_id_name T),
                elem_name_id := pyset name eid (elem_name_id T),
                elemid_siteid := pyset eid site (elemid_siteid T),
                elem_id_model := pyset eid model (elem_id_model T),
                element_vrfs_by_id := pyset eid [] (element_vrfs_by_id T),
                element_vrfs_by_name := pyset eid [] (element_vrfs_by_name T),
                element_interfaces_by_id := pyset eid [] (element_interfaces_by_id T),
                element_interfaces_by_name := pyset eid [] (element_interfaces_by_name T) \<rparr>"
  by (auto simp: elem_step_def bnd_def dict_store_def split: sum.splits option.splits)

lemma elems_inv_empty: "elems_inv empty_tables"
  by (simp add: elems_inv_def empty_tables_def)

lemma elem_step_inv:
  assumes "elem_step T e = Inr T'" "elems_inv T"
  shows "elems_inv T'"
proof -
  from elem_stepD [OF assms(1)] obtain name eid site model where
    h: "hash_of eid \<noteq> None" "hash_of name \<noteq> None"
    and T': "T' = T\<lparr> elem_id_name := pyset eid name (elem_id_name T),
                elem_name_id := pyset name eid (elem_name_id T),
                elemid_siteid := pyset eid site (elemid_siteid T),
                elem_id_model := pyset eid model (elem_id_model T),
                element_vrfs_by_id := pyset eid [] (element_vrfs_by_id T),
                element_vrfs_by_name := pyset eid [] (element_vrfs_by_name T),
                element_interfaces_by_id := pyset eid [] (element_interfaces_by_id T),
                element_interfaces_by_name := pyset eid [] (element_interfaces_by_name T) \<rparr>"
    by blast
  have a: "distinct (map (\<lambda>kv. hash_of (fst kv)) (elem_id_name T'))"
    using assms(2) by (simp add: T' elems_inv_def pyset_distinct)
  have b: "hash_of (fst kv) \<noteq> None
           \<and> dict_contains (element_interfaces_by_id T') (fst kv)
           \<and> dict_contains (element_interfaces_by_name T') (fst kv)"
    if "kv \<in> set (elem_id_name T')" for kv
  proof -
    obtain k r where kv: "kv = (k, r)" by (cases kv)
    with that have "(k, r) \<in> set (pyset eid name (elem_id_name T))" by (simp add: T')
    from pyset_keys [OF this] show ?thesis
    proof
      assume "k = eid"
      with h kv show ?thesis by (simp add: T' dict_contains_pyset)
    next
      assume "\<exists>r'. (k, r') \<in> set (elem_id_name T)"
      with assms(2) kv show ?thesis by (auto simp: T' elems_inv_def dict_contains_pyset)
    qed
  qed
  have c: "hash_of (snd kv) \<noteq> None
           \<and> dict_contains (elemid_siteid T') (snd kv)
           \<and> dict_contains (element_interfaces_by_id T') (snd kv)
           \<and> dict_contains (element_interfaces_by_name T') (snd kv)"
    if "kv \<in> set (elem_name_id T')" for kv
  proof -
    obtain k r where kv: "kv = (k, r)" by (cases kv)
    with that have "(k, r) \<in> set (pyset name eid (elem_name_id T))" by (simp add: T')
    from pyset_entries [OF this] show ?thesis
    proof
      assume "r = eid"
      with h kv show ?thesis by (simp add: T' dict_contains_pyset)
    next
      assume "(k, r) \<in> set (elem_name_id T)"
      with assms(2) kv show ?thesis by (auto simp: T' elems_inv_def dict_contains_pyset)
    qed
  qed
  from a b c show ?thesis unfolding elems_inv_def by blast
qed

lemma elem_loop_inv: "elem_loop T es = Inr T' \<Longrightarrow> elems_inv T \<Longrightarrow> elems_inv T'"
proof (induction es arbitrary: T)
  case Nil
  then show ?case by simp
next
  case (Cons e es)
  from Cons.prems(1) obtain T1 where s: "elem_step T e = Inr T1" and l: "elem_loop T1 es = Inr T'"
    by (auto simp: bnd_def split: sum.splits)
  from Cons.IH [OF l elem_step_inv [OF s Cons.prems(2)]] show ?case .
qed

subsection \<open>The VRF loop\<close>

lemma vrf_stepD:
  "vrf_step T v = Inr T' \<Longrightarrow>
   \<exists>name vid. rec_sub v ''name'' = Inr name \<and> rec_sub v ''id'' = Inr vid
     \<and> hash_of vid \<noteq> None \<and> hash_of name \<noteq> None
     \<and> T' = T\<lparr> global_id_vfr := pyset vid name (global_id_vfr T),
                global_name_vfr := pyset name vid (global_name_vfr T) \<rparr>"
  by (auto simp: vrf_step_def bnd_def dict_store_def split: sum.splits option.splits)

lemma vrf_loop_frame:
  "vrf_loop T vs = Inr T' \<Longrightarrow>
   elem_id_name T' = elem_id_name T \<and> elem_name_id T' = elem_name_id T
   \<and> elemid_siteid T' = elemid_siteid T
   \<and> element_interfaces_by_id T' = element_interfaces_by_id T
   \<and> element_interfaces_by_name T' = element_interfaces_by_name T"
proof (induction vs arbitrary: T)
  case Nil
  then show ?case by simp
next
  case (Cons v vs)
  from Cons.prems obtain T1 where s: "vrf_step T v = Inr T1" and l: "vrf_loop T1 vs = Inr T'"
    by (auto simp: bnd_def split: sum.splits)
  from vrf_stepD [OF s] obtain a b where "T1 = T\<lparr> global_id_vfr := a, global_name_vfr := b \<rparr>"
    by blast
  with Cons.IH [OF l] show ?case by simp
qed

subsection \<open>The interface loop of one element\<close>

lemma intf_stepD:
  "intf_step k T i = Inr T' \<Longrightarrow>
   \<exists>name iid a b. rec_sub i ''name'' = Inr name \<and> rec_sub i ''id'' = Inr iid
     \<and> hash_of iid \<noteq> None \<and> hash_of name \<noteq> None \<and> hash_of k \<noteq> None
     \<and> pyget k (element_interfaces_by_id T) = Some a
     \<and> pyget k (element_interfaces_by_name T) = Some b
     \<and> T' = T\<lparr> element_interfaces_by_id :=
                  pyset k (pyset iid name a) (element_interfaces_by_id T),
                element_interfaces_by_name :=
                  pyset k (pyset name iid b) (element_interfaces_by_name T) \<rparr>"
  by (auto simp: intf_step_def bnd_def dict_store_def dict_sub_def dict_find_def
      split: sum.splits option.splits)

lemma intf_step_frame:
  assumes "intf_step k T i = Inr T'"
  shows "elem_id_name T' = elem_id_name T \<and> elem_name_id T' = elem_name_id T
         \<and> elemid_siteid T' = elemid_siteid T
         \<and> global_id_vfr T' = global_id_vfr T \<and> global_name_vfr T' = global_name_vfr T"
    and "hash_of k' \<noteq> hash_of k \<Longrightarrow>
           pyget k' (element_interfaces_by_id T') = pyget k' (element_interfaces_by_id T)
           \<and> pyget k' (element_interfaces_by_name T') = pyget k' (element_interfaces_by_name T)"
    and "dict_contains (element_interfaces_by_id T) k'
           \<Longrightarrow> dict_contains (element_interfaces_by_id T') k'"
    and "dict_contains (element_interfaces_by_name T) k'
           \<Longrightarrow> dict_contains (element_interfaces_by_name T') k'"
proof -
  from intf_stepD [OF assms] obtain a b where
    T': "T' = T\<lparr> element_interfaces_by_id := pyset k a (element_interfaces_by_id T),
                  element_interfaces_by_name := pyset k b (element_interfaces_by_name T) \<rparr>"
    by blast
  show "elem_id_name T' = elem_id_name T \<and> elem_name_id T' = elem_name_id T
         \<and> elemid_siteid T' = elemid_siteid T
         \<and> global_id_vfr T' = global_id_vfr T \<and> global_name_vfr T' = global_name_vfr T"
    by (simp add: T')
  show "hash_of k' \<noteq> hash_of k \<Longrightarrow>
           pyget k' (element_interfaces_by_id T') = pyget k' (element_interfaces_by_id T)
           \<and> pyget k' (element_interfaces_by_name T') = pyget k' (element_interfaces_by_name T)"
    by (simp add: T' pyget_pyset)
  show "dict_contains (element_interfaces_by_id T) k'
           \<Longrightarrow> dict_contains (element_interfaces_by_id T') k'"
    by (simp add: T' dict_contains_pyset)
  show "dict_contains (element_interfaces_by_name T) k'
           \<Longrightarrow> dict_contains (element_interfaces_by_name T') k'"
    by (simp add: T' dict_contains_pyset)
qed

lemma intf_loop_frame:
  "intf_loop k T items = Inr T' \<Longrightarrow>
   elem_id_name T' = elem_id_name T \<and> elem_name_id T' = elem_name_id T
   \<and> elemid_siteid T' = elemid_siteid T
   \<and> global_id_vfr T' = global_id_vfr T \<and> global_name_vfr T' = global_name_vfr T
   \<and> (\<forall>k'. hash_of k' \<noteq> hash_of k \<longrightarrow>
          pyget k' (element_interfaces_by_id T') = pyget k' (element_interfaces_by_id T)
          \<and> pyget k' (element_interfaces_by_name T') = pyget k' (element_interfaces_by_name T))
   \<and> (\<forall>k'. dict_contains (element_interfaces_by_id T) k'
          \<longrightarrow> dict_contains (element_interfaces_by_id T') k')
   \<and> (\<forall>k'. dict_contains (element_interfaces_by_name T) k'
          \<longrightarrow> dict_contains (element_interfaces_by_name T') k')"
proof (induction items arbitrary: T)
  case Nil
  then show ?case by simp
next
  case (Cons i items)
  from Cons.prems obtain T1 where s: "intf_step k T i = Inr T1"
    and l: "intf_loop k T1 items = Inr T'"
    by (auto simp: bnd_def split: sum.splits)
  note f = intf_step_frame [OF s]
  note ih = Cons.IH [OF l]
  show ?case
  proof (intro conjI allI impI)
    fix k' assume "hash_of k' \<noteq> hash_of k"
    with f(2) ih
    show "pyget k' (element_interfaces_by_id T') = pyget k' (element_interfaces_by_id T)"
      by simp
  next
    fix k' assume "hash_of k' \<noteq> hash_of k"
    with f(2) ih
    show "pyget k' (element_interfaces_by_name T') = pyget k' (element_interfaces_by_name T)"
      by simp
  next
    fix k' assume "dict_contains (element_interfaces_by_id T) k'"
    with f(3) ih show "dict_contains (element_interfaces_by_id T') k'" by blast
  next
    fix k' assume "dict_contains (element_interfaces_by_name T) k'"
    with f(4) ih show "dict_contains (element_interfaces_by_name T') k'" by blast
  qed (use f(1) ih in simp_all)
qed

lemma intf_step_total:
  assumes "hash_of k \<noteq> None" "dict_contains (element_interfaces_by_id T) k"
    "dict_contains (element_interfaces_by_name T) k" "listed_ok i"
  shows "\<exists>T'. intf_step k T i = Inr T'"
  using assms
  by (auto simp: intf_step_def bnd_def dict_store_def dict_sub_def dict_find_def
      dict_contains_def listed_ok_def rec_sub_def split: option.splits)

lemma intf_loop_total:
  "hash_of k \<noteq> None \<Longrightarrow> dict_contains (element_interfaces_by_id T) k \<Longrightarrow>
   dict_contains (element_interfaces_by_name T) k \<Longrightarrow> list_all listed_ok items \<Longrightarrow>
   \<exists>T'. intf_loop k T items = Inr T'"
proof (induction items arbitrary: T)
  case Nil
  then show ?case by simp
next
  case (Cons i items)
  from Cons.prems obtain T1 where s: "intf_step k T i = Inr T1"
    using intf_step_total [of k T i] by auto
  from intf_step_frame(3,4) [OF s] Cons.prems
  have "dict_contains (element_interfaces_by_id T1) k"
    "dict_contains (element_interfaces_by_name T1) k" by blast+
  from Cons.IH [OF Cons.prems(1) this] Cons.prems(4) s show ?case
    by (auto simp: bnd_def)
qed

subsection \<open>The loop over the elements' interface listings\<close>

lemma dev_loop_Cons:
  assumes "dev_loop f T ((k, nm) # rest) = (ev, Inr T')"
  obtains (listed) site items T1 where
      "site = (case pyget k (elemid_siteid T) of None \<Rightarrow> JNull | Some s \<Rightarrow> s)"
      "truthy site" "f k site = Listing items" "intf_loop k T items = Inr T1"
      "dev_loop f T1 rest = (ev, Inr T')"
  | (failed) site ev' where
      "site = (case pyget k (elemid_siteid T) of None \<Rightarrow> JNull | Some s \<Rightarrow> s)"
      "truthy site" "f k site = Failed" "ev = ERR_interfaces_of nm k # ev'"
      "dev_loop f T rest = (ev', Inr T')"
  | (nosite) site ev' where
      "site = (case pyget k (elemid_siteid T) of None \<Rightarrow> JNull | Some s \<Rightarrow> s)"
      "\<not> truthy site" "ev = WARN_no_site_id nm k # ev'"
      "dev_loop f T rest = (ev', Inr T')"
proof -
  define site where "site = (case pyget k (elemid_siteid T) of None \<Rightarrow> JNull | Some s \<Rightarrow> s)"
  obtain ev0 r0 where rest: "dev_loop f T rest = (ev0, r0)" by (cases "dev_loop f T rest")
  show thesis
  proof (cases "truthy site")
    case False
    with assms rest have "ev = WARN_no_site_id nm k # ev0" "r0 = Inr T'"
      by (simp_all add: site_def emit_def)
    with nosite [OF site_def False] rest show thesis by simp
  next
    case True
    show thesis
    proof (cases "f k site")
      case Failed
      with assms rest True have "ev = ERR_interfaces_of nm k # ev0" "r0 = Inr T'"
        by (simp_all add: site_def emit_def)
      with failed [OF site_def True Failed] rest show thesis by simp
    next
      case (Listing items)
      show thesis
      proof (cases "intf_loop k T items")
        case (Inl e)
        with assms True Listing show thesis by (simp add: site_def)
      next
        case (Inr T1)
        with assms True Listing have "dev_loop f T1 rest = (ev, Inr T')"
          by (simp add: site_def)
        with listed [OF site_def True Listing Inr] show thesis by simp
      qed
    qed
  qed
qed

lemma dev_loop_frame:
  "dev_loop f T ds = (ev, Inr T') \<Longrightarrow>
   elem_id_name T' = elem_id_name T \<and> elem_name_id T' = elem_name_id T
   \<and> elemid_siteid T' = elemid_siteid T
   \<and> global_id_vfr T' = global_id_vfr T \<and> global_name_vfr T' = global_name_vfr T
   \<and> (\<forall>k'. dict_contains (element_interfaces_by_id T) k'
          \<longrightarrow> dict_contains (element_interfaces_by_id T') k')
   \<and> (\<forall>k'. dict_contains (element_interfaces_by_name T) k'
          \<longrightarrow> dict_contains (element_interfaces_by_name T') k')"
proof (induction ds arbitrary: T ev)
  case Nil
  then show ?case by simp
next
  case (Cons d ds)
  obtain k nm where d: "d = (k, nm)" by (cases d)
  from Cons.prems [unfolded d] show ?case
  proof (cases rule: dev_loop_Cons)
    case (listed site items T1)
    from intf_loop_frame [OF listed(4)] Cons.IH [OF listed(5)] show ?thesis
      by simp
  next
    case (failed site ev')
    from Cons.IH [OF failed(5)] show ?thesis .
  next
    case (nosite site ev')
    from Cons.IH [OF nosite(4)] show ?thesis .
  qed
qed

lemma dev_loop_other:
  "dev_loop f T ds = (ev, Inr T') \<Longrightarrow> \<forall>kv \<in> set ds. hash_of (fst kv) \<noteq> hash_of k \<Longrightarrow>
   pyget k (element_interfaces_by_id T') = pyget k (element_interfaces_by_id T)
   \<and> pyget k (element_interfaces_by_name T') = pyget k (element_interfaces_by_name T)"
proof (induction ds arbitrary: T ev)
  case Nil
  then show ?case by simp
next
  case (Cons d ds)
  obtain k0 nm where d: "d = (k0, nm)" by (cases d)
  from Cons.prems(2) d have ne: "hash_of k \<noteq> hash_of k0"
    and rest: "\<forall>kv \<in> set ds. hash_of (fst kv) \<noteq> hash_of k" by auto
  from Cons.prems(1) [unfolded d] show ?case
  proof (cases rule: dev_loop_Cons)
    case (listed site items T1)
    from intf_loop_frame [OF listed(4)] ne Cons.IH [OF listed(5) rest] show ?thesis by simp
  next
    case (failed site ev')
    from Cons.IH [OF failed(5) rest] show ?thesis .
  next
    case (nosite site ev')
    from Cons.IH [OF nosite(4) rest] show ?thesis .
  qed
qed

lemma dev_loop_skipped:
  "dev_loop f T ds = (ev, Inr T') \<Longrightarrow> distinct (map (\<lambda>kv. hash_of (fst kv)) ds) \<Longrightarrow>
   (k, nm) \<in> set ds \<Longrightarrow>
   \<not> truthy (case pyget k (elemid_siteid T) of None \<Rightarrow> JNull | Some s \<Rightarrow> s)
   \<or> f k (case pyget k (elemid_siteid T) of None \<Rightarrow> JNull | Some s \<Rightarrow> s) = Failed \<Longrightarrow>
   pyget k (element_interfaces_by_id T') = pyget k (element_interfaces_by_id T)
   \<and> pyget k (element_interfaces_by_name T') = pyget k (element_interfaces_by_name T)
   \<and> (if truthy (case pyget k (elemid_siteid T) of None \<Rightarrow> JNull | Some s \<Rightarrow> s)
       then ERR_interfaces_of nm k else WARN_no_site_id nm k) \<in> set ev"
proof (induction ds arbitrary: T ev)
  case Nil
  then show ?case by simp
next
  case (Cons d ds)
  obtain k0 nm0 where d: "d = (k0, nm0)" by (cases d)
  from Cons.prems(2) d have fresh: "\<forall>kv \<in> set ds. hash_of (fst kv) \<noteq> hash_of k0"
    and dist: "distinct (map (\<lambda>kv. hash_of (fst kv)) ds)" by (auto simp: image_iff)
  show ?case
  proof (cases "(k, nm) = (k0, nm0)")
    case True
    then have eq: "k0 = k" "nm0 = nm" by simp_all
    from Cons.prems(1) [unfolded d eq] show ?thesis
    proof (cases rule: dev_loop_Cons)
      case (listed site items T1)
      with Cons.prems(4) show ?thesis by simp
    next
      case (failed site ev')
      from dev_loop_other [OF failed(5)] fresh eq failed(1,2,4) show ?thesis by simp
    next
      case (nosite site ev')
      from dev_loop_other [OF nosite(4)] fresh eq nosite(1,2,3) show ?thesis by simp
    qed
  next
    case False
    with Cons.prems(3) d have mem: "(k, nm) \<in> set ds" by auto
    with fresh have ne: "hash_of k \<noteq> hash_of k0" by force
    from Cons.prems(1) [unfolded d] show ?thesis
    proof (cases rule: dev_loop_Cons)
      case (listed site items T1)
      from intf_loop_frame [OF listed(4)] have
        same: "elemid_siteid T1 = elemid_siteid T"
        and keep: "pyget k (element_interfaces_by_id T1) = pyget k (element_interfaces_by_id T)"
          "pyget k (element_interfaces_by_name T1) = pyget k (element_interfaces_by_name T)"
        using ne by simp_all
      from Cons.IH [OF listed(5) dist mem] Cons.prems(4) same keep show ?thesis by simp
    next
      case (failed site ev')
      from Cons.IH [OF failed(5) dist mem Cons.prems(4)] failed(4) show ?thesis by auto
    next
      case (nosite site ev')
      from Cons.IH [OF nosite(4) dist mem Cons.prems(4)] nosite(3) show ?thesis by auto
    qed
  qed
qed

lemma dev_loop_quiet: "snd (dev_loop (quiet f) T ds) = snd (dev_loop f T ds)"
proof (induction ds arbitrary: T)
  case Nil
  then show ?case by simp
next
  case (Cons d ds)
  obtain k nm where d: "d = (k, nm)" by (cases d)
  define site where "site = (case pyget k (elemid_siteid T) of None \<Rightarrow> JNull | Some s \<Rightarrow> s)"
  have q: "quiet f k site = (case f k site of Failed \<Rightarrow> Listing [] | Listing items \<Rightarrow> Listing items)"
    by (simp add: quiet_def)
  show ?case
  proof (cases "truthy site")
    case False
    then show ?thesis by (simp add: d site_def emit_def Cons.IH)
  next
    case True
    show ?thesis
    proof (cases "f k site")
      case Failed
      with True q show ?thesis by (simp add: d site_def emit_def Cons.IH)
    next
      case (Listing items)
      with True q show ?thesis
        by (cases "intf_loop k T items") (simp_all add: d site_def Cons.IH)
    qed
  qed
qed

lemma dev_loop_total:
  "\<forall>kv \<in> set ds. hash_of (fst kv) \<noteq> None
        \<and> dict_contains (element_interfaces_by_id T) (fst kv)
        \<and> dict_contains (element_interfaces_by_name T) (fst kv) \<Longrightarrow>
   \<forall>e s. case f e s of Failed \<Rightarrow> True | Listing items \<Rightarrow> list_all listed_ok items \<Longrightarrow>
   \<exists>T'. snd (dev_loop f T ds) = Inr T'"
proof (induction ds arbitrary: T)
  case Nil
  then show ?case by simp
next
  case (Cons d ds)
  obtain k nm where d: "d = (k, nm)" by (cases d)
  define site where "site = (case pyget k (elemid_siteid T) of None \<Rightarrow> JNull | Some s \<Rightarrow> s)"
  from Cons.IH [OF _ Cons.prems(2), of T] Cons.prems(1)
  have same: "\<exists>T'. snd (dev_loop f T ds) = Inr T'" by simp
  show ?case
  proof (cases "truthy site")
    case False
    with same show ?thesis by (simp add: d site_def emit_def)
  next
    case True
    show ?thesis
    proof (cases "f k site")
      case Failed
      with True same show ?thesis by (simp add: d site_def emit_def)
    next
      case (Listing items)
      with Cons.prems(2) have "list_all listed_ok items"
        by (metis resp.simps(5))
      with intf_loop_total [of k T items] Cons.prems(1) d
      obtain T1 where T1: "intf_loop k T items = Inr T1" by auto
      from intf_loop_frame [OF T1] Cons.prems(1)
      have "\<forall>kv \<in> set ds. hash_of (fst kv) \<noteq> None
        \<and> dict_contains (element_interfaces_by_id T1) (fst kv)
        \<and> dict_contains (element_interfaces_by_name T1) (fst kv)" by simp
      from Cons.IH [OF this Cons.prems(2)] True Listing T1 show ?thesis
        by (simp add: d site_def)
    qed
  qed
qed

subsection \<open>The whole of \<open>create_dicts\<close>\<close>

lemma elem_step_contains:
  assumes "elem_step T e = Inr T'"
  shows "hash_of (rec_get e ''id'') \<noteq> None"
    and "dict_contains (element_interfaces_by_id T') (rec_get e ''id'')"
    and "dict_contains (element_interfaces_by_name T') (rec_get e ''id'')"
    and "dict_contains (element_interfaces_by_id T) k
           \<Longrightarrow> dict_contains (element_interfaces_by_id T') k"
    and "dict_contains (element_interfaces_by_name T) k
           \<Longrightarrow> dict_contains (element_interfaces_by_name T') k"
    and "\<forall>kv \<in> set (element_interfaces_by_id T). snd kv = []
           \<Longrightarrow> \<forall>kv \<in> set (element_interfaces_by_id T'). snd kv = []"
    and "\<forall>kv \<in> set (element_interfaces_by_name T). snd kv = []
           \<Longrightarrow> \<forall>kv \<in> set (element_interfaces_by_name T'). snd kv = []"
proof -
  from elem_stepD [OF assms] obtain eid a b c d e5 e6 where
    i: "rec_sub e ''id'' = Inr eid" "hash_of eid \<noteq> None"
    and T': "T' = T\<lparr> elem_id_name := a, elem_name_id := b, elemid_siteid := c,
                elem_id_model := d, element_vrfs_by_id := e5, element_vrfs_by_name := e6,
                element_interfaces_by_id := pyset eid [] (element_interfaces_by_id T),
                element_interfaces_by_name := pyset eid [] (element_interfaces_by_name T) \<rparr>"
    by blast
  have g: "rec_get e ''id'' = eid" using i(1) by (rule rec_sub_get)
  show "hash_of (rec_get e ''id'') \<noteq> None" using i g by simp
  show "dict_contains (element_interfaces_by_id T') (rec_get e ''id'')"
    by (simp add: T' g dict_contains_pyset)
  show "dict_contains (element_interfaces_by_name T') (rec_get e ''id'')"
    by (simp add: T' g dict_contains_pyset)
  show "dict_contains (element_interfaces_by_id T) k
           \<Longrightarrow> dict_contains (element_interfaces_by_id T') k"
    by (simp add: T' dict_contains_pyset)
  show "dict_contains (element_interfaces_by_name T) k
           \<Longrightarrow> dict_contains (element_interfaces_by_name T') k"
    by (simp add: T' dict_contains_pyset)
  show "\<forall>kv \<in> set (element_interfaces_by_id T). snd kv = []
           \<Longrightarrow> \<forall>kv \<in> set (element_interfaces_by_id T'). snd kv = []"
    using pyset_entries [of _ _ eid "[]" "element_interfaces_by_id T"]
    by (fastforce simp: T')
  show "\<forall>kv \<in> set (element_interfaces_by_name T). snd kv = []
           \<Longrightarrow> \<forall>kv \<in> set (element_interfaces_by_name T'). snd kv = []"
    using pyset_entries [of _ _ eid "[]" "element_interfaces_by_name T"]
    by (fastforce simp: T')
qed

lemma elem_loop_contains:
  "elem_loop T es = Inr T' \<Longrightarrow>
   (\<forall>e \<in> set es. hash_of (rec_get e ''id'') \<noteq> None
       \<and> dict_contains (element_interfaces_by_id T') (rec_get e ''id'')
       \<and> dict_contains (element_interfaces_by_name T') (rec_get e ''id''))
   \<and> (\<forall>k. dict_contains (element_interfaces_by_id T) k
          \<longrightarrow> dict_contains (element_interfaces_by_id T') k)
   \<and> (\<forall>k. dict_contains (element_interfaces_by_name T) k
          \<longrightarrow> dict_contains (element_interfaces_by_name T') k)"
proof (induction es arbitrary: T)
  case Nil
  then show ?case by simp
next
  case (Cons e es)
  from Cons.prems obtain T1 where s: "elem_step T e = Inr T1" and l: "elem_loop T1 es = Inr T'"
    by (auto simp: bnd_def split: sum.splits)
  note c = elem_step_contains [OF s]
  from Cons.IH [OF l] c(1-3) c(4,5) show ?case by auto
qed

lemma elem_loop_empty:
  "elem_loop T es = Inr T' \<Longrightarrow>
   \<forall>kv \<in> set (element_interfaces_by_id T). snd kv = [] \<Longrightarrow>
   \<forall>kv \<in> set (element_interfaces_by_name T). snd kv = [] \<Longrightarrow>
   (\<forall>kv \<in> set (element_interfaces_by_id T'). snd kv = [])
   \<and> (\<forall>kv \<in> set (element_interfaces_by_name T'). snd kv = [])"
proof (induction es arbitrary: T)
  case Nil
  then show ?case by simp
next
  case (Cons e es)
  from Cons.prems(1) obtain T1 where s: "elem_step T e = Inr T1"
    and l: "elem_loop T1 es = Inr T'"
    by (auto simp: bnd_def split: sum.splits)
  from Cons.IH [OF l elem_step_contains(6) [OF s Cons.prems(2)]
      elem_step_contains(7) [OF s Cons.prems(3)]]
  show ?case .
qed

lemma create_dicts_Inr:
  assumes "snd (create_dicts sess) = Inr T"
  obtains es T1 vs T2 where
    "get_elements sess = Listing es" "elem_loop empty_tables es = Inr T1"
    "get_vrfcontexts sess = Listing vs" "vrf_loop T1 vs = Inr T2"
    "dev_loop (get_interfaces sess) T2 (elem_id_name T2) = (fst (create_dicts sess), Inr T)"
proof -
  from assms obtain es where es: "get_elements sess = Listing es"
    by (cases "get_elements sess") (simp_all add: create_dicts_def)
  from assms es obtain T1 where T1: "elem_loop empty_tables es = Inr T1"
    by (cases "elem_loop empty_tables es") (simp_all add: create_dicts_def)
  from assms es T1 obtain vs where vs: "get_vrfcontexts sess = Listing vs"
    by (cases "get_vrfcontexts sess") (simp_all add: create_dicts_def)
  from assms es T1 vs obtain T2 where T2: "vrf_loop T1 vs = Inr T2"
    by (cases "vrf_loop T1 vs") (simp_all add: create_dicts_def)
  from es T1 vs T2 have "create_dicts sess = dev_loop (get_interfaces sess) T2 (elem_id_name T2)"
    by (simp add: create_dicts_def)
  with assms have "dev_loop (get_interfaces sess) T2 (elem_id_name T2)
      = (fst (create_dicts sess), Inr T)"
    by (metis prod.collapse)
  with that es T1 vs T2 show thesis by blast
qed

lemma elems_inv_frame:
  assumes "elems_inv T" "elem_id_name T' = elem_id_name T" "elem_name_id T' = elem_name_id T"
    "elemid_siteid T' = elemid_siteid T"
    "\<forall>k. dict_contains (element_interfaces_by_id T) k
          \<longrightarrow> dict_contains (element_interfaces_by_id T') k"
    "\<forall>k. dict_contains (element_interfaces_by_name T) k
          \<longrightarrow> dict_contains (element_interfaces_by_name T') k"
  shows "elems_inv T'"
  using assms unfolding elems_inv_def by simp

lemma create_dicts_inv:
  assumes "snd (create_dicts sess) = Inr T"
  shows "elems_inv T"
proof -
  from assms obtain es T1 vs T2 where
    h: "elem_loop empty_tables es = Inr T1" "vrf_loop T1 vs = Inr T2"
    "dev_loop (get_interfaces sess) T2 (elem_id_name T2) = (fst (create_dicts sess), Inr T)"
    by (rule create_dicts_Inr)
  have 1: "elems_inv T1" using elem_loop_inv [OF h(1) elems_inv_empty] .
  have 2: "elems_inv T2"
    by (rule elems_inv_frame [OF 1]) (use vrf_loop_frame [OF h(2)] in simp_all)
  show ?thesis
    by (rule elems_inv_frame [OF 2]) (use dev_loop_frame [OF h(3)] in simp_all)
qed

lemma create_dicts_listed:
  assumes "snd (create_dicts sess) = Inr T" "get_elements sess = Listing es" "e \<in> set es"
  shows "hash_of (rec_get e ''id'') \<noteq> None
         \<and> dict_contains (element_interfaces_by_id T) (rec_get e ''id'')
         \<and> dict_contains (element_interfaces_by_name T) (rec_get e ''id'')"
proof -
  from assms(1) obtain es' T1 vs T2 where
    h: "get_elements sess = Listing es'" "elem_loop empty_tables es' = Inr T1"
    "vrf_loop T1 vs = Inr T2"
    "dev_loop (get_interfaces sess) T2 (elem_id_name T2) = (fst (create_dicts sess), Inr T)"
    by (rule create_dicts_Inr)
  from h(1) assms(2) have "es' = es" by simp
  with elem_loop_contains [OF h(2)] assms(3)
  have "hash_of (rec_get e ''id'') \<noteq> None
       \<and> dict_contains (element_interfaces_by_id T1) (rec_get e ''id'')
       \<and> dict_contains (element_interfaces_by_name T1) (rec_get e ''id'')" by blast
  with vrf_loop_frame [OF h(3)] dev_loop_frame [OF h(4)] show ?thesis by simp
qed

lemma create_dicts_skipped:
  assumes "snd (create_dicts sess) = Inr T" "(k, nm) \<in> set (elem_id_name T)"
    "\<not> truthy (case pyget k (elemid_siteid T) of None \<Rightarrow> JNull | Some s \<Rightarrow> s)
     \<or> get_interfaces sess k (case pyget k (elemid_siteid T) of None \<Rightarrow> JNull | Some s \<Rightarrow> s)
         = Failed"
  shows "pyget k (element_interfaces_by_id T) = Some []
         \<and> pyget k (element_interfaces_by_name T) = Some []
         \<and> (if truthy (case pyget k (elemid_siteid T) of None \<Rightarrow> JNull | Some s \<Rightarrow> s)
             then ERR_interfaces_of nm k else WARN_no_site_id nm k)
            \<in> set (fst (create_dicts sess))"
proof -
  from assms(1) obtain es T1 vs T2 where
    h: "elem_loop empty_tables es = Inr T1" "vrf_loop T1 vs = Inr T2"
    "dev_loop (get_interfaces sess) T2 (elem_id_name T2) = (fst (create_dicts sess), Inr T)"
    by (rule create_dicts_Inr)
  note v = vrf_loop_frame [OF h(2)]
  note d = dev_loop_frame [OF h(3)]
  have inv1: "elems_inv T1" using elem_loop_inv [OF h(1) elems_inv_empty] .
  have inv2: "elems_inv T2"
    by (rule elems_inv_frame [OF inv1]) (use v in simp_all)
  from elem_loop_empty [OF h(1)] v
  have emp: "\<forall>kv \<in> set (element_interfaces_by_id T2). snd kv = []"
    "\<forall>kv \<in> set (element_interfaces_by_name T2). snd kv = []"
    by (simp_all add: empty_tables_def)
  from assms(2) d have mem: "(k, nm) \<in> set (elem_id_name T2)" by simp
  from inv2 have dist: "distinct (map (\<lambda>kv. hash_of (fst kv)) (elem_id_name T2))"
    by (simp add: elems_inv_def)
  from assms(3) d
  have skip: "\<not> truthy (case pyget k (elemid_siteid T2) of None \<Rightarrow> JNull | Some s \<Rightarrow> s)
     \<or> get_interfaces sess k (case pyget k (elemid_siteid T2) of None \<Rightarrow> JNull | Some s \<Rightarrow> s)
         = Failed" by simp
  note sk = dev_loop_skipped [OF h(3) dist mem skip]
  from inv2 mem have "dict_contains (element_interfaces_by_id T2) k"
    "dict_contains (element_interfaces_by_name T2) k"
    by (auto simp: elems_inv_def)
  then obtain a b where ab: "pyget k (element_interfaces_by_id T2) = Some a"
    "pyget k (element_interfaces_by_name T2) = Some b"
    by (auto simp: dict_contains_def)
  from pyget_in_set [OF ab(1)] pyget_in_set [OF ab(2)] emp have "a = []" "b = []"
    by fastforce+
  with ab sk d show ?thesis by simp
qed

lemma ex_tables_partial_built:
  "create_dicts ex_session_partial
     = ([ERR_interfaces_of (JStr ''ION-A'') (JStr ''eA''),
         WARN_no_site_id (JStr ''ION-C'') (JStr ''eC'')], Inr ex_tables_partial)"
  by (simp add: create_dicts_def ex_session_partial_def ex_tables_partial_def empty_tables_def
      elem_step_def vrf_step_def intf_step_def py_defs)

lemma resolve_elements_total:
  assumes "elems_inv T" "dict_contains (elem_name_id T) (JStr src)"
    "dict_contains (elem_name_id T) (arg_value dst)"
  shows "\<exists>E a b. resolve_elements T src dst = ([], Inr E)
           \<and> dict_sub (element_interfaces_by_id T) (src_eid E) = Inr a
           \<and> dict_sub (element_interfaces_by_name T) (dst_eid E) = Inr b"
proof -
  have hd: "hash_of (arg_value dst) \<noteq> None" by (cases dst) (simp_all add: arg_value_def)
  from assms(2,3) obtain se de where
    se: "pyget (JStr src) (elem_name_id T) = Some se"
    and de: "pyget (arg_value dst) (elem_name_id T) = Some de"
    by (auto simp: dict_contains_def)
  from pyget_in_set [OF se] assms(1) have s: "hash_of se \<noteq> None"
    "dict_contains (elemid_siteid T) se" "dict_contains (element_interfaces_by_id T) se"
    by (auto simp: elems_inv_def)
  from pyget_in_set [OF de] assms(1) have d: "hash_of de \<noteq> None"
    "dict_contains (elemid_siteid T) de" "dict_contains (element_interfaces_by_name T) de"
    by (auto simp: elems_inv_def)
  from s(2) d(2) obtain ss ds where
    ss: "pyget se (elemid_siteid T) = Some ss" and ds: "pyget de (elemid_siteid T) = Some ds"
    by (auto simp: dict_contains_def)
  from s(3) d(3) obtain a b where
    a: "pyget se (element_interfaces_by_id T) = Some a"
    and b: "pyget de (element_interfaces_by_name T) = Some b"
    by (auto simp: dict_contains_def)
  have "resolve_elements T src dst
          = ([], Inr \<lparr> src_eid = se, src_sid = ss, dst_eid = de, dst_sid = ds \<rparr>)"
    using assms(2,3) se de ss ds s(1) d(1) hd
    by (auto simp: resolve_elements_def dict_sub_def dict_find_def bnd_def)
  moreover have "dict_sub (element_interfaces_by_id T) se = Inr a"
    using a s(1) by (auto simp: dict_sub_def dict_find_def bnd_def)
  moreover have "dict_sub (element_interfaces_by_name T) de = Inr b"
    using b d(1) by (auto simp: dict_sub_def dict_find_def bnd_def)
  ultimately show ?thesis by simp
qed

lemma dict_sub_contains:
  "hash_of k \<noteq> None \<Longrightarrow> dict_contains d k \<Longrightarrow> \<exists>a. dict_sub d k = Inr a"
  by (auto simp: dict_sub_def dict_find_def bnd_def dict_contains_def)

lemma dict_sub_pyget: "hash_of k \<noteq> None \<Longrightarrow> pyget k d = Some a \<Longrightarrow> dict_sub d k = Inr a"
  by (auto simp: dict_sub_def dict_find_def bnd_def)

lemma nexthop_step_empty_source:
  assumes "dict_sub (element_interfaces_by_id T) (src_eid E) = Inr []"
    "truthy (rec_get nh ''nexthop_interface_id'')"
    "hash_of (rec_get nh ''nexthop_interface_id'') \<noteq> None"
    "rec_sub p ''destination_prefix'' = Inr pfx"
  shows "nexthop_step T E p (JObj nh)
           = ([WARN_if_no_name (rec_get nh ''nexthop_interface_id'') pfx], Inr (JObj nh))"
  using assms by (auto simp: nexthop_step_def Let_def dict_get_def dict_find_def bnd_def)

text \<open>
  C10. When \<open>create_dicts\<close> returns, both per-element interface dictionaries have an
  entry under the id of every element of the device listing, so subscripting them with
  that id does not raise; the entry is the empty dictionary for an element whose site id
  is falsy or whose interface listing failed. Once both element names are keys of
  \<open>elem_name_id\<close>, validation returns the two ends and the subscripts
  \<open>element_interfaces_by_id[src_eid]\<close> and \<open>element_interfaces_by_name[dst_eid]\<close>
  succeed. With an empty source dictionary, a nexthop that refers to an interface takes
  the branch of the unresolved source name: one warning, the nexthop unchanged.
\<close>

theorem interface_tables_cover_every_element:
  assumes "snd (create_dicts sess) = Inr T"
  shows
    "(get_elements sess = Listing es \<and> e \<in> set es \<longrightarrow>
        (\<exists>a b. dict_sub (element_interfaces_by_id T) (rec_get e ''id'') = Inr a
              \<and> dict_sub (element_interfaces_by_name T) (rec_get e ''id'') = Inr b))
     \<and> ((k, nm) \<in> set (elem_id_name T)
         \<and> (\<not> truthy (case pyget k (elemid_siteid T) of None \<Rightarrow> JNull | Some s \<Rightarrow> s)
            \<or> get_interfaces sess k
                 (case pyget k (elemid_siteid T) of None \<Rightarrow> JNull | Some s \<Rightarrow> s) = Failed)
        \<longrightarrow> dict_sub (element_interfaces_by_id T) k = Inr []
            \<and> dict_sub (element_interfaces_by_name T) k = Inr [])
     \<and> (dict_contains (elem_name_id T) (JStr src_element)
         \<and> dict_contains (elem_name_id T) (arg_value dst_element)
        \<longrightarrow> (\<exists>E a b. resolve_elements T src_element dst_element = ([], Inr E)
               \<and> dict_sub (element_interfaces_by_id T) (src_eid E) = Inr a
               \<and> dict_sub (element_interfaces_by_name T) (dst_eid E) = Inr b))
     \<and> (dict_sub (element_interfaces_by_id T) (src_eid E') = Inr []
         \<and> truthy (rec_get nh ''nexthop_interface_id'')
         \<and> hash_of (rec_get nh ''nexthop_interface_id'') \<noteq> None
         \<and> rec_sub p ''destination_prefix'' = Inr pfx
        \<longrightarrow> nexthop_step T E' p (JObj nh)
             = ([WARN_if_no_name (rec_get nh ''nexthop_interface_id'') pfx], Inr (JObj nh)))"
proof (intro conjI impI)
  assume "get_elements sess = Listing es \<and> e \<in> set es"
  with create_dicts_listed [OF assms, of es e]
  show "\<exists>a b. dict_sub (element_interfaces_by_id T) (rec_get e ''id'') = Inr a
              \<and> dict_sub (element_interfaces_by_name T) (rec_get e ''id'') = Inr b"
    using dict_sub_contains by blast
next
  assume h: "(k, nm) \<in> set (elem_id_name T)
         \<and> (\<not> truthy (case pyget k (elemid_siteid T) of None \<Rightarrow> JNull | Some s \<Rightarrow> s)
            \<or> get_interfaces sess k
                 (case pyget k (elemid_siteid T) of None \<Rightarrow> JNull | Some s \<Rightarrow> s) = Failed)"
  from create_dicts_inv [OF assms] h have hk: "hash_of k \<noteq> None"
    by (auto simp: elems_inv_def)
  from create_dicts_skipped [OF assms, of k nm] h
  have "pyget k (element_interfaces_by_id T) = Some []"
    "pyget k (element_interfaces_by_name T) = Some []" by blast+
  with hk show "dict_sub (element_interfaces_by_id T) k = Inr []"
    "dict_sub (element_interfaces_by_name T) k = Inr []"
    by (simp_all add: dict_sub_pyget)
next
  assume "dict_contains (elem_name_id T) (JStr src_element)
         \<and> dict_contains (elem_name_id T) (arg_value dst_element)"
  with resolve_elements_total [OF create_dicts_inv [OF assms]]
  show "\<exists>E a b. resolve_elements T src_element dst_element = ([], Inr E)
               \<and> dict_sub (element_interfaces_by_id T) (src_eid E) = Inr a
               \<and> dict_sub (element_interfaces_by_name T) (dst_eid E) = Inr b"
    by blast
next
  assume "dict_sub (element_interfaces_by_id T) (src_eid E') = Inr []
         \<and> truthy (rec_get nh ''nexthop_interface_id'')
         \<and> hash_of (rec_get nh ''nexthop_interface_id'') \<noteq> None
         \<and> rec_sub p ''destination_prefix'' = Inr pfx"
  then show "nexthop_step T E' p (JObj nh)
             = ([WARN_if_no_name (rec_get nh ''nexthop_interface_id'') pfx], Inr (JObj nh))"
    using nexthop_step_empty_source by blast
qed

theorem interface_tables_cover_every_element_witness:
  "snd (create_dicts ex_session_partial) = Inr ex_tables_partial
   \<and> (\<exists>a b. dict_sub (element_interfaces_by_id ex_tables_partial) (JStr ''eC'') = Inr a
           \<and> dict_sub (element_interfaces_by_name ex_tables_partial) (JStr ''eC'') = Inr b)
   \<and> dict_sub (element_interfaces_by_id ex_tables_partial) (JStr ''eA'') = Inr []
   \<and> dict_sub (element_interfaces_by_name ex_tables_partial) (JStr ''eA'') = Inr []
   \<and> (\<exists>E a b. resolve_elements ex_tables_partial ''ION-A'' (Some ''ION-B'') = ([], Inr E)
           \<and> dict_sub (element_interfaces_by_id ex_tables_partial) (src_eid E) = Inr a
           \<and> dict_sub (element_interfaces_by_name ex_tables_partial) (dst_eid E) = Inr b)
   \<and> nexthop_step ex_tables_partial ex_ends [(''destination_prefix'', JStr ''10.0.0.0/8'')]
        (JObj [(''nexthop_interface_id'', JStr ''i1'')])
      = ([WARN_if_no_name (JStr ''i1'') (JStr ''10.0.0.0/8'')],
         Inr (JObj [(''nexthop_interface_id'', JStr ''i1'')]))"
proof -
  have built: "snd (create_dicts ex_session_partial) = Inr ex_tables_partial"
    by (simp add: ex_tables_partial_built)
  note t = interface_tables_cover_every_element [OF built,
      where es = "[[(''id'', JStr ''eA''), (''name'', JStr ''ION-A''), (''site_id'', JStr ''sA''),
         (''model_name'', JStr ''ion 3000'')],
        [(''id'', JStr ''eB''), (''name'', JStr ''ION-B''), (''site_id'', JStr ''sB''),
         (''model_name'', JStr ''ion 3000'')],
        [(''id'', JStr ''eC''), (''name'', JStr ''ION-C''), (''site_id'', JNull),
         (''model_name'', JStr ''ion 1000'')]]"
      and e = "[(''id'', JStr ''eC''), (''name'', JStr ''ION-C''), (''site_id'', JNull),
         (''model_name'', JStr ''ion 1000'')]"
      and k = "JStr ''eA''" and nm = "JStr ''ION-A''"
      and src_element = "''ION-A''" and dst_element = "Some ''ION-B''"
      and E' = ex_ends and nh = "[(''nexthop_interface_id'', JStr ''i1'')]"
      and p = "[(''destination_prefix'', JStr ''10.0.0.0/8'')]" and pfx = "JStr ''10.0.0.0/8''"]
  have 1: "get_elements ex_session_partial = Listing
       [[(''id'', JStr ''eA''), (''name'', JStr ''ION-A''), (''site_id'', JStr ''sA''),
         (''model_name'', JStr ''ion 3000'')],
        [(''id'', JStr ''eB''), (''name'', JStr ''ION-B''), (''site_id'', JStr ''sB''),
         (''model_name'', JStr ''ion 3000'')],
        [(''id'', JStr ''eC''), (''name'', JStr ''ION-C''), (''site_id'', JNull),
         (''model_name'', JStr ''ion 1000'')]]"
    by (simp add: ex_session_partial_def)
  have 2: "(JStr ''eA'', JStr ''ION-A'') \<in> set (elem_id_name ex_tables_partial)"
    "get_interfaces ex_session_partial (JStr ''eA'')
       (case pyget (JStr ''eA'') (elemid_siteid ex_tables_partial) of None \<Rightarrow> JNull
        | Some s \<Rightarrow> s) = Failed"
    by (simp_all add: ex_tables_partial_def ex_session_partial_def)
  have 3: "dict_contains (elem_name_id ex_tables_partial) (JStr ''ION-A'')"
    "dict_contains (elem_name_id ex_tables_partial) (arg_value (Some ''ION-B''))"
    by (simp_all add: ex_tables_partial_def dict_contains_def arg_value_def)
  have 4: "dict_sub (element_interfaces_by_id ex_tables_partial) (src_eid ex_ends) = Inr []"
    "truthy (rec_get [(''nexthop_interface_id'', JStr ''i1'')] ''nexthop_interface_id'')"
    "hash_of (rec_get [(''nexthop_interface_id'', JStr ''i1'')] ''nexthop_interface_id'') \<noteq> None"
    "rec_sub [(''destination_prefix'', JStr ''10.0.0.0/8'')] ''destination_prefix''
       = Inr (JStr ''10.0.0.0/8'')"
    by (simp_all add: ex_tables_partial_def ex_ends_def py_defs)
  from t built 1 2 3 4 show ?thesis
    by (simp add: rec_get_def)
qed

lemma create_dicts_quiet:
  "snd (create_dicts (sess\<lparr> get_interfaces := quiet (get_interfaces sess) \<rparr>))
     = snd (create_dicts sess)"
proof (cases "get_elements sess")
  case Failed
  then show ?thesis by (simp add: create_dicts_def)
next
  case (Listing es)
  note es = this
  show ?thesis
  proof (cases "elem_loop empty_tables es")
    case (Inl e)
    with es show ?thesis by (simp add: create_dicts_def)
  next
    case (Inr T1)
    note T1 = this
    show ?thesis
    proof (cases "get_vrfcontexts sess")
      case Failed
      with es T1 show ?thesis by (simp add: create_dicts_def)
    next
      case (Listing vs)
      with es T1 show ?thesis
        by (cases "vrf_loop T1 vs") (simp_all add: create_dicts_def dev_loop_quiet)
    qed
  qed
qed

lemma create_dicts_total:
  assumes "get_elements sess = Listing es" "elem_loop empty_tables es = Inr T1"
    "get_vrfcontexts sess = Listing vs" "vrf_loop T1 vs = Inr T2"
    "\<forall>e s. case get_interfaces sess e s of Failed \<Rightarrow> True
           | Listing items \<Rightarrow> list_all listed_ok items"
  shows "\<exists>T. snd (create_dicts sess) = Inr T"
proof -
  have inv1: "elems_inv T1" using elem_loop_inv [OF assms(2) elems_inv_empty] .
  have inv2: "elems_inv T2"
    by (rule elems_inv_frame [OF inv1]) (use vrf_loop_frame [OF assms(4)] in simp_all)
  then have "\<forall>kv \<in> set (elem_id_name T2). hash_of (fst kv) \<noteq> None
        \<and> dict_contains (element_interfaces_by_id T2) (fst kv)
        \<and> dict_contains (element_interfaces_by_name T2) (fst kv)"
    by (simp add: elems_inv_def)
  from dev_loop_total [OF this assms(5)] assms(1-4) show ?thesis
    by (simp add: create_dicts_def)
qed

text \<open>
  C8. A failed device listing, and a failed VRF listing after a well-formed device listing,
  end \<open>create_dicts\<close> with \<open>sys.exit(1)\<close>. Failed interface listings do not: the
  outcome (the dictionaries, or the error) is the one obtained when each failed listing is
  answered by an empty one, and \<open>create_dicts\<close> returns its dictionaries whenever the
  device and VRF listings are processed and every interface listing that succeeds holds
  records with an id and a name, whatever listings fail and whatever site ids are missing.
  An element whose site id is falsy, or whose interface listing failed, keeps two empty
  interface dictionaries, and its diagnostic (a warning, respectively an error line) is
  printed.
\<close>

theorem create_dicts_failure_modes:
  "(get_elements sess = Failed \<longrightarrow> create_dicts sess = ([ERR_elements], Inl (SystemExit 1)))
   \<and> (get_elements sess = Listing es \<and> elem_loop empty_tables es = Inr T1
       \<and> get_vrfcontexts sess = Failed
      \<longrightarrow> create_dicts sess = ([ERR_vrfs], Inl (SystemExit 1)))
   \<and> snd (create_dicts (sess\<lparr> get_interfaces := quiet (get_interfaces sess) \<rparr>))
       = snd (create_dicts sess)
   \<and> (get_elements sess = Listing es \<and> elem_loop empty_tables es = Inr T1
       \<and> get_vrfcontexts sess = Listing vs \<and> vrf_loop T1 vs = Inr T2
       \<and> (\<forall>e s. case get_interfaces sess e s of Failed \<Rightarrow> True
                 | Listing items \<Rightarrow> list_all listed_ok items)
      \<longrightarrow> (\<exists>T. snd (create_dicts sess) = Inr T))
   \<and> (snd (create_dicts sess) = Inr T \<and> (k, nm) \<in> set (elem_id_name T)
       \<and> (\<not> truthy (case pyget k (elemid_siteid T) of None \<Rightarrow> JNull | Some s \<Rightarrow> s)
          \<or> get_interfaces sess k
               (case pyget k (elemid_siteid T) of None \<Rightarrow> JNull | Some s \<Rightarrow> s) = Failed)
      \<longrightarrow> pyget k (element_interfaces_by_id T) = Some []
          \<and> pyget k (element_interfaces_by_name T) = Some []
          \<and> (if truthy (case pyget k (elemid_siteid T) of None \<Rightarrow> JNull | Some s \<Rightarrow> s)
              then ERR_interfaces_of nm k else WARN_no_site_id nm k)
             \<in> set (fst (create_dicts sess)))"
proof (intro conjI impI)
  assume "get_elements sess = Failed"
  then show "create_dicts sess = ([ERR_elements], Inl (SystemExit 1))"
    by (simp add: create_dicts_def)
next
  assume "get_elements sess = Listing es \<and> elem_loop empty_tables es = Inr T1
       \<and> get_vrfcontexts sess = Failed"
  then show "create_dicts sess = ([ERR_vrfs], Inl (SystemExit 1))"
    by (simp add: create_dicts_def)
next
  show "snd (create_dicts (sess\<lparr> get_interfaces := quiet (get_interfaces sess) \<rparr>))
       = snd (create_dicts sess)" by (rule create_dicts_quiet)
next
  assume "get_elements sess = Listing es \<and> elem_loop empty_tables es = Inr T1
       \<and> get_vrfcontexts sess = Listing vs \<and> vrf_loop T1 vs = Inr T2
       \<and> (\<forall>e s. case get_interfaces sess e s of Failed \<Rightarrow> True
                 | Listing items \<Rightarrow> list_all listed_ok items)"
  then show "\<exists>T. snd (create_dicts sess) = Inr T"
    using create_dicts_total by blast
next
  assume h: "snd (create_dicts sess) = Inr T \<and> (k, nm) \<in> set (elem_id_name T)
       \<and> (\<not> truthy (case pyget k (elemid_siteid T) of None \<Rightarrow> JNull | Some s \<Rightarrow> s)
          \<or> get_interfaces sess k
               (case pyget k (elemid_siteid T) of None \<Rightarrow> JNull | Some s \<Rightarrow> s) = Failed)"
  then have a: "snd (create_dicts sess) = Inr T" and b: "(k, nm) \<in> set (elem_id_name T)"
    and c: "\<not> truthy (case pyget k (elemid_siteid T) of None \<Rightarrow> JNull | Some s \<Rightarrow> s)
          \<or> get_interfaces sess k
               (case pyget k (elemid_siteid T) of None \<Rightarrow> JNull | Some s \<Rightarrow> s) = Failed"
    by blast+
  note r = create_dicts_skipped [OF a b c]
  from r show "pyget k (element_interfaces_by_id T) = Some []" by blast
  from r show "pyget k (element_interfaces_by_name T) = Some []" by blast
  from r show "(if truthy (case pyget k (elemid_siteid T) of None \<Rightarrow> JNull | Some s \<Rightarrow> s)
              then ERR_interfaces_of nm k else WARN_no_site_id nm k)
             \<in> set (fst (create_dicts sess))" by blast
qed

theorem create_dicts_failure_modes_witness:
  "create_dicts (ex_session\<lparr> get_elements := Failed \<rparr>) = ([ERR_elements], Inl (SystemExit 1))
   \<and> create_dicts (ex_session\<lparr> get_vrfcontexts := Failed \<rparr>) = ([ERR_vrfs], Inl (SystemExit 1))
   \<and> (\<exists>T. snd (create_dicts ex_session_partial) = Inr T)
   \<and> pyget (JStr ''eA'') (element_interfaces_by_id ex_tables_partial) = Some []
   \<and> pyget (JStr ''eA'') (element_interfaces_by_name ex_tables_partial) = Some []
   \<and> ERR_interfaces_of (JStr ''ION-A'') (JStr ''eA'') \<in> set (fst (create_dicts ex_session_partial))
   \<and> pyget (JStr ''eC'') (element_interfaces_by_id ex_tables_partial) = Some []
   \<and> WARN_no_site_id (JStr ''ION-C'') (JStr ''eC'') \<in> set (fst (create_dicts ex_session_partial))
   \<and> pyget (JStr ''eB'') (element_interfaces_by_id ex_tables_partial)
       = Some [(JStr ''i2'', JStr ''vlan10'')]"
proof -
  have built: "snd (create_dicts ex_session_partial) = Inr ex_tables_partial"
    by (simp add: ex_tables_partial_built)
  have 1: "create_dicts (ex_session\<lparr> get_elements := Failed \<rparr>)
             = ([ERR_elements], Inl (SystemExit 1))"
    using create_dicts_failure_modes [where sess = "ex_session\<lparr> get_elements := Failed \<rparr>"]
    by simp
  have el: "elem_loop empty_tables
      [[(''id'', JStr ''eA''), (''name'', JStr ''ION-A''), (''site_id'', JStr ''sA''),
         (''model_name'', JStr ''ion 3000'')],
        [(''id'', JStr ''eB''), (''name'', JStr ''ION-B''), (''site_id'', JStr ''sB''),
         (''model_name'', JStr ''ion 3000'')]]
      = Inr (ex_tables\<lparr> element_interfaces_by_id := [(JStr ''eA'', []), (JStr ''eB'', [])],
               element_interfaces_by_name := [(JStr ''eA'', []), (JStr ''eB'', [])],
               global_id_vfr := [], global_name_vfr := [] \<rparr>)"
    by (simp add: ex_tables_def empty_tables_def elem_step_def py_defs)
  have 2: "create_dicts (ex_session\<lparr> get_vrfcontexts := Failed \<rparr>)
             = ([ERR_vrfs], Inl (SystemExit 1))"
    using create_dicts_failure_modes [where sess = "ex_session\<lparr> get_vrfcontexts := Failed \<rparr>"
        and es = "[[(''id'', JStr ''eA''), (''name'', JStr ''ION-A''), (''site_id'', JStr ''sA''),
         (''model_name'', JStr ''ion 3000'')],
        [(''id'', JStr ''eB''), (''name'', JStr ''ION-B''), (''site_id'', JStr ''sB''),
         (''model_name'', JStr ''ion 3000'')]]"
        and ?T1.0 = "ex_tables\<lparr> element_interfaces_by_id := [(JStr ''eA'', []), (JStr ''eB'', [])],
               element_interfaces_by_name := [(JStr ''eA'', []), (JStr ''eB'', [])],
               global_id_vfr := [], global_name_vfr := [] \<rparr>"] el
    by (simp add: ex_session_def)
  have 3: "pyget (JStr ''eA'') (element_interfaces_by_id ex_tables_partial) = Some []
     \<and> pyget (JStr ''eA'') (element_interfaces_by_name ex_tables_partial) = Some []
     \<and> ERR_interfaces_of (JStr ''ION-A'') (JStr ''eA'')
         \<in> set (fst (create_dicts ex_session_partial))"
    using create_dicts_failure_modes [where sess = ex_session_partial
        and T = ex_tables_partial and k = "JStr ''eA''" and nm = "JStr ''ION-A''"] built
    by (simp add: ex_tables_partial_def ex_session_partial_def)
  have 4: "pyget (JStr ''eC'') (element_interfaces_by_id ex_tables_partial) = Some []
     \<and> WARN_no_site_id (JStr ''ION-C'') (JStr ''eC'')
         \<in> set (fst (create_dicts ex_session_partial))"
    using create_dicts_failure_modes [where sess = ex_session_partial
        and T = ex_tables_partial and k = "JStr ''eC''" and nm = "JStr ''ION-C''"] built
    by (simp add: ex_tables_partial_def ex_session_partial_def)
  have 5: "pyget (JStr ''eB'') (element_interfaces_by_id ex_tables_partial)
       = Some [(JStr ''i2'', JStr ''vlan10'')]"
    by (simp add: ex_tables_partial_def)
  have el': "elem_loop empty_tables
      [[(''id'', JStr ''eA''), (''name'', JStr ''ION-A''), (''site_id'', JStr ''sA''),
         (''model_name'', JStr ''ion 3000'')],
        [(''id'', JStr ''eB''), (''name'', JStr ''ION-B''), (''site_id'', JStr ''sB''),
         (''model_name'', JStr ''ion 3000'')],
        [(''id'', JStr ''eC''), (''name'', JStr ''ION-C''), (''site_id'', JNull),
         (''model_name'', JStr ''ion 1000'')]]
      = Inr (ex_tables_partial\<lparr>
               element_interfaces_by_id := [(JStr ''eA'', []), (JStr ''eB'', []), (JStr ''eC'', [])],
               element_interfaces_by_name :=
                 [(JStr ''eA'', []), (JStr ''eB'', []), (JStr ''eC'', [])],
               global_id_vfr := [], global_name_vfr := [] \<rparr>)"
    by (simp add: ex_tables_partial_def empty_tables_def elem_step_def py_defs)
  have vl: "vrf_loop (ex_tables_partial\<lparr>
               element_interfaces_by_id := [(JStr ''eA'', []), (JStr ''eB'', []), (JStr ''eC'', [])],
               element_interfaces_by_name :=
                 [(JStr ''eA'', []), (JStr ''eB'', []), (JStr ''eC'', [])],
               global_id_vfr := [], global_name_vfr := [] \<rparr>)
             [[(''id'', JStr ''v1''), (''name'', JStr ''CORP'')]]
      = Inr (ex_tables_partial\<lparr>
               element_interfaces_by_id := [(JStr ''eA'', []), (JStr ''eB'', []), (JStr ''eC'', [])],
               element_interfaces_by_name :=
                 [(JStr ''eA'', []), (JStr ''eB'', []), (JStr ''eC'', [])] \<rparr>)"
    by (simp add: ex_tables_partial_def vrf_step_def py_defs)
  have ok: "\<forall>e s. case get_interfaces ex_session_partial e s of Failed \<Rightarrow> True
                 | Listing items \<Rightarrow> list_all listed_ok items"
    by (simp add: ex_session_partial_def listed_ok_def)
  have 6: "\<exists>T. snd (create_dicts ex_session_partial) = Inr T"
    using create_dicts_failure_modes [where sess = ex_session_partial
        and es = "[[(''id'', JStr ''eA''), (''name'', JStr ''ION-A''), (''site_id'', JStr ''sA''),
         (''model_name'', JStr ''ion 3000'')],
        [(''id'', JStr ''eB''), (''name'', JStr ''ION-B''), (''site_id'', JStr ''sB''),
         (''model_name'', JStr ''ion 3000'')],
        [(''id'', JStr ''eC''), (''name'', JStr ''ION-C''), (''site_id'', JNull),
         (''model_name'', JStr ''ion 1000'')]]"
        and vs = "[[(''id'', JStr ''v1''), (''name'', JStr ''CORP'')]]"
        and ?T1.0 = "ex_tables_partial\<lparr>
               element_interfaces_by_id := [(JStr ''eA'', []), (JStr ''eB'', []), (JStr ''eC'', [])],
               element_interfaces_by_name :=
                 [(JStr ''eA'', []), (JStr ''eB'', []), (JStr ''eC'', [])],
               global_id_vfr := [], global_name_vfr := [] \<rparr>"
        and ?T2.0 = "ex_tables_partial\<lparr>
               element_interfaces_by_id := [(JStr ''eA'', []), (JStr ''eB'', []), (JStr ''eC'', [])],
               element_interfaces_by_name :=
                 [(JStr ''eA'', []), (JStr ''eB'', []), (JStr ''eC'', [])] \<rparr>"]
      el' vl ok
    by (simp add: ex_session_partial_def)
  from 1 2 3 4 5 6 show ?thesis by blast
qed

section \<open>The VRF reference of a route\<close>

lemma truthy_hash: "hash_of a = hash_of b \<Longrightarrow> hash_of a \<noteq> None \<Longrightarrow> truthy a = truthy b"
  by (cases a; cases b) (auto split: if_splits)

lemma hash_of_JStr: "hash_of v = hash_of (JStr x) \<Longrightarrow> v = JStr x"
  by (cases v) (auto split: if_splits)

lemma rec_sub_sanitize:
  "k \<notin> set BASE_DELETE_ATTRS \<Longrightarrow> rec_sub (sanitize r) k = rec_sub r k"
  by (simp add: rec_sub_def map_of_sanitize)

lemma elem_loop_globals:
  "elem_loop T es = Inr T' \<Longrightarrow>
   global_id_vfr T' = global_id_vfr T \<and> global_name_vfr T' = global_name_vfr T"
proof (induction es arbitrary: T)
  case Nil
  then show ?case by simp
next
  case (Cons e es)
  from Cons.prems obtain T1 where s: "elem_step T e = Inr T1" and l: "elem_loop T1 es = Inr T'"
    by (auto simp: bnd_def split: sum.splits)
  from elem_stepD [OF s] have "global_id_vfr T1 = global_id_vfr T"
    "global_name_vfr T1 = global_name_vfr T" by auto
  with Cons.IH [OF l] show ?case by simp
qed

lemma vrf_step_roundtrip:
  assumes "vrf_step T v = Inr T'"
    "vrf_roundtrip (global_id_vfr T) (global_name_vfr T)"
    "pyget (rec_get v ''name'') (global_name_vfr T) = None"
  shows "vrf_roundtrip (global_id_vfr T') (global_name_vfr T')"
    and "hash_of (rec_get x ''name'') \<noteq> hash_of (rec_get v ''name'') \<Longrightarrow>
         pyget (rec_get x ''name'') (global_name_vfr T')
           = pyget (rec_get x ''name'') (global_name_vfr T)"
proof -
  from vrf_stepD [OF assms(1)] obtain name vid where
    n: "rec_sub v ''name'' = Inr name" and h: "hash_of vid \<noteq> None" "hash_of name \<noteq> None"
    and T': "T' = T\<lparr> global_id_vfr := pyset vid name (global_id_vfr T),
                global_name_vfr := pyset name vid (global_name_vfr T) \<rparr>"
    by blast
  have g: "rec_get v ''name'' = name" using n by (rule rec_sub_get)
  show "hash_of (rec_get x ''name'') \<noteq> hash_of (rec_get v ''name'') \<Longrightarrow>
         pyget (rec_get x ''name'') (global_name_vfr T')
           = pyget (rec_get x ''name'') (global_name_vfr T)"
    by (auto simp: T' g pyget_pyset)
  show "vrf_roundtrip (global_id_vfr T') (global_name_vfr T')"
    unfolding vrf_roundtrip_def
  proof (intro allI impI)
    fix s n assume a: "pyget s (global_id_vfr T') = Some n"
    show "hash_of s \<noteq> None \<and> hash_of n \<noteq> None
        \<and> (\<exists>v. pyget n (global_name_vfr T') = Some v \<and> hash_of v = hash_of s)"
    proof (cases "hash_of vid = hash_of s")
      case True
      with a have "n = name" by (simp add: T' pyget_pyset)
      with True h show ?thesis by (simp add: T' pyget_pyset)
    next
      case False
      with a have old: "pyget s (global_id_vfr T) = Some n" by (simp add: T' pyget_pyset)
      with assms(2) obtain w where w: "hash_of s \<noteq> None" "hash_of n \<noteq> None"
        "pyget n (global_name_vfr T) = Some w" "hash_of w = hash_of s"
        unfolding vrf_roundtrip_def by blast
      have "hash_of name \<noteq> hash_of n"
      proof
        assume "hash_of name = hash_of n"
        from pyget_cong [OF this, of "global_name_vfr T"] assms(3) g w(3) show False by simp
      qed
      with w show ?thesis by (simp add: T' pyget_pyset)
    qed
  qed
qed

lemma vrf_loop_roundtrip:
  "vrf_loop T vs = Inr T' \<Longrightarrow>
   vrf_roundtrip (global_id_vfr T) (global_name_vfr T) \<Longrightarrow>
   distinct (map (\<lambda>x. hash_of (rec_get x ''name'')) vs) \<Longrightarrow>
   \<forall>x \<in> set vs. pyget (rec_get x ''name'') (global_name_vfr T) = None \<Longrightarrow>
   vrf_roundtrip (global_id_vfr T') (global_name_vfr T')"
proof (induction vs arbitrary: T)
  case Nil
  then show ?case by simp
next
  case (Cons v vs)
  from Cons.prems(1) obtain T1 where s: "vrf_step T v = Inr T1" and l: "vrf_loop T1 vs = Inr T'"
    by (auto simp: bnd_def split: sum.splits)
  from Cons.prems(4) have fresh: "pyget (rec_get v ''name'') (global_name_vfr T) = None"
    by simp
  note st = vrf_step_roundtrip [OF s Cons.prems(2) fresh]
  have "\<forall>x \<in> set vs. pyget (rec_get x ''name'') (global_name_vfr T1) = None"
  proof
    fix x assume x: "x \<in> set vs"
    with Cons.prems(3) have "hash_of (rec_get x ''name'') \<noteq> hash_of (rec_get v ''name'')"
      by (auto simp: image_iff)
    from st(2) [OF this] Cons.prems(4) x
    show "pyget (rec_get x ''name'') (global_name_vfr T1) = None" by simp
  qed
  with Cons.IH [OF l st(1)] Cons.prems(3) show ?case by simp
qed

lemma create_dicts_roundtrip:
  assumes "snd (create_dicts sess) = Inr T" "get_vrfcontexts sess = Listing vs"
    "distinct (map (\<lambda>x. hash_of (rec_get x ''name'')) vs)"
  shows "vrf_roundtrip (global_id_vfr T) (global_name_vfr T)"
proof -
  from assms(1) obtain es T1 vs' T2 where
    h: "elem_loop empty_tables es = Inr T1" "get_vrfcontexts sess = Listing vs'"
    "vrf_loop T1 vs' = Inr T2"
    "dev_loop (get_interfaces sess) T2 (elem_id_name T2) = (fst (create_dicts sess), Inr T)"
    by (rule create_dicts_Inr)
  from h(2) assms(2) have eq: "vs' = vs" by simp
  from elem_loop_globals [OF h(1)]
  have e: "global_id_vfr T1 = []" "global_name_vfr T1 = []" by (simp_all add: empty_tables_def)
  then have "vrf_roundtrip (global_id_vfr T1) (global_name_vfr T1)"
    by (simp add: vrf_roundtrip_def)
  from vrf_loop_roundtrip [OF h(3) [unfolded eq] this assms(3)] e
  have "vrf_roundtrip (global_id_vfr T2) (global_name_vfr T2)" by simp
  with dev_loop_frame [OF h(4)] show ?thesis by simp
qed

lemma vrf_part_none:
  "\<not> truthy (rec_get p ''vrf_context_id'') \<Longrightarrow> vrf_part T p = ([], Inr (Some p))"
  by (simp add: vrf_part_def)

lemma vrf_part_no_name:
  "truthy (rec_get p ''vrf_context_id'') \<Longrightarrow>
   dict_get (global_id_vfr T) (rec_get p ''vrf_context_id'') = Inr n \<Longrightarrow> \<not> truthy n \<Longrightarrow>
   rec_sub p ''destination_prefix'' = Inr pfx \<Longrightarrow>
   vrf_part T p = ([WARN_vrf_no_name (rec_get p ''vrf_context_id'') pfx], Inr None)"
  by (simp add: vrf_part_def)

lemma vrf_part_not_global:
  "truthy (rec_get p ''vrf_context_id'') \<Longrightarrow>
   dict_get (global_id_vfr T) (rec_get p ''vrf_context_id'') = Inr n \<Longrightarrow> truthy n \<Longrightarrow>
   dict_get (global_name_vfr T) n = Inr v \<Longrightarrow> \<not> truthy v \<Longrightarrow>
   rec_sub p ''destination_prefix'' = Inr pfx \<Longrightarrow>
   vrf_part T p = ([WARN_vrf_not_global n (rec_get p ''vrf_context_id'') pfx], Inr None)"
  by (simp add: vrf_part_def)

lemma vrf_part_rewritten:
  "truthy (rec_get p ''vrf_context_id'') \<Longrightarrow>
   dict_get (global_id_vfr T) (rec_get p ''vrf_context_id'') = Inr n \<Longrightarrow> truthy n \<Longrightarrow>
   dict_get (global_name_vfr T) n = Inr v \<Longrightarrow> truthy v \<Longrightarrow>
   vrf_part T p = ([], Inr (Some (rec_store ''vrf_context_id'' v p)))"
  by (simp add: vrf_part_def)

lemma dict_get_pyget: "hash_of k \<noteq> None \<Longrightarrow> pyget k d = Some v \<Longrightarrow> dict_get d k = Inr v"
  by (auto simp: dict_get_def dict_find_def bnd_def)

lemma sanitize_keeps_route_keys:
  "rec_get (sanitize r) ''vrf_context_id'' = rec_get r ''vrf_context_id''"
  "rec_sub (sanitize r) ''destination_prefix'' = rec_sub r ''destination_prefix''"
  "rec_get (sanitize r) ''nexthops'' = rec_get r ''nexthops''"
  "rec_sub (sanitize r) ''name'' = rec_sub r ''name''"
  by (simp_all add: rec_get_sanitize rec_sub_sanitize BASE_DELETE_ATTRS_def)

text \<open>
  C7. A route whose \<open>vrf_context_id\<close> is falsy or absent goes on with its sanitized
  payload as it is. For a truthy reference the id is looked up in \<open>global_id_vfr\<close> and
  the name found in \<open>global_name_vfr\<close>: when the first lookup gives nothing truthy the
  loop body ends with the warning of the unknown source VRF and nothing else (no write);
  when the second gives nothing truthy it ends with the warning that the VRF is not in the
  global list; when both succeed the payload's \<open>vrf_context_id\<close> is set to the id
  found. When the dictionaries come from \<open>create_dicts\<close> over a VRF listing whose names
  are pairwise different keys, an id that has a truthy name is always found again and the
  id written is the same key as the source's (the same string, when it is a string).
\<close>

theorem vrf_reference_rewritten_by_name:
  "(\<not> truthy (rec_get r ''vrf_context_id'')
      \<longrightarrow> vrf_part T (sanitize r) = ([], Inr (Some (sanitize r))))
   \<and> (truthy (rec_get r ''vrf_context_id'')
       \<and> dict_get (global_id_vfr T) (rec_get r ''vrf_context_id'') = Inr n \<and> \<not> truthy n
       \<and> rec_sub r ''destination_prefix'' = Inr pfx
      \<longrightarrow> route_body T E idx ok r
            = ([WARN_vrf_no_name (rec_get r ''vrf_context_id'') pfx], None))
   \<and> (truthy (rec_get r ''vrf_context_id'')
       \<and> dict_get (global_id_vfr T) (rec_get r ''vrf_context_id'') = Inr n \<and> truthy n
       \<and> dict_get (global_name_vfr T) n = Inr v \<and> \<not> truthy v
       \<and> rec_sub r ''destination_prefix'' = Inr pfx
      \<longrightarrow> route_body T E idx ok r
            = ([WARN_vrf_not_global n (rec_get r ''vrf_context_id'') pfx], None))
   \<and> (truthy (rec_get r ''vrf_context_id'')
       \<and> dict_get (global_id_vfr T) (rec_get r ''vrf_context_id'') = Inr n \<and> truthy n
       \<and> dict_get (global_name_vfr T) n = Inr v \<and> truthy v
      \<longrightarrow> vrf_part T (sanitize r)
            = ([], Inr (Some (rec_store ''vrf_context_id'' v (sanitize r)))))
   \<and> (snd (create_dicts sess) = Inr T \<and> get_vrfcontexts sess = Listing vs
       \<and> distinct (map (\<lambda>x. hash_of (rec_get x ''name'')) vs)
       \<and> truthy (rec_get r ''vrf_context_id'')
       \<and> pyget (rec_get r ''vrf_context_id'') (global_id_vfr T) = Some n \<and> truthy n
      \<longrightarrow> (\<exists>w. vrf_part T (sanitize r)
                  = ([], Inr (Some (rec_store ''vrf_context_id'' w (sanitize r))))
               \<and> hash_of w = hash_of (rec_get r ''vrf_context_id'')
               \<and> (\<forall>x. rec_get r ''vrf_context_id'' = JStr x \<longrightarrow> w = JStr x)))"
proof (intro conjI impI)
  assume "\<not> truthy (rec_get r ''vrf_context_id'')"
  then show "vrf_part T (sanitize r) = ([], Inr (Some (sanitize r)))"
    by (simp add: vrf_part_none sanitize_keeps_route_keys)
next
  assume "truthy (rec_get r ''vrf_context_id'')
       \<and> dict_get (global_id_vfr T) (rec_get r ''vrf_context_id'') = Inr n \<and> \<not> truthy n
       \<and> rec_sub r ''destination_prefix'' = Inr pfx"
  then have "vrf_part T (sanitize r)
      = ([WARN_vrf_no_name (rec_get r ''vrf_context_id'') pfx], Inr None)"
    using vrf_part_no_name [of "sanitize r" T n pfx] by (simp add: sanitize_keeps_route_keys)
  then show "route_body T E idx ok r
            = ([WARN_vrf_no_name (rec_get r ''vrf_context_id'') pfx], None)"
    by (simp add: route_body_def)
next
  assume "truthy (rec_get r ''vrf_context_id'')
       \<and> dict_get (global_id_vfr T) (rec_get r ''vrf_context_id'') = Inr n \<and> truthy n
       \<and> dict_get (global_name_vfr T) n = Inr v \<and> \<not> truthy v
       \<and> rec_sub r ''destination_prefix'' = Inr pfx"
  then have "vrf_part T (sanitize r)
      = ([WARN_vrf_not_global n (rec_get r ''vrf_context_id'') pfx], Inr None)"
    using vrf_part_not_global [of "sanitize r" T n v pfx]
    by (simp add: sanitize_keeps_route_keys)
  then show "route_body T E idx ok r
            = ([WARN_vrf_not_global n (rec_get r ''vrf_context_id'') pfx], None)"
    by (simp add: route_body_def)
next
  assume "truthy (rec_get r ''vrf_context_id'')
       \<and> dict_get (global_id_vfr T) (rec_get r ''vrf_context_id'') = Inr n \<and> truthy n
       \<and> dict_get (global_name_vfr T) n = Inr v \<and> truthy v"
  then show "vrf_part T (sanitize r)
            = ([], Inr (Some (rec_store ''vrf_context_id'' v (sanitize r))))"
    using vrf_part_rewritten [of "sanitize r" T n v] by (simp add: sanitize_keeps_route_keys)
next
  assume h: "snd (create_dicts sess) = Inr T \<and> get_vrfcontexts sess = Listing vs
       \<and> distinct (map (\<lambda>x. hash_of (rec_get x ''name'')) vs)
       \<and> truthy (rec_get r ''vrf_context_id'')
       \<and> pyget (rec_get r ''vrf_context_id'') (global_id_vfr T) = Some n \<and> truthy n"
  define s where "s = rec_get r ''vrf_context_id''"
  from h have rt: "vrf_roundtrip (global_id_vfr T) (global_name_vfr T)"
    using create_dicts_roundtrip by blast
  from h have sn: "pyget s (global_id_vfr T) = Some n" and ts: "truthy s" and tn: "truthy n"
    by (simp_all add: s_def)
  from rt sn obtain w where w: "hash_of s \<noteq> None" "hash_of n \<noteq> None"
    "pyget n (global_name_vfr T) = Some w" "hash_of w = hash_of s"
    unfolding vrf_roundtrip_def by blast
  from truthy_hash [OF w(4)] w(1,4) ts have tw: "truthy w" by simp
  have "vrf_part T (sanitize r) = ([], Inr (Some (rec_store ''vrf_context_id'' w (sanitize r))))"
    using vrf_part_rewritten [of "sanitize r" T n w] ts tn tw
      dict_get_pyget [OF w(1) sn] dict_get_pyget [OF w(2) w(3)]
    by (simp add: sanitize_keeps_route_keys s_def)
  moreover have "\<forall>x. s = JStr x \<longrightarrow> w = JStr x"
    using w(4) hash_of_JStr by auto
  ultimately show "\<exists>w. vrf_part T (sanitize r)
                  = ([], Inr (Some (rec_store ''vrf_context_id'' w (sanitize r))))
               \<and> hash_of w = hash_of (rec_get r ''vrf_context_id'')
               \<and> (\<forall>x. rec_get r ''vrf_context_id'' = JStr x \<longrightarrow> w = JStr x)"
    using w(4) unfolding s_def by blast
qed

theorem vrf_reference_rewritten_by_name_witness:
  "vrf_part ex_tables (sanitize [(''destination_prefix'', JStr ''10.0.0.0/8'')])
     = ([], Inr (Some (sanitize [(''destination_prefix'', JStr ''10.0.0.0/8'')])))
   \<and> route_body ex_tables ex_ends [] (accept 0)
        [(''destination_prefix'', JStr ''10.0.0.0/8''), (''vrf_context_id'', JStr ''v7'')]
     = ([WARN_vrf_no_name (JStr ''v7'') (JStr ''10.0.0.0/8'')], None)
   \<and> route_body (ex_tables\<lparr> global_name_vfr := [] \<rparr>) ex_ends [] (accept 0)
        [(''destination_prefix'', JStr ''10.0.0.0/8''), (''vrf_context_id'', JStr ''v1'')]
     = ([WARN_vrf_not_global (JStr ''CORP'') (JStr ''v1'') (JStr ''10.0.0.0/8'')], None)
   \<and> vrf_part ex_tables
        (sanitize [(''destination_prefix'', JStr ''10.0.0.0/8''), (''vrf_context_id'', JStr ''v1'')])
     = ([], Inr (Some (rec_store ''vrf_context_id'' (JStr ''v1'')
          (sanitize [(''destination_prefix'', JStr ''10.0.0.0/8''),
                     (''vrf_context_id'', JStr ''v1'')]))))
   \<and> (\<exists>w. vrf_part ex_tables
        (sanitize [(''destination_prefix'', JStr ''10.0.0.0/8''), (''vrf_context_id'', JStr ''v1'')])
          = ([], Inr (Some (rec_store ''vrf_context_id'' w
              (sanitize [(''destination_prefix'', JStr ''10.0.0.0/8''),
                         (''vrf_context_id'', JStr ''v1'')]))))
        \<and> w = JStr ''v1'')"
proof -
  let ?r0 = "[(''destination_prefix'', JStr ''10.0.0.0/8'')]"
  let ?r1 = "[(''destination_prefix'', JStr ''10.0.0.0/8''), (''vrf_context_id'', JStr ''v7'')]"
  let ?r2 = "[(''destination_prefix'', JStr ''10.0.0.0/8''), (''vrf_context_id'', JStr ''v1'')]"
  have 1: "vrf_part ex_tables (sanitize ?r0) = ([], Inr (Some (sanitize ?r0)))"
    using vrf_reference_rewritten_by_name [where r = ?r0 and T = ex_tables]
    by (simp add: rec_get_def)
  have 2: "route_body ex_tables ex_ends [] (accept 0) ?r1
     = ([WARN_vrf_no_name (JStr ''v7'') (JStr ''10.0.0.0/8'')], None)"
    using vrf_reference_rewritten_by_name [where r = ?r1 and T = ex_tables and n = JNull
        and pfx = "JStr ''10.0.0.0/8''" and E = ex_ends and idx = "[]" and ok = "accept 0"]
    by (simp add: ex_tables_def py_defs)
  have 3: "route_body (ex_tables\<lparr> global_name_vfr := [] \<rparr>) ex_ends [] (accept 0) ?r2
     = ([WARN_vrf_not_global (JStr ''CORP'') (JStr ''v1'') (JStr ''10.0.0.0/8'')], None)"
    using vrf_reference_rewritten_by_name [where r = ?r2
        and T = "ex_tables\<lparr> global_name_vfr := [] \<rparr>" and n = "JStr ''CORP''" and v = JNull
        and pfx = "JStr ''10.0.0.0/8''" and E = ex_ends and idx = "[]" and ok = "accept 0"]
    by (simp add: ex_tables_def py_defs)
  have 4: "vrf_part ex_tables (sanitize ?r2)
     = ([], Inr (Some (rec_store ''vrf_context_id'' (JStr ''v1'') (sanitize ?r2))))"
    using vrf_reference_rewritten_by_name [where r = ?r2 and T = ex_tables
        and n = "JStr ''CORP''" and v = "JStr ''v1''"]
    by (simp add: ex_tables_def py_defs)
  have built: "snd (create_dicts ex_session) = Inr ex_tables"
    by (simp add: ex_tables_built)
  have vs: "get_vrfcontexts ex_session = Listing [[(''id'', JStr ''v1''), (''name'', JStr ''CORP'')]]"
    "distinct (map (\<lambda>x. hash_of (rec_get x ''name''))
        [[(''id'', JStr ''v1''), (''name'', JStr ''CORP'')]])"
    by (simp_all add: ex_session_def)
  have look: "truthy (rec_get ?r2 ''vrf_context_id'')"
    "pyget (rec_get ?r2 ''vrf_context_id'') (global_id_vfr ex_tables) = Some (JStr ''CORP'')"
    "truthy (JStr ''CORP'')"
    by (simp_all add: ex_tables_def rec_get_def)
  have 5: "\<exists>w. vrf_part ex_tables (sanitize ?r2)
          = ([], Inr (Some (rec_store ''vrf_context_id'' w (sanitize ?r2))))
        \<and> w = JStr ''v1''"
    using vrf_reference_rewritten_by_name [where r = ?r2 and T = ex_tables
        and n = "JStr ''CORP''" and sess = ex_session
        and vs = "[[(''id'', JStr ''v1''), (''name'', JStr ''CORP'')]]"] built vs look
    by (auto simp: rec_get_def)
  from 1 2 3 4 5 show ?thesis by blast
qed

section \<open>Create or update\<close>

lemma find_Some_mem: "List.find P xs = Some x \<Longrightarrow> x \<in> set xs \<and> P x"
  by (induction xs) (auto split: if_splits)

lemma index_routes_keys:
  "index_routes d0 dst = Inr idx \<Longrightarrow> x \<in> set dst \<Longrightarrow>
   \<exists>k. map_of x ''destination_prefix'' = Some k \<and> hash_of k \<noteq> None"
proof (induction dst arbitrary: d0)
  case Nil
  then show ?case by simp
next
  case (Cons r rs)
  from Cons.prems(1) obtain kr where kr: "rec_sub r ''destination_prefix'' = Inr kr"
    "hash_of kr \<noteq> None" and rest: "index_routes (pyset kr r d0) rs = Inr idx"
    by (auto simp: bnd_def dict_store_def split: sum.splits option.splits)
  show ?case
  proof (cases "x = r")
    case True
    with kr show ?thesis by (simp add: rec_sub_Inr)
  next
    case False
    with Cons.prems(2) have "x \<in> set rs" by simp
    from Cons.IH [OF rest this] show ?thesis .
  qed
qed

lemma index_routes_values:
  "index_routes d0 dst = Inr idx \<Longrightarrow> r \<in> snd ` set idx \<Longrightarrow>
   r \<in> snd ` set d0 \<or> r \<in> set dst"
proof (induction dst arbitrary: d0)
  case Nil
  then show ?case by simp
next
  case (Cons x xs)
  from Cons.prems(1) obtain kx where rest: "index_routes (pyset kx x d0) xs = Inr idx"
    by (auto simp: bnd_def dict_store_def split: sum.splits option.splits)
  from Cons.IH [OF rest Cons.prems(2)] pyset_values [of kx x d0]
  show ?case by auto
qed

lemma upsert_route_unmatched:
  assumes "index_routes [] dst = Inr idx" "rec_sub p ''destination_prefix'' = Inr k"
    "hash_of k \<noteq> None"
    "List.find (\<lambda>d. hash_of (rec_get d ''destination_prefix'') = hash_of k) (rev dst) = None"
  shows "upsert_route E idx ok p = create_route E ok p"
proof -
  from index_routes_find [OF assms(1), of k] assms(4) have "pyget k idx = None" by simp
  with assms(2,3) show ?thesis
    by (auto simp: upsert_route_def dict_find_def)
qed

lemma upsert_route_matched:
  assumes "index_routes [] dst = Inr idx" "rec_sub p ''destination_prefix'' = Inr k"
    "hash_of k \<noteq> None"
    "List.find (\<lambda>d. hash_of (rec_get d ''destination_prefix'') = hash_of k) (rev dst) = Some d"
  shows "upsert_route E idx ok p = update_route E ok p d" and "d \<in> set dst"
proof -
  from index_routes_find [OF assms(1), of k] assms(4) have g: "pyget k idx = Some d" by simp
  from find_Some_mem [OF assms(4)] show mem: "d \<in> set dst" by simp
  from index_routes_keys [OF assms(1) mem] have "d \<noteq> []" by auto
  with g assms(2,3) show "upsert_route E idx ok p = update_route E ok p d"
    by (auto simp: upsert_route_def dict_find_def)
qed

lemma update_route_writes:
  assumes "rec_sub d ''id'' = Inr i"
    "rec_get d ''_etag'' \<noteq> JNull \<or> map_of p ''name'' \<noteq> None"
  shows "\<exists>p'. writes (fst (update_route E ok p d))
                 = [Put_staticroutes (dst_sid E) (dst_eid E) i p']
             \<and> snd (update_route E ok p d) = None
             \<and> length (fst (update_route E ok p d)) \<le> 2
             \<and> map_of p' ''id'' = Some i
             \<and> map_of p' ''_etag''
                 = (if rec_get d ''_etag'' \<noteq> JNull then Some (rec_get d ''_etag'')
                    else map_of p ''_etag'')
             \<and> (\<forall>f. f \<noteq> ''id'' \<and> f \<noteq> ''_etag'' \<longrightarrow> map_of p' f = map_of p f)"
proof (cases "rec_get d ''_etag'' \<noteq> JNull")
  case True
  with assms(1) show ?thesis
    by (simp add: update_route_def Let_def map_of_rec_store)
next
  case False
  with assms(2) obtain nm where "rec_sub p ''name'' = Inr nm"
    by (auto simp: rec_sub_def)
  with False assms(1) show ?thesis
    by (simp add: update_route_def Let_def bnd_def map_of_rec_store)
qed

lemma create_route_payload:
  "create_route E ok p
     = ([Write (Post_staticroutes (dst_sid E) (dst_eid E) (rec_pop ''_etag'' (rec_pop ''id'' p)))
           (ok (Post_staticroutes (dst_sid E) (dst_eid E)
                  (rec_pop ''_etag'' (rec_pop ''id'' p))))], None)
   \<and> map_of (rec_pop ''_etag'' (rec_pop ''id'' p)) ''id'' = None
   \<and> map_of (rec_pop ''_etag'' (rec_pop ''id'' p)) ''_etag'' = None"
  by (simp add: create_route_def Let_def map_of_rec_pop)

lemma index_interfaces_keys:
  "index_interfaces d0 dst = Inr idx \<Longrightarrow> x \<in> set dst \<Longrightarrow>
   \<exists>t. map_of x ''type'' = Some t"
proof (induction dst arbitrary: d0)
  case Nil
  then show ?case by simp
next
  case (Cons r rs)
  from Cons.prems(1) obtain t where t: "rec_sub r ''type'' = Inr t"
    by (auto simp: bnd_def split: sum.splits)
  from Cons.prems(1) t obtain d1 where rest: "index_interfaces d1 rs = Inr idx"
    by (auto simp: bnd_def dict_store_def split: sum.splits option.splits if_splits)
  show ?case
  proof (cases "x = r")
    case True
    with t show ?thesis by (simp add: rec_sub_Inr)
  next
    case False
    with Cons.prems(2) have "x \<in> set rs" by simp
    from Cons.IH [OF rest this] show ?thesis .
  qed
qed

lemma intf_body_unmatched:
  assumes "index_interfaces [] dst = Inr idx" "rec_sub intf ''type'' = Inr t" "copied_type t"
    "rec_sub intf ''name'' = Inr k" "hash_of k \<noteq> None"
    "List.find (\<lambda>d. copied_type (rec_get d ''type'')
                   \<and> hash_of (rec_get d ''name'') = hash_of k) (rev dst) = None"
  shows "intf_body E idx ok intf = create_interface E ok (sanitize intf)"
proof -
  from index_interfaces_find [OF assms(1), of k] assms(6) have "pyget k idx = None" by simp
  moreover have "rec_sub (sanitize intf) ''name'' = Inr k"
    using assms(4) by (simp add: rec_sub_sanitize BASE_DELETE_ATTRS_def)
  ultimately show ?thesis using assms(2,3,5)
    by (auto simp: intf_body_def dict_find_def Let_def)
qed

lemma intf_body_matched:
  assumes "index_interfaces [] dst = Inr idx" "rec_sub intf ''type'' = Inr t" "copied_type t"
    "rec_sub intf ''name'' = Inr k" "hash_of k \<noteq> None"
    "List.find (\<lambda>d. copied_type (rec_get d ''type'')
                   \<and> hash_of (rec_get d ''name'') = hash_of k) (rev dst) = Some d"
  shows "intf_body E idx ok intf = update_interface E ok (sanitize intf) d" and "d \<in> set dst"
proof -
  from index_interfaces_find [OF assms(1), of k] assms(6) have g: "pyget k idx = Some d"
    by simp
  from find_Some_mem [OF assms(6)] show mem: "d \<in> set dst" by simp
  from index_interfaces_keys [OF assms(1) mem] have ne: "d \<noteq> []" by auto
  have "rec_sub (sanitize intf) ''name'' = Inr k"
    using assms(4) by (simp add: rec_sub_sanitize BASE_DELETE_ATTRS_def)
  with g ne assms(2,3,5) show "intf_body E idx ok intf = update_interface E ok (sanitize intf) d"
    by (auto simp: intf_body_def dict_find_def Let_def)
qed

lemma update_interface_payload:
  assumes "rec_sub d ''id'' = Inr i" "map_of p ''name'' \<noteq> None"
  shows "\<exists>p'. writes (fst (update_interface E ok p d))
                 = [Put_interfaces (dst_sid E) (dst_eid E) i p']
             \<and> snd (update_interface E ok p d) = None
             \<and> length (fst (update_interface E ok p d)) \<le> 2
             \<and> map_of p' ''id'' = Some i
             \<and> map_of p' ''_etag''
                 = (if rec_get d ''_etag'' \<noteq> JNull then Some (rec_get d ''_etag'')
                    else map_of p ''_etag'')
             \<and> (\<forall>f. f \<noteq> ''id'' \<and> f \<noteq> ''_etag'' \<longrightarrow> map_of p' f = map_of p f)"
proof (cases "rec_get d ''_etag'' \<noteq> JNull")
  case True
  with assms(1) show ?thesis
    by (simp add: update_interface_def Let_def map_of_rec_store)
next
  case False
  from assms(2) obtain nm where "rec_sub p ''name'' = Inr nm"
    by (auto simp: rec_sub_def)
  with False assms(1) show ?thesis
    by (simp add: update_interface_def Let_def bnd_def map_of_rec_store)
qed

lemma create_interface_payload:
  "create_interface E ok p
     = ([Write (Post_interfaces (dst_sid E) (dst_eid E) (rec_pop ''_etag'' (rec_pop ''id'' p)))
           (ok (Post_interfaces (dst_sid E) (dst_eid E)
                  (rec_pop ''_etag'' (rec_pop ''id'' p))))], None)
   \<and> map_of (rec_pop ''_etag'' (rec_pop ''id'' p)) ''id'' = None
   \<and> map_of (rec_pop ''_etag'' (rec_pop ''id'' p)) ''_etag'' = None"
  by (simp add: create_interface_def Let_def map_of_rec_pop)

text \<open>
  The payload that reaches the write step is looked up in the destination index by its
  natural key alone (\<open>destination_prefix\<close> for a route, \<open>name\<close> for an interface of
  a copied type); the index answers with the last record of the destination listing that
  has this key (for interfaces: among those of a copied type). When there is none, the step
  is exactly one create call, scoped to the destination site and element, whose payload is
  the payload without \<open>id\<close> and \<open>_etag\<close>. When there is one and it has an \<open>id\<close>,
  the interface step issues exactly one write, an update call scoped to the destination
  site and element for that id, whose payload carries that id and, apart from \<open>id\<close> and
  \<open>_etag\<close>, the fields of the payload. The route step does the same as long as the
  matched record has an \<open>_etag\<close> or the payload has a \<open>name\<close>.
\<close>

lemma upsert_decided_by_natural_key:
  "(index_routes [] dst_routes = Inr idx \<and> rec_sub p ''destination_prefix'' = Inr k
      \<and> hash_of k \<noteq> None \<longrightarrow>
      (case List.find (\<lambda>d. hash_of (rec_get d ''destination_prefix'') = hash_of k)
              (rev dst_routes) of
         None \<Rightarrow>
           upsert_route E idx ok p
             = ([Write (Post_staticroutes (dst_sid E) (dst_eid E)
                          (rec_pop ''_etag'' (rec_pop ''id'' p)))
                   (ok (Post_staticroutes (dst_sid E) (dst_eid E)
                          (rec_pop ''_etag'' (rec_pop ''id'' p))))], None)
           \<and> map_of (rec_pop ''_etag'' (rec_pop ''id'' p)) ''id'' = None
           \<and> map_of (rec_pop ''_etag'' (rec_pop ''id'' p)) ''_etag'' = None
       | Some d \<Rightarrow>
           (\<forall>i. rec_sub d ''id'' = Inr i
                 \<and> (rec_get d ''_etag'' \<noteq> JNull \<or> map_of p ''name'' \<noteq> None) \<longrightarrow>
              (\<exists>p'. writes (fst (upsert_route E idx ok p))
                        = [Put_staticroutes (dst_sid E) (dst_eid E) i p']
                    \<and> snd (upsert_route E idx ok p) = None
                    \<and> map_of p' ''id'' = Some i
                    \<and> (\<forall>f. f \<noteq> ''id'' \<and> f \<noteq> ''_etag'' \<longrightarrow> map_of p' f = map_of p f)))))
   \<and> (index_interfaces [] dst_intfs = Inr idx' \<and> rec_sub intf ''type'' = Inr t
      \<and> copied_type t \<and> rec_sub intf ''name'' = Inr k' \<and> hash_of k' \<noteq> None \<longrightarrow>
      (case List.find (\<lambda>d. copied_type (rec_get d ''type'')
                          \<and> hash_of (rec_get d ''name'') = hash_of k') (rev dst_intfs) of
         None \<Rightarrow>
           intf_body E idx' ok intf
             = ([Write (Post_interfaces (dst_sid E) (dst_eid E)
                          (rec_pop ''_etag'' (rec_pop ''id'' (sanitize intf))))
                   (ok (Post_interfaces (dst_sid E) (dst_eid E)
                          (rec_pop ''_etag'' (rec_pop ''id'' (sanitize intf)))))], None)
           \<and> map_of (rec_pop ''_etag'' (rec_pop ''id'' (sanitize intf))) ''id'' = None
           \<and> map_of (rec_pop ''_etag'' (rec_pop ''id'' (sanitize intf))) ''_etag'' = None
       | Some d \<Rightarrow>
           (\<forall>i. rec_sub d ''id'' = Inr i \<longrightarrow>
              (\<exists>p'. writes (fst (intf_body E idx' ok intf))
                        = [Put_interfaces (dst_sid E) (dst_eid E) i p']
                    \<and> snd (intf_body E idx' ok intf) = None
                    \<and> map_of p' ''id'' = Some i
                    \<and> (\<forall>f. f \<noteq> ''id'' \<and> f \<noteq> ''_etag''
                            \<longrightarrow> map_of p' f = map_of (sanitize intf) f)))))"
proof (intro conjI impI)
  assume h: "index_routes [] dst_routes = Inr idx \<and> rec_sub p ''destination_prefix'' = Inr k
      \<and> hash_of k \<noteq> None"
  then have a: "index_routes [] dst_routes = Inr idx"
    and b: "rec_sub p ''destination_prefix'' = Inr k" and c: "hash_of k \<noteq> None" by blast+
  show "case List.find (\<lambda>d. hash_of (rec_get d ''destination_prefix'') = hash_of k)
              (rev dst_routes) of
         None \<Rightarrow>
           upsert_route E idx ok p
             = ([Write (Post_staticroutes (dst_sid E) (dst_eid E)
                          (rec_pop ''_etag'' (rec_pop ''id'' p)))
                   (ok (Post_staticroutes (dst_sid E) (dst_eid E)
                          (rec_pop ''_etag'' (rec_pop ''id'' p))))], None)
           \<and> map_of (rec_pop ''_etag'' (rec_pop ''id'' p)) ''id'' = None
           \<and> map_of (rec_pop ''_etag'' (rec_pop ''id'' p)) ''_etag'' = None
       | Some d \<Rightarrow>
           (\<forall>i. rec_sub d ''id'' = Inr i
                 \<and> (rec_get d ''_etag'' \<noteq> JNull \<or> map_of p ''name'' \<noteq> None) \<longrightarrow>
              (\<exists>p'. writes (fst (upsert_route E idx ok p))
                        = [Put_staticroutes (dst_sid E) (dst_eid E) i p']
                    \<and> snd (upsert_route E idx ok p) = None
                    \<and> map_of p' ''id'' = Some i
                    \<and> (\<forall>f. f \<noteq> ''id'' \<and> f \<noteq> ''_etag'' \<longrightarrow> map_of p' f = map_of p f)))"
  proof (cases "List.find (\<lambda>d. hash_of (rec_get d ''destination_prefix'') = hash_of k)
              (rev dst_routes)")
    case None
    from upsert_route_unmatched [OF a b c None] create_route_payload [of E ok p] None
    show ?thesis by simp
  next
    case (Some d)
    note m = upsert_route_matched(1) [OF a b c Some]
    have "\<exists>p'. writes (fst (upsert_route E idx ok p))
                        = [Put_staticroutes (dst_sid E) (dst_eid E) i p']
                    \<and> snd (upsert_route E idx ok p) = None
                    \<and> map_of p' ''id'' = Some i
                    \<and> (\<forall>f. f \<noteq> ''id'' \<and> f \<noteq> ''_etag'' \<longrightarrow> map_of p' f = map_of p f)"
      if "rec_sub d ''id'' = Inr i
          \<and> (rec_get d ''_etag'' \<noteq> JNull \<or> map_of p ''name'' \<noteq> None)" for i
      using update_route_writes [of d i p E ok] that unfolding m by blast
    with Some show ?thesis by simp
  qed
next
  assume h: "index_interfaces [] dst_intfs = Inr idx' \<and> rec_sub intf ''type'' = Inr t
      \<and> copied_type t \<and> rec_sub intf ''name'' = Inr k' \<and> hash_of k' \<noteq> None"
  then have a: "index_interfaces [] dst_intfs = Inr idx'"
    and b: "rec_sub intf ''type'' = Inr t" and c: "copied_type t"
    and d: "rec_sub intf ''name'' = Inr k'" and e: "hash_of k' \<noteq> None" by blast+
  have nm: "map_of (sanitize intf) ''name'' \<noteq> None"
    using d by (simp add: map_of_sanitize BASE_DELETE_ATTRS_def rec_sub_Inr)
  show "case List.find (\<lambda>d. copied_type (rec_get d ''type'')
                          \<and> hash_of (rec_get d ''name'') = hash_of k') (rev dst_intfs) of
         None \<Rightarrow>
           intf_body E idx' ok intf
             = ([Write (Post_interfaces (dst_sid E) (dst_eid E)
                          (rec_pop ''_etag'' (rec_pop ''id'' (sanitize intf))))
                   (ok (Post_interfaces (dst_sid E) (dst_eid E)
                          (rec_pop ''_etag'' (rec_pop ''id'' (sanitize intf)))))], None)
           \<and> map_of (rec_pop ''_etag'' (rec_pop ''id'' (sanitize intf))) ''id'' = None
           \<and> map_of (rec_pop ''_etag'' (rec_pop ''id'' (sanitize intf))) ''_etag'' = None
       | Some d \<Rightarrow>
           (\<forall>i. rec_sub d ''id'' = Inr i \<longrightarrow>
              (\<exists>p'. writes (fst (intf_body E idx' ok intf))
                        = [Put_interfaces (dst_sid E) (dst_eid E) i p']
                    \<and> snd (intf_body E idx' ok intf) = None
                    \<and> map_of p' ''id'' = Some i
                    \<and> (\<forall>f. f \<noteq> ''id'' \<and> f \<noteq> ''_etag''
                            \<longrightarrow> map_of p' f = map_of (sanitize intf) f)))"
  proof (cases "List.find (\<lambda>d. copied_type (rec_get d ''type'')
                          \<and> hash_of (rec_get d ''name'') = hash_of k') (rev dst_intfs)")
    case None
    from intf_body_unmatched [OF a b c d e None]
      create_interface_payload [of E ok "sanitize intf"] None
    show ?thesis by simp
  next
    case (Some x)
    note m = intf_body_matched(1) [OF a b c d e Some]
    have "\<exists>p'. writes (fst (intf_body E idx' ok intf))
                        = [Put_interfaces (dst_sid E) (dst_eid E) i p']
                    \<and> snd (intf_body E idx' ok intf) = None
                    \<and> map_of p' ''id'' = Some i
                    \<and> (\<forall>f. f \<noteq> ''id'' \<and> f \<noteq> ''_etag''
                            \<longrightarrow> map_of p' f = map_of (sanitize intf) f)"
      if "rec_sub x ''id'' = Inr i" for i
      using update_interface_payload [of x i "sanitize intf" E ok] that nm unfolding m by blast
    with Some show ?thesis by simp
  qed
qed

text \<open>
  C5. The destination index holds a route with the prefix of the source route, and that
  route has no \<open>_etag\<close>. The source route has come through the translation of its VRF
  and of its nexthop, and the loop body issues neither an update nor a create for it:
  building the warning of the update path raises \<open>KeyError\<close> on the \<open>name\<close> that
  the payload does not have. With a token on the destination route the update is issued
  for the destination's id \<open>d9\<close>. The interface path, matched to a destination
  interface without \<open>_etag\<close>, prints its warning and issues the update for the
  destination's id \<open>i2\<close>.
\<close>

theorem matched_route_without_token_not_updated:
  "index_routes []
     [[(''id'', JStr ''d9''), (''destination_prefix'', JStr ''192.168.1.0/24''),
       (''vrf_context_id'', JStr ''v1'')]]
   = Inr [(JStr ''192.168.1.0/24'',
           [(''id'', JStr ''d9''), (''destination_prefix'', JStr ''192.168.1.0/24''),
            (''vrf_context_id'', JStr ''v1'')])]
   \<and> route_body ex_tables ex_ends
     [(JStr ''192.168.1.0/24'',
       [(''id'', JStr ''d9''), (''destination_prefix'', JStr ''192.168.1.0/24''),
        (''vrf_context_id'', JStr ''v1'')])]
     (accept 0)
     [(''id'', JStr ''r5''), (''_etag'', JNum 6),
      (''destination_prefix'', JStr ''192.168.1.0/24''),
      (''vrf_context_id'', JStr ''v1''), (''nexthops'', JArr [nh_if ''i1''])]
   = ([], Some (KeyError (JStr ''name'')))
   \<and> writes (fst (copy_static_routes ex_tables ex_ends
     (Listing [[(''id'', JStr ''r5''), (''_etag'', JNum 6),
                (''destination_prefix'', JStr ''192.168.1.0/24''),
                (''vrf_context_id'', JStr ''v1''), (''nexthops'', JArr [nh_if ''i1''])]])
     (Listing [[(''id'', JStr ''d9''), (''destination_prefix'', JStr ''192.168.1.0/24''),
                (''vrf_context_id'', JStr ''v1'')]])
     accept)) = []
   \<and> copy_static_routes ex_tables ex_ends
     (Listing [[(''id'', JStr ''r5''), (''_etag'', JNum 6),
                (''destination_prefix'', JStr ''192.168.1.0/24''),
                (''vrf_context_id'', JStr ''v1''), (''nexthops'', JArr [nh_if ''i1''])]])
     (Listing [[(''id'', JStr ''d9''), (''_etag'', JNum 12),
                (''destination_prefix'', JStr ''192.168.1.0/24''),
                (''vrf_context_id'', JStr ''v1'')]])
     accept
   = ([Write (Put_staticroutes (JStr ''sB'') (JStr ''eB'') (JStr ''d9'')
                [(''id'', JStr ''d9''), (''_etag'', JNum 12),
                 (''destination_prefix'', JStr ''192.168.1.0/24''),
                 (''vrf_context_id'', JStr ''v1''), (''nexthops'', JArr [nh_if ''i2''])]) True],
      None)
   \<and> intf_body ex_ends
     [(JStr ''vlan10'',
       [(''id'', JStr ''i2''), (''name'', JStr ''vlan10''), (''type'', JStr ''vlan'')])]
     (accept 0)
     [(''id'', JStr ''i1''), (''name'', JStr ''vlan10''), (''type'', JStr ''vlan''),
      (''mtu'', JNum 1500)]
   = ([WARN_intf_no_etag (JStr ''vlan10''),
       Write (Put_interfaces (JStr ''sB'') (JStr ''eB'') (JStr ''i2'')
                [(''id'', JStr ''i2''), (''name'', JStr ''vlan10''), (''type'', JStr ''vlan''),
                 (''mtu'', JNum 1500)]) True],
      None)"
  by (simp add: route_defs intf_defs ex_defs py_defs)

section \<open>The loops run to their end\<close>

lemma has_keyD: "has_key r f \<Longrightarrow> \<exists>k. rec_sub r f = Inr k \<and> hash_of k \<noteq> None"
  by (auto simp: has_key_def rec_sub_def split: option.splits)

lemma dict_get_total:
  assumes "hash_of k \<noteq> None" "values_hashable d"
  shows "\<exists>n. dict_get d k = Inr n \<and> hash_of n \<noteq> None"
proof (cases "pyget k d")
  case None
  with assms(1) show ?thesis by (auto simp: dict_get_def dict_find_def bnd_def)
next
  case (Some v)
  from pyget_in_set [OF Some] assms(2) have "hash_of v \<noteq> None"
    by (auto simp: values_hashable_def list_all_iff)
  with Some assms(1) show ?thesis by (auto simp: dict_get_def dict_find_def bnd_def)
qed

lemma dict_get_any: "hash_of k \<noteq> None \<Longrightarrow> \<exists>n. dict_get d k = Inr n"
  by (auto simp: dict_get_def dict_find_def bnd_def)

lemma vrf_part_total:
  assumes "values_hashable (global_id_vfr T)" "hash_of (rec_get p ''vrf_context_id'') \<noteq> None"
    "rec_sub p ''destination_prefix'' = Inr pfx"
  shows "(\<exists>e. vrf_part T p = ([e], Inr None) \<and> closing e)
         \<or> (\<exists>p'. vrf_part T p = ([], Inr (Some p'))
                \<and> (\<forall>f. f \<noteq> ''vrf_context_id'' \<longrightarrow> map_of p' f = map_of p f))"
proof (cases "truthy (rec_get p ''vrf_context_id'')")
  case False
  then show ?thesis by (simp add: vrf_part_def)
next
  case True
  from dict_get_total [OF assms(2,1)] obtain n where
    n: "dict_get (global_id_vfr T) (rec_get p ''vrf_context_id'') = Inr n" "hash_of n \<noteq> None"
    by blast
  from dict_get_any [OF n(2)] obtain v where v: "dict_get (global_name_vfr T) n = Inr v"
    by blast
  show ?thesis
  proof (cases "truthy n")
    case False
    with True n assms(3) show ?thesis by (simp add: vrf_part_def)
  next
    case tn: True
    show ?thesis
    proof (cases "truthy v")
      case False
      with True tn n v assms(3) show ?thesis by (simp add: vrf_part_def)
    next
      case tv: True
      with True tn n v show ?thesis by (simp add: vrf_part_def map_of_rec_store)
    qed
  qed
qed

lemma nexthop_step_total:
  assumes "dict_sub (element_interfaces_by_id T) (src_eid E) = Inr m" "values_hashable m"
    "dict_sub (element_interfaces_by_name T) (dst_eid E) = Inr m'" "nexthop_ok x"
    "rec_sub p ''destination_prefix'' = Inr pfx"
  shows "\<exists>ev x'. nexthop_step T E p x = (ev, Inr x') \<and> filter closing ev = []"
proof -
  from assms(4) obtain nh where x: "x = JObj nh"
    and h: "hash_of (rec_get nh ''nexthop_interface_id'') \<noteq> None"
    by (cases x) (simp_all add: nexthop_ok_def)
  show ?thesis
  proof (cases "truthy (rec_get nh ''nexthop_interface_id'')")
    case False
    then show ?thesis by (simp add: x nexthop_step_def)
  next
    case True
    from dict_get_total [OF h assms(2)] obtain n where
      n: "dict_get m (rec_get nh ''nexthop_interface_id'') = Inr n" "hash_of n \<noteq> None"
      by blast
    from dict_get_any [OF n(2)] obtain v where v: "dict_get m' n = Inr v" by blast
    show ?thesis
    proof (cases "truthy n")
      case False
      with True n assms(1,5) show ?thesis by (simp add: x nexthop_step_def)
    next
      case tn: True
      with True n v assms(1,3,5) show ?thesis
        by (cases "truthy v") (simp_all add: x nexthop_step_def)
    qed
  qed
qed

lemma nexthop_loop_total:
  assumes "dict_sub (element_interfaces_by_id T) (src_eid E) = Inr m" "values_hashable m"
    "dict_sub (element_interfaces_by_name T) (dst_eid E) = Inr m'"
    "rec_sub p ''destination_prefix'' = Inr pfx"
  shows "list_all nexthop_ok xs \<Longrightarrow>
         \<exists>ev xs'. nexthop_loop T E p xs = (ev, Inr xs') \<and> filter closing ev = []"
proof (induction xs)
  case Nil
  then show ?case by simp
next
  case (Cons x xs)
  from Cons.prems have "nexthop_ok x" by simp
  from nexthop_step_total [OF assms(1-3) this assms(4)] obtain ev x' where
    s: "nexthop_step T E p x = (ev, Inr x')" "filter closing ev = []" by blast
  from Cons obtain ev' xs' where
    l: "nexthop_loop T E p xs = (ev', Inr xs')" "filter closing ev' = []" by auto
  from s l show ?case by simp
qed

lemma nexthops_part_total:
  assumes "dict_sub (element_interfaces_by_id T) (src_eid E) = Inr m" "values_hashable m"
    "dict_sub (element_interfaces_by_name T) (dst_eid E) = Inr m'"
    "rec_sub p ''destination_prefix'' = Inr pfx" "nexthops_ok (rec_get p ''nexthops'')"
  shows "\<exists>ev p'. nexthops_part T E p = (ev, Inr p') \<and> filter closing ev = []
           \<and> (\<forall>f. f \<noteq> ''nexthops'' \<longrightarrow> map_of p' f = map_of p f)"
proof (cases "truthy (rec_get p ''nexthops'')")
  case False
  then show ?thesis by (simp add: nexthops_part_def)
next
  case True
  with assms(5) obtain nhs where nhs: "rec_get p ''nexthops'' = JArr nhs"
    "list_all nexthop_ok nhs"
    by (cases "rec_get p ''nexthops''") (simp_all add: nexthops_ok_def)
  from nexthop_loop_total [OF assms(1-4) nhs(2)] obtain ev xs' where
    "nexthop_loop T E p nhs = (ev, Inr xs')" "filter closing ev = []" by blast
  with True nhs(1) show ?thesis by (simp add: nexthops_part_def map_of_rec_store)
qed

lemma update_route_total:
  assumes "rec_sub d ''id'' = Inr i"
    "rec_get d ''_etag'' \<noteq> JNull \<or> map_of p ''name'' \<noteq> None"
  shows "\<exists>ev. update_route E ok p d = (ev, None) \<and> length (filter closing ev) = 1"
proof (cases "rec_get d ''_etag'' \<noteq> JNull")
  case True
  with assms(1) show ?thesis by (simp add: update_route_def Let_def)
next
  case False
  with assms(2) obtain nm where "rec_sub p ''name'' = Inr nm"
    by (auto simp: rec_sub_def)
  with False assms(1) show ?thesis by (simp add: update_route_def Let_def bnd_def)
qed

lemma update_interface_total:
  assumes "rec_sub d ''id'' = Inr i" "map_of p ''name'' \<noteq> None"
  shows "\<exists>ev. update_interface E ok p d = (ev, None) \<and> length (filter closing ev) = 1"
proof (cases "rec_get d ''_etag'' \<noteq> JNull")
  case True
  with assms(1) show ?thesis by (simp add: update_interface_def Let_def)
next
  case False
  from assms(2) obtain nm where "rec_sub p ''name'' = Inr nm"
    by (auto simp: rec_sub_def)
  with False assms(1) show ?thesis by (simp add: update_interface_def Let_def bnd_def)
qed

lemma index_routes_total:
  "list_all dst_route_ok dst \<Longrightarrow> \<exists>idx. index_routes d0 dst = Inr idx"
proof (induction dst arbitrary: d0)
  case Nil
  then show ?case by simp
next
  case (Cons d dst)
  from Cons.prems have "has_key d ''destination_prefix''" by (simp add: dst_route_ok_def)
  from has_keyD [OF this] obtain k where "rec_sub d ''destination_prefix'' = Inr k"
    "hash_of k \<noteq> None" by blast
  with Cons show ?case by (auto simp: bnd_def dict_store_def)
qed

lemma index_interfaces_total:
  "list_all dst_intf_ok dst \<Longrightarrow> \<exists>idx. index_interfaces d0 dst = Inr idx"
proof (induction dst arbitrary: d0)
  case Nil
  then show ?case by simp
next
  case (Cons d dst)
  from Cons.prems obtain t where t: "map_of d ''type'' = Some t"
    by (auto simp: dst_intf_ok_def split: option.splits)
  show ?case
  proof (cases "copied_type t")
    case False
    with t Cons show ?thesis by (auto simp: bnd_def rec_sub_def)
  next
    case True
    with t Cons.prems have "has_key d ''name''" by (simp add: dst_intf_ok_def)
    from has_keyD [OF this] obtain k where "rec_sub d ''name'' = Inr k" "hash_of k \<noteq> None"
      by blast
    with True t Cons show ?thesis by (auto simp: bnd_def dict_store_def rec_sub_def)
  qed
qed

lemma upsert_route_total:
  assumes "index_routes [] dst = Inr idx" "list_all dst_route_ok dst"
    "rec_sub p ''destination_prefix'' = Inr k" "hash_of k \<noteq> None"
    "list_all (\<lambda>d. rec_get d ''_etag'' \<noteq> JNull) dst \<or> map_of p ''name'' \<noteq> None"
  shows "\<exists>ev. upsert_route E idx ok p = (ev, None) \<and> length (filter closing ev) = 1"
proof (cases "List.find (\<lambda>d. hash_of (rec_get d ''destination_prefix'') = hash_of k) (rev dst)")
  case None
  from upsert_route_unmatched [OF assms(1,3,4) None] show ?thesis
    by (simp add: create_route_def Let_def)
next
  case (Some d)
  note m = upsert_route_matched [OF assms(1,3,4) Some]
  from m(2) assms(2) obtain i where i: "rec_sub d ''id'' = Inr i"
    by (auto simp: dst_route_ok_def list_all_iff rec_sub_def)
  from m(2) assms(5) have "rec_get d ''_etag'' \<noteq> JNull \<or> map_of p ''name'' \<noteq> None"
    by (auto simp: list_all_iff)
  from update_route_total [OF i this] m(1) show ?thesis by simp
qed

lemma route_body_total:
  assumes "tables_ok T E" "src_route_ok r" "index_routes [] dst = Inr idx"
    "list_all dst_route_ok dst"
    "list_all (\<lambda>d. rec_get d ''_etag'' \<noteq> JNull) dst \<or> map_of r ''name'' \<noteq> None"
  shows "\<exists>ev. route_body T E idx ok r = (ev, None) \<and> length (filter closing ev) = 1"
proof -
  from assms(1) obtain m m' where
    t: "values_hashable (global_id_vfr T)"
    "dict_sub (element_interfaces_by_id T) (src_eid E) = Inr m" "values_hashable m"
    "dict_sub (element_interfaces_by_name T) (dst_eid E) = Inr m'"
    by (auto simp: tables_ok_def split: sum.splits)
  from assms(2) have "has_key r ''destination_prefix''" by (simp add: src_route_ok_def)
  from has_keyD [OF this] obtain k where k: "rec_sub r ''destination_prefix'' = Inr k"
    "hash_of k \<noteq> None" by blast
  have p0: "rec_sub (sanitize r) ''destination_prefix'' = Inr k"
    "hash_of (rec_get (sanitize r) ''vrf_context_id'') \<noteq> None"
    using k assms(2) by (simp_all add: sanitize_keeps_route_keys src_route_ok_def)
  from vrf_part_total [OF t(1) p0(2) p0(1)] show ?thesis
  proof
    assume "\<exists>e. vrf_part T (sanitize r) = ([e], Inr None) \<and> closing e"
    then show ?thesis by (auto simp: route_body_def)
  next
    assume "\<exists>p'. vrf_part T (sanitize r) = ([], Inr (Some p'))
                \<and> (\<forall>f. f \<noteq> ''vrf_context_id'' \<longrightarrow> map_of p' f = map_of (sanitize r) f)"
    then obtain p1 where v: "vrf_part T (sanitize r) = ([], Inr (Some p1))"
      and same1: "\<forall>f. f \<noteq> ''vrf_context_id'' \<longrightarrow> map_of p1 f = map_of (sanitize r) f"
      by blast
    from same1 have m1: "map_of p1 ''destination_prefix'' = map_of r ''destination_prefix''"
      "map_of p1 ''nexthops'' = map_of r ''nexthops''" "map_of p1 ''name'' = map_of r ''name''"
      by (simp_all add: map_of_sanitize BASE_DELETE_ATTRS_def)
    from m1 k assms(2) have p1: "rec_sub p1 ''destination_prefix'' = Inr k"
      "nexthops_ok (rec_get p1 ''nexthops'')"
      by (simp_all add: rec_sub_def rec_get_def src_route_ok_def)
    from nexthops_part_total [OF t(2,3,4) p1] obtain ev2 p2 where
      n: "nexthops_part T E p1 = (ev2, Inr p2)" "filter closing ev2 = []"
      and same2: "\<forall>f. f \<noteq> ''nexthops'' \<longrightarrow> map_of p2 f = map_of p1 f" by blast
    from same2 m1 k have p2: "rec_sub p2 ''destination_prefix'' = Inr k"
      "map_of p2 ''name'' = map_of r ''name''"
      by (simp_all add: rec_sub_def)
    from assms(5) p2(2)
    have "list_all (\<lambda>d. rec_get d ''_etag'' \<noteq> JNull) dst \<or> map_of p2 ''name'' \<noteq> None"
      by simp
    from upsert_route_total [OF assms(3,4) p2(1) k(2) this] obtain ev3 where
      "upsert_route E idx ok p2 = (ev3, None)" "length (filter closing ev3) = 1" by blast
    with v n show ?thesis by (simp add: route_body_def)
  qed
qed

lemma route_loop_total:
  assumes "tables_ok T E" "index_routes [] dst = Inr idx" "list_all dst_route_ok dst"
  shows "list_all src_route_ok src \<Longrightarrow>
         list_all (\<lambda>d. rec_get d ''_etag'' \<noteq> JNull) dst
         \<or> list_all (\<lambda>r. map_of r ''name'' \<noteq> None) src \<Longrightarrow>
         \<exists>tr. route_loop T E idx ctl n src = (tr, None)
               \<and> length (filter closing tr) = length src"
proof (induction src arbitrary: n)
  case Nil
  then show ?case by simp
next
  case (Cons r src)
  from Cons.prems have ok: "src_route_ok r" "list_all src_route_ok src"
    and e: "list_all (\<lambda>d. rec_get d ''_etag'' \<noteq> JNull) dst \<or> map_of r ''name'' \<noteq> None"
    "list_all (\<lambda>d. rec_get d ''_etag'' \<noteq> JNull) dst
         \<or> list_all (\<lambda>r. map_of r ''name'' \<noteq> None) src"
    by auto
  from route_body_total [OF assms(1) ok(1) assms(2,3) e(1)] obtain ev where
    b: "route_body T E idx (ctl n) r = (ev, None)" "length (filter closing ev) = 1" by blast
  from Cons.IH [OF ok(2) e(2), of "Suc n"] obtain tr where
    l: "route_loop T E idx ctl (Suc n) src = (tr, None)"
    "length (filter closing tr) = length src" by blast
  from b l show ?case by simp
qed

lemma intf_body_total:
  assumes "src_intf_ok i" "index_interfaces [] dst = Inr idx" "list_all dst_intf_ok dst"
  shows "\<exists>ev. intf_body E idx ok i = (ev, None)
           \<and> length (filter closing ev) = (if copied_type (rec_get i ''type'') then 1 else 0)"
proof -
  from assms(1) obtain t where t: "rec_sub i ''type'' = Inr t"
    by (auto simp: src_intf_ok_def rec_sub_def split: option.splits)
  then have gt: "rec_get i ''type'' = t" by (rule rec_sub_get)
  show ?thesis
  proof (cases "copied_type t")
    case False
    with t gt show ?thesis by (simp add: intf_body_def)
  next
    case True
    with assms(1) t have "has_key i ''name''"
      by (auto simp: src_intf_ok_def rec_sub_def split: option.splits)
    from has_keyD [OF this] obtain k where k: "rec_sub i ''name'' = Inr k" "hash_of k \<noteq> None"
      by blast
    have nm: "map_of (sanitize i) ''name'' \<noteq> None"
      using k(1) by (simp add: map_of_sanitize BASE_DELETE_ATTRS_def rec_sub_Inr)
    show ?thesis
    proof (cases "List.find (\<lambda>d. copied_type (rec_get d ''type'')
                   \<and> hash_of (rec_get d ''name'') = hash_of k) (rev dst)")
      case None
      from intf_body_unmatched [OF assms(2) t True k None] True gt show ?thesis
        by (simp add: create_interface_def Let_def)
    next
      case (Some d)
      note m = intf_body_matched [OF assms(2) t True k Some]
      from find_Some_mem [OF Some] have cd: "copied_type (rec_get d ''type'')" by simp
      from m(2) assms(3) have "dst_intf_ok d" by (simp add: list_all_iff)
      with cd obtain j where j: "rec_sub d ''id'' = Inr j"
        by (auto simp: dst_intf_ok_def rec_get_def rec_sub_def split: option.splits if_splits)
      from update_interface_total [OF j nm] m(1) True gt show ?thesis by simp
    qed
  qed
qed

lemma interface_loop_total:
  assumes "index_interfaces [] dst = Inr idx" "list_all dst_intf_ok dst"
  shows "list_all src_intf_ok src \<Longrightarrow>
         \<exists>tr. interface_loop E idx ctl n src = (tr, None)
               \<and> length (filter closing tr)
                   = length (filter (\<lambda>i. copied_type (rec_get i ''type'')) src)"
proof (induction src arbitrary: n)
  case Nil
  then show ?case by simp
next
  case (Cons i src)
  from Cons.prems have ok: "src_intf_ok i" "list_all src_intf_ok src" by auto
  from intf_body_total [OF ok(1) assms] obtain ev where
    b: "intf_body E idx (ctl n) i = (ev, None)"
    "length (filter closing ev) = (if copied_type (rec_get i ''type'') then 1 else 0)"
    by blast
  from Cons.IH [OF ok(2), of "Suc n"] obtain tr where
    l: "interface_loop E idx ctl (Suc n) src = (tr, None)"
    "length (filter closing tr) = length (filter (\<lambda>i. copied_type (rec_get i ''type'')) src)"
    by blast
  from b l show ?case by simp
qed

subsection \<open>The dictionaries built by \<open>create_dicts\<close> are as the route loop needs them\<close>

lemma values_hashable_pyset:
  "values_hashable d \<Longrightarrow> hash_of v \<noteq> None \<Longrightarrow> values_hashable (pyset k v d)"
  by (induction d) (auto simp: values_hashable_def)

lemma all_values_pyset:
  "\<forall>kv \<in> set D. P (snd kv) \<Longrightarrow> P v \<Longrightarrow> \<forall>kv \<in> set (pyset k v D). P (snd kv)"
  using pyset_entries by fastforce

lemma vrf_loop_values:
  "vrf_loop T vs = Inr T' \<Longrightarrow> values_hashable (global_id_vfr T) \<Longrightarrow>
   values_hashable (global_id_vfr T')"
proof (induction vs arbitrary: T)
  case Nil
  then show ?case by simp
next
  case (Cons v vs)
  from Cons.prems(1) obtain T1 where s: "vrf_step T v = Inr T1" and l: "vrf_loop T1 vs = Inr T'"
    by (auto simp: bnd_def split: sum.splits)
  from vrf_stepD [OF s] Cons.prems(2) have "values_hashable (global_id_vfr T1)"
    by (auto simp: values_hashable_pyset)
  from Cons.IH [OF l this] show ?case .
qed

lemma intf_loop_values:
  "intf_loop k T items = Inr T' \<Longrightarrow>
   \<forall>kv \<in> set (element_interfaces_by_id T). values_hashable (snd kv) \<Longrightarrow>
   \<forall>kv \<in> set (element_interfaces_by_id T'). values_hashable (snd kv)"
proof (induction items arbitrary: T)
  case Nil
  then show ?case by simp
next
  case (Cons i items)
  from Cons.prems(1) obtain T1 where s: "intf_step k T i = Inr T1"
    and l: "intf_loop k T1 items = Inr T'"
    by (auto simp: bnd_def split: sum.splits)
  from intf_stepD [OF s] obtain name iid a b where
    h: "hash_of name \<noteq> None" "pyget k (element_interfaces_by_id T) = Some a"
    and T1': "T1 = T\<lparr> element_interfaces_by_id :=
                  pyset k (pyset iid name a) (element_interfaces_by_id T),
                element_interfaces_by_name :=
                  pyset k (pyset name iid b) (element_interfaces_by_name T) \<rparr>"
    by blast
  have T1: "element_interfaces_by_id T1
               = pyset k (pyset iid name a) (element_interfaces_by_id T)"
    by (simp add: T1')
  from pyget_in_set [OF h(2)] Cons.prems(2) have "values_hashable a" by fastforce
  with h(1) have "values_hashable (pyset iid name a)" by (simp add: values_hashable_pyset)
  with Cons.prems(2) have "\<forall>kv \<in> set (element_interfaces_by_id T1). values_hashable (snd kv)"
    unfolding T1 by (rule all_values_pyset)
  from Cons.IH [OF l this] show ?case .
qed

lemma dev_loop_values:
  "dev_loop f T ds = (ev, Inr T') \<Longrightarrow>
   \<forall>kv \<in> set (element_interfaces_by_id T). values_hashable (snd kv) \<Longrightarrow>
   \<forall>kv \<in> set (element_interfaces_by_id T'). values_hashable (snd kv)"
proof (induction ds arbitrary: T ev)
  case Nil
  then show ?case by simp
next
  case (Cons d ds)
  obtain k nm where d: "d = (k, nm)" by (cases d)
  from Cons.prems(1) [unfolded d] show ?case
  proof (cases rule: dev_loop_Cons)
    case (listed site items T1)
    from Cons.IH [OF listed(5) intf_loop_values [OF listed(4) Cons.prems(2)]] show ?thesis .
  next
    case (failed site ev')
    from Cons.IH [OF failed(5) Cons.prems(2)] show ?thesis .
  next
    case (nosite site ev')
    from Cons.IH [OF nosite(4) Cons.prems(2)] show ?thesis .
  qed
qed

lemma resolve_elementsD:
  assumes "resolve_elements T src dst = (ev, Inr E)"
  shows "dict_contains (elem_name_id T) (JStr src)"
    and "dict_contains (elem_name_id T) (arg_value dst)"
  using assms by (auto simp: resolve_elements_def split: if_splits)

lemma create_dicts_tables_ok:
  assumes "snd (create_dicts sess) = Inr T" "resolve_elements T src dst = (ev, Inr E)"
  shows "tables_ok T E"
proof -
  from assms(1) obtain es T1 vs T2 where
    h: "elem_loop empty_tables es = Inr T1" "vrf_loop T1 vs = Inr T2"
    "dev_loop (get_interfaces sess) T2 (elem_id_name T2) = (fst (create_dicts sess), Inr T)"
    by (rule create_dicts_Inr)
  from elem_loop_globals [OF h(1)] have "values_hashable (global_id_vfr T1)"
    by (simp add: empty_tables_def values_hashable_def)
  from vrf_loop_values [OF h(2) this] dev_loop_frame [OF h(3)]
  have g: "values_hashable (global_id_vfr T)" by simp
  from elem_loop_empty [OF h(1)] vrf_loop_frame [OF h(2)]
  have "\<forall>kv \<in> set (element_interfaces_by_id T2). values_hashable (snd kv)"
    by (simp add: empty_tables_def values_hashable_def)
  from dev_loop_values [OF h(3) this]
  have v: "\<forall>kv \<in> set (element_interfaces_by_id T). values_hashable (snd kv)" .
  from resolve_elements_total [OF create_dicts_inv [OF assms(1)] resolve_elementsD [OF assms(2)]]
  obtain E' a b where r: "resolve_elements T src dst = ([], Inr E')"
    "dict_sub (element_interfaces_by_id T) (src_eid E') = Inr a"
    "dict_sub (element_interfaces_by_name T) (dst_eid E') = Inr b" by blast
  from r(1) assms(2) have E: "E' = E" by simp
  from r(2) have "pyget (src_eid E') (element_interfaces_by_id T) = Some a"
    by (auto simp: dict_sub_def dict_find_def bnd_def split: option.splits)
  from pyget_in_set [OF this] v have "values_hashable a" by fastforce
  with g r(2,3) show ?thesis by (simp add: tables_ok_def E)
qed

text \<open>
  When every record carries the fields the loops subscript (a source route its
  \<open>destination_prefix\<close>, a destination route its \<open>destination_prefix\<close> and
  \<open>id\<close>, an interface its \<open>type\<close> and, for the two copied types, its \<open>name\<close>, a
  destination interface of a copied type also its \<open>id\<close>), natural keys and references
  are hashable, a truthy \<open>nexthops\<close> is a list of objects, the dictionaries have the
  entries of both ends, and every destination route has an \<open>_etag\<close> or every source
  route a \<open>name\<close>, then each pass returns without an exception, whatever the controller
  answers to the writes, and every source record is handled to its end: the trace holds one
  write call or VRF skip warning per source route, and one write call per source interface
  of a copied type. The dictionaries that \<open>create_dicts\<close> returns, with the ends that the
  validation of the names resolves, meet the condition on the dictionaries.
\<close>

lemma loops_complete_on_well_formed_records:
  "(tables_ok T E \<and> list_all src_route_ok src \<and> list_all dst_route_ok dst
      \<and> (list_all (\<lambda>d. rec_get d ''_etag'' \<noteq> JNull) dst
         \<or> list_all (\<lambda>r. map_of r ''name'' \<noteq> None) src)
     \<longrightarrow> (\<exists>tr. copy_static_routes T E (Listing src) (Listing dst) ctl = (tr, None)
              \<and> length (filter closing tr) = length src))
   \<and> (list_all src_intf_ok isrc \<and> list_all dst_intf_ok idst
     \<longrightarrow> (\<exists>tr. copy_interfaces E (Listing isrc) (Listing idst) ctl = (tr, None)
              \<and> length (filter closing tr)
                  = length (filter (\<lambda>i. copied_type (rec_get i ''type'')) isrc)))
   \<and> (snd (create_dicts sess) = Inr T' \<and> resolve_elements T' src_element dst_element = (ev, Inr E')
     \<longrightarrow> tables_ok T' E')"
proof (intro conjI impI)
  assume h: "tables_ok T E \<and> list_all src_route_ok src \<and> list_all dst_route_ok dst
      \<and> (list_all (\<lambda>d. rec_get d ''_etag'' \<noteq> JNull) dst
         \<or> list_all (\<lambda>r. map_of r ''name'' \<noteq> None) src)"
  then have a: "tables_ok T E" and b: "list_all src_route_ok src"
    and c: "list_all dst_route_ok dst"
    and d: "list_all (\<lambda>d. rec_get d ''_etag'' \<noteq> JNull) dst
         \<or> list_all (\<lambda>r. map_of r ''name'' \<noteq> None) src" by blast+
  from index_routes_total [OF c] obtain idx where idx: "index_routes [] dst = Inr idx"
    by blast
  from route_loop_total [OF a idx c b d] idx
  show "\<exists>tr. copy_static_routes T E (Listing src) (Listing dst) ctl = (tr, None)
              \<and> length (filter closing tr) = length src"
    by (simp add: copy_static_routes_def)
next
  assume h: "list_all src_intf_ok isrc \<and> list_all dst_intf_ok idst"
  then have a: "list_all src_intf_ok isrc" and b: "list_all dst_intf_ok idst" by blast+
  from index_interfaces_total [OF b] obtain idx where idx: "index_interfaces [] idst = Inr idx"
    by blast
  from interface_loop_total [OF idx b a] idx
  show "\<exists>tr. copy_interfaces E (Listing isrc) (Listing idst) ctl = (tr, None)
              \<and> length (filter closing tr)
                  = length (filter (\<lambda>i. copied_type (rec_get i ''type'')) isrc)"
    by (simp add: copy_interfaces_def)
next
  assume "snd (create_dicts sess) = Inr T' \<and> resolve_elements T' src_element dst_element = (ev, Inr E')"
  then show "tables_ok T' E'" using create_dicts_tables_ok by blast
qed

text \<open>
  C3. The loops have no exception handler. The first source route has no \<open>name\<close> field
  and its prefix is that of a destination route without \<open>_etag\<close>: building the warning
  of the update path raises \<open>KeyError\<close>, the exception leaves the route loop, the second
  source route is never looked at, and \<open>go\<close> ends before the interface pass. With a
  token on the destination route both routes are handled to their end although the
  controller rejects both writes. The interface pass, whose warning prints a field that
  the payload is known to have, handles both interfaces on the corresponding input.
\<close>

theorem keyerror_escapes_the_route_loop:
  "copy_static_routes ex_tables ex_ends
     (Listing [[(''id'', JStr ''r1''), (''_etag'', JNum 4),
                (''destination_prefix'', JStr ''10.0.0.0/8''),
                (''nexthops'', JArr [JObj [(''nexthop_ip'', JStr ''10.1.1.1'')]])],
               [(''id'', JStr ''r2''), (''_etag'', JNum 5),
                (''destination_prefix'', JStr ''172.16.0.0/12''),
                (''nexthops'', JArr [nh_if ''i1''])]])
     (Listing [[(''id'', JStr ''d7''), (''destination_prefix'', JStr ''10.0.0.0/8'')]])
     accept
   = ([], Some (KeyError (JStr ''name'')))
   \<and> go ''ION-A'' (Some ''ION-B'') ex_session
     (\<lambda>s e. if e = JStr ''eA''
        then Listing [[(''id'', JStr ''r1''), (''_etag'', JNum 4),
                       (''destination_prefix'', JStr ''10.0.0.0/8''),
                       (''nexthops'', JArr [JObj [(''nexthop_ip'', JStr ''10.1.1.1'')]])],
                      [(''id'', JStr ''r2''), (''_etag'', JNum 5),
                       (''destination_prefix'', JStr ''172.16.0.0/12''),
                       (''nexthops'', JArr [nh_if ''i1''])]]
        else Listing [[(''id'', JStr ''d7''), (''destination_prefix'', JStr ''10.0.0.0/8'')]])
     (\<lambda>s e. if e = JStr ''eA''
        then Listing [[(''id'', JStr ''i1''), (''_etag'', JNum 8), (''name'', JStr ''vlan10''),
                       (''type'', JStr ''vlan'')]]
        else Listing [])
     accept accept
   = ([], Some (KeyError (JStr ''name'')))
   \<and> copy_static_routes ex_tables ex_ends
     (Listing [[(''id'', JStr ''r1''), (''_etag'', JNum 4),
                (''destination_prefix'', JStr ''10.0.0.0/8''),
                (''nexthops'', JArr [JObj [(''nexthop_ip'', JStr ''10.1.1.1'')]])],
               [(''id'', JStr ''r2''), (''_etag'', JNum 5),
                (''destination_prefix'', JStr ''172.16.0.0/12''),
                (''nexthops'', JArr [nh_if ''i1''])]])
     (Listing [[(''id'', JStr ''d7''), (''_etag'', JNum 11),
                (''destination_prefix'', JStr ''10.0.0.0/8'')]])
     (\<lambda>n c. False)
   = ([Write (Put_staticroutes (JStr ''sB'') (JStr ''eB'') (JStr ''d7'')
                [(''id'', JStr ''d7''), (''_etag'', JNum 11),
                 (''destination_prefix'', JStr ''10.0.0.0/8''),
                 (''nexthops'', JArr [JObj [(''nexthop_ip'', JStr ''10.1.1.1'')]])]) False,
       Write (Post_staticroutes (JStr ''sB'') (JStr ''eB'')
                [(''destination_prefix'', JStr ''172.16.0.0/12''),
                 (''nexthops'', JArr [nh_if ''i2''])]) False],
      None)
   \<and> copy_interfaces ex_ends
     (Listing [[(''id'', JStr ''i1''), (''_etag'', JNum 8), (''name'', JStr ''vlan10''),
                (''type'', JStr ''vlan'')],
               [(''id'', JStr ''i3''), (''_etag'', JNum 9), (''name'', JStr ''vlan30''),
                (''type'', JStr ''vlan'')]])
     (Listing [[(''id'', JStr ''i2''), (''name'', JStr ''vlan10''), (''type'', JStr ''vlan'')]])
     (\<lambda>n c. False)
   = ([WARN_intf_no_etag (JStr ''vlan10''),
       Write (Put_interfaces (JStr ''sB'') (JStr ''eB'') (JStr ''i2'')
                [(''id'', JStr ''i2''), (''_etag'', JNum 8), (''name'', JStr ''vlan10''),
                 (''type'', JStr ''vlan'')]) False,
       Write (Post_interfaces (JStr ''sB'') (JStr ''eB'')
                [(''name'', JStr ''vlan30''), (''type'', JStr ''vlan'')]) False],
      None)"
proof -
  have e: "src_eid ex_ends = JStr ''eA''" "dst_eid ex_ends = JStr ''eB''"
    by (simp_all add: ex_ends_def)
  have 1: "copy_static_routes ex_tables ex_ends
     (Listing [[(''id'', JStr ''r1''), (''_etag'', JNum 4),
                (''destination_prefix'', JStr ''10.0.0.0/8''),
                (''nexthops'', JArr [JObj [(''nexthop_ip'', JStr ''10.1.1.1'')]])],
               [(''id'', JStr ''r2''), (''_etag'', JNum 5),
                (''destination_prefix'', JStr ''172.16.0.0/12''),
                (''nexthops'', JArr [nh_if ''i1''])]])
     (Listing [[(''id'', JStr ''d7''), (''destination_prefix'', JStr ''10.0.0.0/8'')]])
     accept
   = ([], Some (KeyError (JStr ''name'')))"
    by (simp add: route_defs ex_defs py_defs)
  show ?thesis
    apply (intro conjI)
       apply (rule 1)
      apply (simp add: go_def ex_tables_built ex_ends_resolved e 1)
     apply (simp add: route_defs ex_defs py_defs)
    apply (simp add: intf_defs ex_defs py_defs)
    done
qed

section \<open>Sanitized payloads in the write calls\<close>

lemma update_route_data:
  "c \<in> set (writes (fst (update_route E ok p d))) \<Longrightarrow>
   a \<noteq> ''id'' \<Longrightarrow> a \<noteq> ''_etag'' \<Longrightarrow> map_of (call_data c) a = map_of p a"
  by (auto simp: update_route_def Let_def bnd_def writes_append map_of_rec_store
      split: sum.splits if_splits prod.splits)

lemma create_route_data:
  "c \<in> set (writes (fst (create_route E ok p))) \<Longrightarrow>
   a \<noteq> ''id'' \<Longrightarrow> a \<noteq> ''_etag'' \<Longrightarrow> map_of (call_data c) a = map_of p a"
  by (auto simp: create_route_def Let_def map_of_rec_pop)

lemma upsert_route_data:
  assumes "c \<in> set (writes (fst (upsert_route E idx ok p)))" "a \<noteq> ''id''" "a \<noteq> ''_etag''"
  shows "map_of (call_data c) a = map_of p a"
proof -
  from assms(1)
  have "c \<in> set (writes (fst (create_route E ok p)))
        \<or> (\<exists>d. c \<in> set (writes (fst (update_route E ok p d))))"
    by (auto simp: upsert_route_def split: sum.splits option.splits if_splits)
  with assms(2,3) show ?thesis using update_route_data create_route_data by blast
qed

lemma update_interface_data:
  "c \<in> set (writes (fst (update_interface E ok p d))) \<Longrightarrow>
   a \<noteq> ''id'' \<Longrightarrow> a \<noteq> ''_etag'' \<Longrightarrow> map_of (call_data c) a = map_of p a"
  by (auto simp: update_interface_def Let_def bnd_def writes_append map_of_rec_store
      split: sum.splits if_splits prod.splits)

lemma create_interface_data:
  "c \<in> set (writes (fst (create_interface E ok p))) \<Longrightarrow>
   a \<noteq> ''id'' \<Longrightarrow> a \<noteq> ''_etag'' \<Longrightarrow> map_of (call_data c) a = map_of p a"
  by (auto simp: create_interface_def Let_def map_of_rec_pop)

lemma vrf_part_quiet: "writes (fst (vrf_part T p)) = []"
  by (auto simp: vrf_part_def Let_def split: sum.splits)

lemma vrf_part_keeps:
  "vrf_part T p = (ev, Inr (Some p')) \<Longrightarrow> a \<noteq> ''vrf_context_id'' \<Longrightarrow>
   map_of p' a = map_of p a"
  by (auto simp: vrf_part_def Let_def map_of_rec_store split: sum.splits if_splits)

lemma nexthop_step_quiet: "writes (fst (nexthop_step T E p x)) = []"
  by (cases x) (auto simp: nexthop_step_def Let_def split: sum.splits)

lemma nexthop_loop_quiet: "writes (fst (nexthop_loop T E p xs)) = []"
proof (induction xs)
  case Nil
  then show ?case by simp
next
  case (Cons x xs)
  obtain ev r where s: "nexthop_step T E p x = (ev, r)" by (cases "nexthop_step T E p x")
  obtain ev' r' where l: "nexthop_loop T E p xs = (ev', r')"
    by (cases "nexthop_loop T E p xs")
  from nexthop_step_quiet [of T E p x] s have 1: "writes ev = []" by simp
  from Cons.IH l have 2: "writes ev' = []" by simp
  from s l 1 2 show ?case by (cases r; cases r') (simp_all add: writes_append)
qed

lemma nexthops_part_quiet: "writes (fst (nexthops_part T E p)) = []"
proof (cases "rec_get p ''nexthops''")
  case (JArr nhs)
  obtain ev r where l: "nexthop_loop T E p nhs = (ev, r)" by (cases "nexthop_loop T E p nhs")
  with nexthop_loop_quiet [of T E p nhs] have "writes ev = []" by simp
  with JArr l show ?thesis by (cases r) (simp_all add: nexthops_part_def)
qed (simp_all add: nexthops_part_def)

lemma nexthops_part_keeps:
  "nexthops_part T E p = (ev, Inr p') \<Longrightarrow> a \<noteq> ''nexthops'' \<Longrightarrow> map_of p' a = map_of p a"
  by (cases "rec_get p ''nexthops''")
    (auto simp: nexthops_part_def Let_def map_of_rec_store
      split: if_splits sum.splits prod.splits)

lemma route_body_data:
  assumes "c \<in> set (writes (fst (route_body T E idx ok r)))"
    "a \<notin> {''id'', ''_etag'', ''vrf_context_id'', ''nexthops''}"
  shows "map_of (call_data c) a = map_of (sanitize r) a"
proof -
  obtain ev1 r1 where v: "vrf_part T (sanitize r) = (ev1, r1)"
    by (cases "vrf_part T (sanitize r)")
  with vrf_part_quiet [of T "sanitize r"] have q1: "writes ev1 = []" by simp
  from assms(1) v q1 obtain p1 where r1: "r1 = Inr (Some p1)"
    by (cases r1) (auto simp: route_body_def split: option.splits)
  obtain ev2 r2 where n: "nexthops_part T E p1 = (ev2, r2)"
    by (cases "nexthops_part T E p1")
  with nexthops_part_quiet [of T E p1] have q2: "writes ev2 = []" by simp
  from assms(1) v r1 n q1 q2 obtain p2 where r2: "r2 = Inr p2"
    by (cases r2) (auto simp: route_body_def writes_append)
  from assms(1) v r1 n r2 q1 q2
  have "c \<in> set (writes (fst (upsert_route E idx ok p2)))"
    by (auto simp: route_body_def writes_append split: prod.splits)
  from upsert_route_data [OF this] assms(2) have "map_of (call_data c) a = map_of p2 a"
    by simp
  also have "\<dots> = map_of p1 a" using nexthops_part_keeps [OF n [unfolded r2]] assms(2) by simp
  also have "\<dots> = map_of (sanitize r) a" using vrf_part_keeps [OF v [unfolded r1]] assms(2)
    by simp
  finally show ?thesis .
qed

lemma intf_body_data:
  assumes "c \<in> set (writes (fst (intf_body E idx ok i)))" "a \<noteq> ''id''" "a \<noteq> ''_etag''"
  shows "map_of (call_data c) a = map_of (sanitize i) a"
proof -
  from assms(1)
  have "c \<in> set (writes (fst (create_interface E ok (sanitize i))))
        \<or> (\<exists>d. c \<in> set (writes (fst (update_interface E ok (sanitize i) d))))"
    by (auto simp: intf_body_def Let_def split: sum.splits option.splits if_splits)
  with assms(2,3) show ?thesis using update_interface_data create_interface_data by blast
qed

lemma route_body_sanitized:
  assumes "c \<in> set (writes (fst (route_body T E idx ok r)))" "a \<in> set BASE_DELETE_ATTRS"
  shows "map_of (call_data c) a = None"
proof -
  from assms(2) have "a \<notin> {''id'', ''_etag'', ''vrf_context_id'', ''nexthops''}"
    by (auto simp: BASE_DELETE_ATTRS_def)
  from route_body_data [OF assms(1) this] assms(2) show ?thesis
    by (simp add: map_of_sanitize)
qed

lemma intf_body_sanitized:
  assumes "c \<in> set (writes (fst (intf_body E idx ok i)))" "a \<in> set BASE_DELETE_ATTRS"
  shows "map_of (call_data c) a = None"
proof -
  from assms(2) have "a \<noteq> ''id''" "a \<noteq> ''_etag''"
    by (auto simp: BASE_DELETE_ATTRS_def)
  from intf_body_data [OF assms(1) this] assms(2) show ?thesis
    by (simp add: map_of_sanitize)
qed

text \<open>
  C6. Sanitizing a record keeps, in order, exactly the fields whose name is not one of the
  nine server-managed attributes: a lookup of any field name in the sanitized record gives
  nothing for those nine and the record's own value for every other name. The identifier
  \<open>id\<close> and the concurrency token \<open>_etag\<close> are among the fields kept. The function
  looks at field names only and is the one applied to routes and to interfaces: no payload
  of a write call issued by the body of either loop has one of the nine attributes.
\<close>

theorem sanitize_removes_exactly_base_attrs:
  "sanitize r = filter (\<lambda>kv. fst kv \<notin> set BASE_DELETE_ATTRS) r
   \<and> map_of (sanitize r) k = (if k \<in> set BASE_DELETE_ATTRS then None else map_of r k)
   \<and> set BASE_DELETE_ATTRS =
       {''_created_on_utc'', ''_updated_on_utc'', ''_content_length'', ''_status_code'',
        ''_request_id'', ''_debug'', ''_info'', ''_warning'', ''_error''}
   \<and> map_of (sanitize r) ''id'' = map_of r ''id''
   \<and> map_of (sanitize r) ''_etag'' = map_of r ''_etag''
   \<and> (\<forall>c \<in> set (writes (fst (route_body T E idx ok source_route))).
         \<forall>a \<in> set BASE_DELETE_ATTRS. map_of (call_data c) a = None)
   \<and> (\<forall>c \<in> set (writes (fst (intf_body E idx' ok intf))).
         \<forall>a \<in> set BASE_DELETE_ATTRS. map_of (call_data c) a = None)"
proof -
  have a: "sanitize r = filter (\<lambda>kv. fst kv \<notin> set BASE_DELETE_ATTRS) r"
    by (rule sanitize_filter)
  have b: "map_of (sanitize r) k = (if k \<in> set BASE_DELETE_ATTRS then None else map_of r k)"
    by (rule map_of_sanitize)
  have c: "set BASE_DELETE_ATTRS =
       {''_created_on_utc'', ''_updated_on_utc'', ''_content_length'', ''_status_code'',
        ''_request_id'', ''_debug'', ''_info'', ''_warning'', ''_error''}"
    by (simp add: BASE_DELETE_ATTRS_def)
  have d: "map_of (sanitize r) ''id'' = map_of r ''id''"
    by (simp add: map_of_sanitize BASE_DELETE_ATTRS_def)
  have e: "map_of (sanitize r) ''_etag'' = map_of r ''_etag''"
    by (simp add: map_of_sanitize BASE_DELETE_ATTRS_def)
  have 2: "\<forall>c \<in> set (writes (fst (route_body T E idx ok source_route))).
         \<forall>a \<in> set BASE_DELETE_ATTRS. map_of (call_data c) a = None"
    by (intro ballI) (rule route_body_sanitized)
  have 3: "\<forall>c \<in> set (writes (fst (intf_body E idx' ok intf))).
         \<forall>a \<in> set BASE_DELETE_ATTRS. map_of (call_data c) a = None"
    by (intro ballI) (rule intf_body_sanitized)
  show ?thesis by (intro conjI) (rule a b c d e 2 3)+
qed

theorem sanitize_removes_exactly_base_attrs_witness:
  "Post_staticroutes (JStr ''sB'') (JStr ''eB'') [(''destination_prefix'', JStr ''10.0.0.0/8'')]
     \<in> set (writes (fst (route_body ex_tables ex_ends [] (accept 0)
          [(''id'', JStr ''r1''), (''_etag'', JNum 4), (''_created_on_utc'', JNum 17),
           (''destination_prefix'', JStr ''10.0.0.0/8''), (''_debug'', JNull)])))
   \<and> ''_created_on_utc'' \<in> set BASE_DELETE_ATTRS
   \<and> map_of (call_data (Post_staticroutes (JStr ''sB'') (JStr ''eB'')
                [(''destination_prefix'', JStr ''10.0.0.0/8'')])) ''_created_on_utc'' = None
   \<and> Put_interfaces (JStr ''sB'') (JStr ''eB'') (JStr ''i2'')
        [(''id'', JStr ''i2''), (''_etag'', JNum 5), (''name'', JStr ''vlan10''),
         (''type'', JStr ''vlan'')]
     \<in> set (writes (fst (intf_body ex_ends
          [(JStr ''vlan10'', [(''id'', JStr ''i2''), (''_etag'', JNum 5),
                              (''name'', JStr ''vlan10''), (''type'', JStr ''vlan'')])]
          (accept 0)
          [(''id'', JStr ''i1''), (''_etag'', JNum 8), (''_updated_on_utc'', JNum 23),
           (''name'', JStr ''vlan10''), (''type'', JStr ''vlan'')])))
   \<and> map_of (call_data (Put_interfaces (JStr ''sB'') (JStr ''eB'') (JStr ''i2'')
        [(''id'', JStr ''i2''), (''_etag'', JNum 5), (''name'', JStr ''vlan10''),
         (''type'', JStr ''vlan'')])) ''_updated_on_utc'' = None"
proof -
  let ?r = "[(''id'', JStr ''r1''), (''_etag'', JNum 4), (''_created_on_utc'', JNum 17),
           (''destination_prefix'', JStr ''10.0.0.0/8''), (''_debug'', JNull)]"
  let ?i = "[(''id'', JStr ''i1''), (''_etag'', JNum 8), (''_updated_on_utc'', JNum 23),
           (''name'', JStr ''vlan10''), (''type'', JStr ''vlan'')]"
  let ?idx = "[(JStr ''vlan10'', [(''id'', JStr ''i2''), (''_etag'', JNum 5),
                              (''name'', JStr ''vlan10''), (''type'', JStr ''vlan'')])]"
  let ?c = "Post_staticroutes (JStr ''sB'') (JStr ''eB'')
              [(''destination_prefix'', JStr ''10.0.0.0/8'')]"
  let ?c' = "Put_interfaces (JStr ''sB'') (JStr ''eB'') (JStr ''i2'')
        [(''id'', JStr ''i2''), (''_etag'', JNum 5), (''name'', JStr ''vlan10''),
         (''type'', JStr ''vlan'')]"
  note t = sanitize_removes_exactly_base_attrs [where T = ex_tables and E = ex_ends
      and idx = "[]" and ok = "accept 0" and source_route = ?r and idx' = ?idx and intf = ?i]
  have w: "?c \<in> set (writes (fst (route_body ex_tables ex_ends [] (accept 0) ?r)))"
    "?c' \<in> set (writes (fst (intf_body ex_ends ?idx (accept 0) ?i)))"
    by (simp_all add: route_defs intf_defs ex_defs py_defs)
  have b: "''_created_on_utc'' \<in> set BASE_DELETE_ATTRS"
    "''_updated_on_utc'' \<in> set BASE_DELETE_ATTRS"
    by (simp_all add: BASE_DELETE_ATTRS_def)
  from t w b have "map_of (call_data ?c) ''_created_on_utc'' = None"
    "map_of (call_data ?c') ''_updated_on_utc'' = None" by blast+
  with w b show ?thesis by blast
qed

end
